theory Spec2Isabelle
  imports Complex_Main "HOL-Library.Char_ord" "HOL-Library.List_Lexorder"
begin

section \<open>JavaScript numbers\<close>

text \<open>
  Money is held in JavaScript \<open>Number\<close>s and in BSON doubles, which are IEEE 754 binary64
  values: a finite value is the rational it denotes, and there are the two infinities and
  \<open>NaN\<close>. The sign of zero is not kept. Every arithmetic operation gives the double
  nearest to the exact result, ties going to the even significand (53 bits, exponents
  from -1022 to 1023, subnormal numbers below). Whole amounts that the database keeps in
  an integer type add up to the same values as long as they stay below \<open>2 ^ 53\<close>.
\<close>

datatype number = Finite rat | PosInfinity | NegInfinity | NaN

text \<open>The number of binary digits of a positive integer.\<close>

function bitLength :: "int \<Rightarrow> int" where
  "bitLength n = (if n \<le> 0 then 0 else 1 + bitLength (n div 2))"
  by pat_completeness auto
termination
  by (relation "measure nat") auto

declare bitLength.simps [simp del]

definition pow2 :: "int \<Rightarrow> rat" where
  "pow2 k = (if 0 \<le> k then 2 ^ nat k else 1 / 2 ^ nat (- k))"

text \<open>For a positive \<open>a\<close>, the exponent \<open>e\<close> with \<open>2 ^ e \<le> a < 2 ^ (e + 1)\<close>.\<close>

definition floorLog2 :: "rat \<Rightarrow> int" where
  "floorLog2 a =
     (let (p, q) = quotient_of a;
          k = bitLength p - bitLength q
      in if pow2 k \<le> a then k else k - 1)"

definition roundHalfEven :: "rat \<Rightarrow> int" where
  "roundHalfEven q =
     (let n = \<lfloor>q\<rfloor>; r = q - of_int n
      in if r < 1 / 2 then n else if 1 / 2 < r then n + 1 else if even n then n else n + 1)"

text \<open>
  The double nearest to a real: the significand is the real divided by the unit in the
  last place of its binade, rounded to an integer; a result of \<open>2 ^ 1024\<close> or more is an
  infinity. It is also how a decimal literal or \<open>parseFloat\<close> reads a decimal.
\<close>

definition roundToDouble :: "rat \<Rightarrow> number" where
  "roundToDouble x =
     (if x = 0 then Finite 0
      else
        let a = \<bar>x\<bar>;
            e = max (floorLog2 a) (- 1022);
            m = roundHalfEven (a / pow2 (e - 52))
        in if 1024 \<le> e \<or> (e = 1023 \<and> m = 9007199254740992)
           then (if 0 < x then PosInfinity else NegInfinity)
           else Finite ((if 0 < x then 1 else - 1) * of_int m * pow2 (e - 52)))"

fun jsAdd :: "number \<Rightarrow> number \<Rightarrow> number" where
  "jsAdd (Finite a) (Finite b) = roundToDouble (a + b)"
| "jsAdd NaN _ = NaN"
| "jsAdd _ NaN = NaN"
| "jsAdd PosInfinity NegInfinity = NaN"
| "jsAdd NegInfinity PosInfinity = NaN"
| "jsAdd PosInfinity _ = PosInfinity"
| "jsAdd NegInfinity _ = NegInfinity"
| "jsAdd _ PosInfinity = PosInfinity"
| "jsAdd _ NegInfinity = NegInfinity"

fun jsNegate :: "number \<Rightarrow> number" where
  "jsNegate (Finite a) = Finite (- a)"
| "jsNegate PosInfinity = NegInfinity"
| "jsNegate NegInfinity = PosInfinity"
| "jsNegate NaN = NaN"

fun jsMul :: "number \<Rightarrow> number \<Rightarrow> number" where
  "jsMul (Finite a) (Finite b) = roundToDouble (a * b)"
| "jsMul NaN _ = NaN"
| "jsMul _ NaN = NaN"
| "jsMul (Finite a) PosInfinity =
     (if a = 0 then NaN else if 0 < a then PosInfinity else NegInfinity)"
| "jsMul (Finite a) NegInfinity =
     (if a = 0 then NaN else if 0 < a then NegInfinity else PosInfinity)"
| "jsMul PosInfinity (Finite b) =
     (if b = 0 then NaN else if 0 < b then PosInfinity else NegInfinity)"
| "jsMul NegInfinity (Finite b) =
     (if b = 0 then NaN else if 0 < b then NegInfinity else PosInfinity)"
| "jsMul PosInfinity PosInfinity = PosInfinity"
| "jsMul NegInfinity NegInfinity = PosInfinity"
| "jsMul PosInfinity NegInfinity = NegInfinity"
| "jsMul NegInfinity PosInfinity = NegInfinity"

fun jsDiv :: "number \<Rightarrow> number \<Rightarrow> number" where
  "jsDiv (Finite a) (Finite b) =
     (if b = 0 then (if a = 0 then NaN else if 0 < a then PosInfinity else NegInfinity)
      else roundToDouble (a / b))"
| "jsDiv NaN _ = NaN"
| "jsDiv _ NaN = NaN"
| "jsDiv (Finite a) _ = Finite 0"
| "jsDiv PosInfinity (Finite b) = (if 0 \<le> b then PosInfinity else NegInfinity)"
| "jsDiv NegInfinity (Finite b) = (if 0 \<le> b then NegInfinity else PosInfinity)"
| "jsDiv _ _ = NaN"

text \<open>\<open>a < b\<close> and \<open>a <= b\<close>: false whenever an operand is \<open>NaN\<close>.\<close>

fun jsLess :: "number \<Rightarrow> number \<Rightarrow> bool" where
  "jsLess (Finite a) (Finite b) = (a < b)"
| "jsLess NaN _ = False"
| "jsLess _ NaN = False"
| "jsLess _ NegInfinity = False"
| "jsLess PosInfinity _ = False"
| "jsLess _ _ = True"

definition jsLessEq :: "number \<Rightarrow> number \<Rightarrow> bool" where
  "jsLessEq a b = (a \<noteq> NaN \<and> b \<noteq> NaN \<and> (a = b \<or> jsLess a b))"

text \<open>\<open>!x\<close> of a number: zero and \<open>NaN\<close> are falsy.\<close>

definition falsy :: "number \<Rightarrow> bool" where
  "falsy x = (x = NaN \<or> x = Finite 0)"

section \<open>Data model\<close>

text \<open>
  The persisted documents of the clinic backend, one record per Mongoose schema.
  Object ids are natural numbers, a collection is the list of its documents in insertion
  (natural storage) order, a JavaScript \<open>Number\<close> holding money is a \<open>number\<close> and one
  holding minutes or milliseconds is an integer. A field that may be absent
  (\<open>undefined\<close>/\<open>null\<close>) is an \<open>option\<close>.
\<close>

type_synonym oid = nat

datatype role = SuperAdmin | HospitalManager | HospitalStaff | Doctor | Patient

datatype apptStatus = Upcoming | Completed | Cancelled | NoShow | DoctorCancelled

datatype resolution = Pending | Rescheduled | Refunded | Redirected

datatype queueStatus = Waiting | Serving | Held | Done | Left | RemovedByAdmin

datatype txType = credit | debit

datatype transactionType = AppointmentFee | Refund | Deposit | AdminCredit | InitialBalance

text \<open>
  \<open>referenceId\<close> is a string in the source: the hexadecimal id of an appointment or of a
  redeem code, or one of the prefixes \<open>CASH_\<close>, \<open>DEPOSIT_\<close>, \<open>ADMIN_DEPOSIT_\<close> followed by
  \<open>Date.now()\<close>. The constructors keep these five shapes apart.
\<close>

datatype reference =
    RefAppointment oid
  | RefRedeemCode oid
  | RefCash int
  | RefDeposit int
  | RefAdminDeposit int

text \<open>
  A queue ticket is the string \<open>prefix + (count + 1).toString().padStart(3, '0')\<close>; the
  model keeps the prefix and the sequence number that the source formats.
\<close>

datatype ticket = Ticket string nat

record availability =
  av_dayOfWeek :: string
  av_isAvailable :: bool
  av_startTime :: string
  av_endTime :: string
  av_hospital :: "oid option"

record user =
  u_id :: oid
  u_role :: role
  u_name_en :: string
  u_isActive :: bool
  u_isDisabled :: bool
  u_hospitals :: "oid list"
  u_specialties :: "oid list"
  u_availability :: "availability list"
  u_unavailabilityEpisodes :: "(int \<times> int) list"
  u_hasEmail :: bool
  u_hasPhone :: bool
  u_hasFcmToken :: bool
  u_pref_push :: bool
  u_pref_email :: bool
  u_pref_sms :: bool
  u_pref_type_reminder :: "bool option"
  u_reminders_enabled :: bool
  u_reminder24h :: bool
  u_reminder1h :: bool

record hospital =
  h_id :: oid
  h_name_en :: string
  h_refundPolicyPercentage :: number

record appointmentType =
  at_id :: oid
  at_name_en :: string
  at_duration :: int
  at_cost :: number

record appointment =
  a_id :: oid
  a_user :: oid
  a_doctor :: oid
  a_hospital :: oid
  a_appointmentType :: oid
  a_date :: string
  a_time :: string
  a_status :: apptStatus
  a_cancellationResolution :: resolution
  a_cost :: number
  a_isRefunded :: bool
  a_queueNumber :: "ticket option"
  a_doctorReminder24hSent :: bool
  a_doctorReminder1hSent :: bool
  a_doctorReminder24hSentAt :: "int option"
  a_doctorReminder1hSentAt :: "int option"

record queueItem =
  q_id :: oid
  q_user :: "oid option"
  q_walkInName :: "string option"
  q_doctor :: oid
  q_hospital :: oid
  q_queueNumber :: ticket
  q_status :: queueStatus
  q_checkInTime :: int

record wallet =
  w_id :: oid
  w_user :: oid
  w_balance :: number

record txn =
  t_id :: oid
  t_wallet :: oid
  t_user :: oid
  t_hospital :: "oid option"
  t_amount :: number
  t_type :: txType
  t_transactionType :: transactionType
  t_referenceId :: reference

record redeemCode =
  rc_id :: oid
  rc_code :: string
  rc_amount :: number
  rc_isUsed :: bool
  rc_usedBy :: "oid option"
  rc_usedAt :: "int option"

record notification =
  n_user :: oid
  n_type :: string

record db =
  users :: "user list"
  hospitals :: "hospital list"
  appointmentTypes :: "appointmentType list"
  appointments :: "appointment list"
  queueItems :: "queueItem list"
  wallets :: "wallet list"
  transactions :: "txn list"
  redeemCodes :: "redeemCode list"
  notifications :: "notification list"
  nextId :: oid

text \<open>
  What a handler reads from outside the store: the clock in the forms the source takes it,
  the library parsers (\<open>moment\<close>, \<open>Date\<close>) whose code is not part of the repository, and the
  outcome of writing an in-app notification and of each transport channel.
\<close>

record env =
  e_today :: string
  e_todayUTC :: string
  e_now :: int
  e_currentMinutes :: int
  e_parseDate :: "string \<Rightarrow> int option"
  e_parseMoment :: "string \<Rightarrow> string \<Rightarrow> int option"
  e_moment :: "string \<Rightarrow> int option"
  e_dayOfWeek :: "string \<Rightarrow> string"
  e_notificationSaved :: bool
  e_pushDelivered :: "oid \<Rightarrow> oid \<Rightarrow> bool"
  e_emailDelivered :: "oid \<Rightarrow> oid \<Rightarrow> bool"
  e_smsDelivered :: "oid \<Rightarrow> oid \<Rightarrow> bool"

datatype error =
    PatientIdRequired
  | NotAuthorizedToBook
  | DuplicateAppointment
  | ScheduleConflict int
  | IdsMustBeSpecified
  | InvalidAppointmentType
  | DoctorNotFound
  | HospitalNotFound
  | PatientNotFound
  | DoctorAccountDisabled
  | PatientAccountDisabled
  | DoctorUnavailable
  | DoctorNotAtHospital
  | InsufficientBalanceForPatient
  | AppointmentValidationFailed
  | DuplicateKey
  | WalletNotFound
  | InsufficientWalletBalance
  | AppointmentNotFound
  | NotAuthorized
  | NotCancelledByDoctor
  | ResolutionAlreadyProcessed
  | NewDoctorRequired
  | NewSlotRequired
  | InvalidAction
  | PatientsCanOnlyCancel
  | InvalidAmount
  | CodeRequired
  | InvalidCode
  | CodeAlreadyUsed
  | RoleNotAuthorized
  | AlreadyInAQueue
  | DoctorNotAssociated
  | PatientAlreadyInQueue
  | QueueItemNotFound
  | CannotHold
  | NotOnHold
  | TypeErrorNull
  | NumberCastFailed

section \<open>Store primitives\<close>

definition findOne :: "('a \<Rightarrow> bool) \<Rightarrow> 'a list \<Rightarrow> 'a option" where
  "findOne p xs = List.find p xs"

definition updateWhere :: "('a \<Rightarrow> bool) \<Rightarrow> ('a \<Rightarrow> 'a) \<Rightarrow> 'a list \<Rightarrow> 'a list" where
  "updateWhere p f xs = map (\<lambda>x. if p x then f x else x) xs"

text \<open>
  \<open>session.withTransaction(body)\<close>: when the body throws, the transaction is aborted and
  every write made through the session is discarded, so the store is the one from before
  the call; otherwise the writes are committed together.
\<close>

definition withTransaction :: "(db \<Rightarrow> error + db \<times> 'r) \<Rightarrow> db \<Rightarrow> db \<times> (error + 'r)" where
  "withTransaction body st =
     (case body st of
        Inl e \<Rightarrow> (st, Inl e)
      | Inr (st', r) \<Rightarrow> (st', Inr r))"

section \<open>Ledger engine (walletService.js)\<close>

record transactionData =
  td_userId :: oid
  td_amount :: number
  td_type :: txType
  td_transactionType :: transactionType
  td_referenceId :: reference
  td_hospitalId :: "oid option"

text \<open>
  \<open>performDbOperations\<close>: look the wallet up by user, refuse a debit above the balance,
  \<open>$inc\<close> the balance by the signed amount and save the Transaction. The comparison and
  the increment are those of doubles. Mongoose refuses to cast \<open>NaN\<close> to a \<open>Number\<close>, so
  an amount that is \<open>NaN\<close> fails at the update. Every throw comes before the first
  write. The guard on \<open>undefined\<close> fields of \<open>transactionData\<close> has no branch here: every
  field of the record is present.
\<close>

definition performDbOperations :: "transactionData \<Rightarrow> db \<Rightarrow> error + db \<times> txn" where
  "performDbOperations td st =
     (case findOne (\<lambda>w. w_user w = td_userId td) (wallets st) of
        None \<Rightarrow> Inl WalletNotFound
      | Some wallet \<Rightarrow>
          let balanceChange =
                (if td_type td = credit then td_amount td else jsNegate (td_amount td)) in
          if td_type td = debit \<and> jsLess (w_balance wallet) (td_amount td)
          then Inl InsufficientWalletBalance
          else if td_amount td = NaN then Inl NumberCastFailed
          else
            let newTransaction = \<lparr> t_id = nextId st, t_wallet = w_id wallet,
                  t_user = td_userId td, t_hospital = td_hospitalId td,
                  t_amount = td_amount td, t_type = td_type td,
                  t_transactionType = td_transactionType td,
                  t_referenceId = td_referenceId td \<rparr>
            in Inr (st \<lparr> wallets := updateWhere (\<lambda>w. w_id w = w_id wallet)
                                  (\<lambda>w. w \<lparr> w_balance := jsAdd (w_balance w) balanceChange \<rparr>)
                                  (wallets st),
                          transactions := transactions st @ [newTransaction],
                          nextId := Suc (nextId st) \<rparr>,
                    newTransaction))"

text \<open>
  With a caller's session the operations join the caller's transaction; without one the
  service opens its own.
\<close>

definition createTransactionAndUpdateWallet_session ::
  "transactionData \<Rightarrow> db \<Rightarrow> error + db \<times> txn" where
  "createTransactionAndUpdateWallet_session td st = performDbOperations td st"

definition createTransactionAndUpdateWallet ::
  "transactionData \<Rightarrow> db \<Rightarrow> db \<times> (error + txn)" where
  "createTransactionAndUpdateWallet td st = withTransaction (performDbOperations td) st"

section \<open>Collection operations with the schema's validation and indexes\<close>

text \<open>
  The Appointment schema has the compound unique index \<open>{doctor, date, time}\<close>, the
  required strings \<open>date\<close> and \<open>time\<close> (Mongoose refuses an empty required string) and
  the required number \<open>cost\<close> (Mongoose refuses \<open>NaN\<close>). An
  insert that repeats the key of any stored appointment, whatever its status, fails with
  the duplicate-key error (code 11000).
\<close>

definition slotKey :: "appointment \<Rightarrow> oid \<times> string \<times> string" where
  "slotKey a = (a_doctor a, a_date a, a_time a)"

definition Appointment_create :: "appointment \<Rightarrow> db \<Rightarrow> error + db \<times> appointment" where
  "Appointment_create doc st =
     (if a_date doc = [] \<or> a_time doc = [] \<or> a_cost doc = NaN
      then Inl AppointmentValidationFailed
      else if \<exists>b \<in> set (appointments st). slotKey b = slotKey doc then Inl DuplicateKey
      else
        let a = doc \<lparr> a_id := nextId st \<rparr>
        in Inr (st \<lparr> appointments := appointments st @ [a], nextId := Suc (nextId st) \<rparr>, a))"

text \<open>
  \<open>doc.save()\<close> of a loaded appointment: the update is checked against the unique index
  when it changes one of the indexed fields.
\<close>

definition Appointment_save :: "appointment \<Rightarrow> db \<Rightarrow> error + db" where
  "Appointment_save doc st =
     (if a_date doc = [] \<or> a_time doc = [] then Inl AppointmentValidationFailed
      else if (\<exists>old \<in> set (appointments st). a_id old = a_id doc \<and> slotKey old \<noteq> slotKey doc)
              \<and> (\<exists>b \<in> set (appointments st). a_id b \<noteq> a_id doc \<and> slotKey b = slotKey doc)
      then Inl DuplicateKey
      else Inr (st \<lparr> appointments :=
                  updateWhere (\<lambda>b. a_id b = a_id doc) (\<lambda>_. doc) (appointments st) \<rparr>))"

definition QueueItem_create :: "queueItem \<Rightarrow> db \<Rightarrow> db" where
  "QueueItem_create doc st =
     st \<lparr> queueItems := queueItems st @ [doc \<lparr> q_id := nextId st \<rparr>],
          nextId := Suc (nextId st) \<rparr>"

definition activeStatus :: "queueStatus \<Rightarrow> bool" where
  "activeStatus s = (s = Waiting \<or> s = Serving \<or> s = Held)"

text \<open>
  \<open>createNotification\<close> (notificationHelper.js) writes the in-app notification and starts
  the external send without awaiting it; its \<open>try/catch\<close> turns every failure into a
  returned \<open>{success: false}\<close>, so it never throws. A type outside the schema's enum fails
  validation, which is such a failure.
\<close>

definition validNotificationType :: "string \<Rightarrow> bool" where
  "validNotificationType ty =
     (ty \<in> {''appointment'', ''reminder'', ''wallet'', ''system'', ''emergency''})"

definition createNotification :: "env \<Rightarrow> oid \<Rightarrow> string \<Rightarrow> db \<Rightarrow> db" where
  "createNotification ev userId type st =
     (if e_notificationSaved ev \<and> validNotificationType type
      then st \<lparr> notifications := notifications st @ [\<lparr> n_user = userId, n_type = type \<rparr>] \<rparr>
      else st)"

definition deleteFirst :: "('a \<Rightarrow> bool) \<Rightarrow> 'a list \<Rightarrow> 'a list" where
  "deleteFirst p xs = takeWhile (\<lambda>x. \<not> p x) xs @ drop 1 (dropWhile (\<lambda>x. \<not> p x) xs)"

text \<open>\<open>String.prototype.toUpperCase\<close> on the ASCII letters.\<close>

definition toUpperCase :: "char \<Rightarrow> char" where
  "toUpperCase c =
     (if CHR ''a'' \<le> c \<and> c \<le> CHR ''z'' then char_of (of_char c - (32::nat)) else c)"

definition nameInitial :: "user \<Rightarrow> string" where
  "nameInitial doctor = map toUpperCase (take 1 (u_name_en doctor))"

section \<open>Booking (POST /api/appointments)\<close>

record bookReq =
  b_date :: string
  b_time :: string
  b_doctorId :: "oid option"
  b_hospitalId :: "oid option"
  b_appointmentTypeId :: "oid option"
  b_force :: bool
  b_patientId :: "oid option"
  b_cashPayment :: bool
  b_appointmentId :: "oid option"

definition isStaff :: "user \<Rightarrow> bool" where
  "isStaff caller = (u_role caller \<in> {HospitalStaff, HospitalManager, SuperAdmin})"

text \<open>The patient the booking is for: the caller, or \<open>patientId\<close> when staff book.\<close>

definition targetUser :: "user \<Rightarrow> bookReq \<Rightarrow> oid option" where
  "targetUser caller rq = (if isStaff caller then b_patientId rq else Some (u_id caller))"

text \<open>
  The soft conflict check: the first Upcoming appointment of the patient on that day whose
  parsed time is less than 60 minutes from the requested one. An unparsable time skips
  the comparison.
\<close>

fun conflictLoop :: "env \<Rightarrow> bookReq \<Rightarrow> appointment list \<Rightarrow> int option" where
  "conflictLoop ev rq [] = None"
| "conflictLoop ev rq (appt # rest) =
     (if Some (a_id appt) = b_appointmentId rq then conflictLoop ev rq rest
      else
        (case e_parseMoment ev (b_date rq) (b_time rq) of
           None \<Rightarrow> conflictLoop ev rq rest
         | Some requestedMoment \<Rightarrow>
             (case e_parseMoment ev (a_date appt) (a_time appt) of
                None \<Rightarrow> conflictLoop ev rq rest
              | Some existingMoment \<Rightarrow>
                  let diffMinutes = \<bar>requestedMoment - existingMoment\<bar>
                  in if diffMinutes < 60 then Some diffMinutes
                     else conflictLoop ev rq rest)))"

definition isUnavailable :: "env \<Rightarrow> user \<Rightarrow> string \<Rightarrow> bool" where
  "isUnavailable ev doctor date =
     (case e_parseDate ev date of
        None \<Rightarrow> False
      | Some bookingDate \<Rightarrow>
          (\<exists>ep \<in> set (u_unavailabilityEpisodes doctor). fst ep \<le> bookingDate \<and> bookingDate \<le> snd ep))"

text \<open>
  A booking dated today puts the patient in the live queue unless the patient already
  has an active entry in any queue.
\<close>

definition bookingQueueEntry ::
  "env \<Rightarrow> oid \<Rightarrow> oid \<Rightarrow> oid \<Rightarrow> ticket \<Rightarrow> string \<Rightarrow> db \<Rightarrow> db" where
  "bookingQueueEntry ev targetUserId doctorId hospitalId queueNumber date st =
     (if date = e_today ev
      then (case findOne (\<lambda>q. q_user q = Some targetUserId \<and> activeStatus (q_status q))
                   (queueItems st) of
              Some alreadyInQueue \<Rightarrow> st
            | None \<Rightarrow>
                QueueItem_create
                  \<lparr> q_id = 0, q_user = Some targetUserId, q_walkInName = None,
                    q_doctor = doctorId, q_hospital = hospitalId,
                    q_queueNumber = queueNumber, q_status = Waiting,
                    q_checkInTime = e_now ev \<rparr> st)
      else st)"

text \<open>
  The second half of the transaction body: balance check, ticket number, the appointment,
  the queue entry, the debit and the confirmation.
\<close>

definition newAppointment ::
  "oid \<Rightarrow> user \<Rightarrow> oid \<Rightarrow> appointmentType \<Rightarrow> bookReq \<Rightarrow> ticket \<Rightarrow> appointment" where
  "newAppointment targetUserId doctor hospitalId appointmentType rq queueNumber =
     \<lparr> a_id = 0, a_user = targetUserId, a_doctor = u_id doctor,
       a_hospital = hospitalId, a_appointmentType = at_id appointmentType,
       a_date = b_date rq, a_time = b_time rq, a_status = Upcoming,
       a_cancellationResolution = Pending, a_cost = at_cost appointmentType,
       a_isRefunded = False, a_queueNumber = Some queueNumber,
       a_doctorReminder24hSent = False, a_doctorReminder1hSent = False,
       a_doctorReminder24hSentAt = None, a_doctorReminder1hSentAt = None \<rparr>"

definition bookingCommit ::
  "env \<Rightarrow> oid \<Rightarrow> user \<Rightarrow> oid \<Rightarrow> appointmentType \<Rightarrow> bookReq \<Rightarrow> db \<Rightarrow> error + db \<times> appointment" where
  "bookingCommit ev targetUserId doctor hospitalId appointmentType rq st =
     (let cost = at_cost appointmentType in
      case findOne (\<lambda>w. w_user w = targetUserId) (wallets st) of
        None \<Rightarrow> Inl InsufficientBalanceForPatient
      | Some currentWalletState \<Rightarrow>
          if jsLess (w_balance currentWalletState) cost then Inl InsufficientBalanceForPatient
          else
            let count = length (filter (\<lambda>a. a_doctor a = u_id doctor \<and> a_date a = b_date rq)
                                  (appointments st));
                queueNumber = Ticket (nameInitial doctor) (count + 1)
            in
            (case Appointment_create
                    (newAppointment targetUserId doctor hospitalId appointmentType rq queueNumber)
                    st of
               Inl e \<Rightarrow> Inl e
             | Inr (st2, appointment) \<Rightarrow>
                 (case createTransactionAndUpdateWallet_session
                         \<lparr> td_userId = targetUserId, td_amount = cost, td_type = debit,
                           td_transactionType = AppointmentFee,
                           td_referenceId = RefAppointment (a_id appointment),
                           td_hospitalId = Some hospitalId \<rparr>
                         (bookingQueueEntry ev targetUserId (u_id doctor) hospitalId queueNumber
                            (b_date rq) st2) of
                    Inl e \<Rightarrow> Inl e
                  | Inr (st4, savedTransaction) \<Rightarrow>
                      Inr (createNotification ev targetUserId ''appointment'' st4, appointment))))"

text \<open>
  The first half: the referenced documents, the disabled flags, the unavailability
  episodes, the doctor's hospitals, and the deposit of the fee when staff collected cash.
\<close>

definition bookingBody ::
  "env \<Rightarrow> user \<Rightarrow> oid \<Rightarrow> bookReq \<Rightarrow> db \<Rightarrow> error + db \<times> appointment" where
  "bookingBody ev caller targetUserId rq st =
     (case b_doctorId rq of None \<Rightarrow> Inl IdsMustBeSpecified | Some doctorId \<Rightarrow>
      case b_hospitalId rq of None \<Rightarrow> Inl IdsMustBeSpecified | Some hospitalId \<Rightarrow>
      case b_appointmentTypeId rq of None \<Rightarrow> Inl IdsMustBeSpecified | Some appointmentTypeId \<Rightarrow>
      case findOne (\<lambda>t. at_id t = appointmentTypeId) (appointmentTypes st) of
        None \<Rightarrow> Inl InvalidAppointmentType | Some appointmentType \<Rightarrow>
      case findOne (\<lambda>u. u_id u = doctorId) (users st) of
        None \<Rightarrow> Inl DoctorNotFound | Some doctor \<Rightarrow>
      case findOne (\<lambda>h. h_id h = hospitalId) (hospitals st) of
        None \<Rightarrow> Inl HospitalNotFound | Some hospital \<Rightarrow>
      case findOne (\<lambda>u. u_id u = targetUserId) (users st) of
        None \<Rightarrow> Inl PatientNotFound | Some patient \<Rightarrow>
      if u_isDisabled doctor then Inl DoctorAccountDisabled
      else if u_isDisabled patient then Inl PatientAccountDisabled
      else if isUnavailable ev doctor (b_date rq) then Inl DoctorUnavailable
      else if hospitalId \<notin> set (u_hospitals doctor) then Inl DoctorNotAtHospital
      else if b_cashPayment rq \<and> isStaff caller
      then (case createTransactionAndUpdateWallet_session
                   \<lparr> td_userId = targetUserId, td_amount = at_cost appointmentType,
                     td_type = credit, td_transactionType = Deposit,
                     td_referenceId = RefCash (e_now ev),
                     td_hospitalId = Some hospitalId \<rparr> st of
              Inl e \<Rightarrow> Inl e
            | Inr (st1, depositTransaction) \<Rightarrow>
                bookingCommit ev targetUserId doctor hospitalId appointmentType rq st1)
      else bookingCommit ev targetUserId doctor hospitalId appointmentType rq st)"

text \<open>
  The status of a failed transaction: 409 for the duplicate-key error, 400 when the
  message contains \<open>Insufficient\<close>, \<open>not found\<close> or \<open>must be specified\<close>, 500 otherwise.
\<close>

definition bookingErrorStatus :: "error \<Rightarrow> nat" where
  "bookingErrorStatus e =
     (if e = DuplicateKey then 409
      else if e \<in> {InsufficientBalanceForPatient, InsufficientWalletBalance, DoctorNotFound,
                    HospitalNotFound, PatientNotFound, WalletNotFound, IdsMustBeSpecified}
      then 400 else 500)"

text \<open>
  The handler. A missing \<open>doctorId\<close> makes the exact-duplicate query match no stored
  appointment (every stored appointment has a doctor).
\<close>

definition bookAppointment ::
  "env \<Rightarrow> user \<Rightarrow> bookReq \<Rightarrow> db \<Rightarrow> db \<times> nat \<times> (error + appointment)" where
  "bookAppointment ev caller rq st =
     (if \<not> isStaff caller \<and> u_role caller \<noteq> Patient then (st, 403, Inl NotAuthorizedToBook)
      else
        case targetUser caller rq of
          None \<Rightarrow> (st, 400, Inl PatientIdRequired)
        | Some targetUserId \<Rightarrow>
            (case findOne (\<lambda>a. a_user a = targetUserId \<and> a_status a = Upcoming
                                \<and> a_date a = b_date rq \<and> a_time a = b_time rq
                                \<and> Some (a_doctor a) = b_doctorId rq) (appointments st) of
               Some existingExact \<Rightarrow> (st, 409, Inl DuplicateAppointment)
             | None \<Rightarrow>
                 (case (if b_force rq then None
                        else conflictLoop ev rq
                               (filter (\<lambda>a. a_user a = targetUserId \<and> a_status a = Upcoming
                                             \<and> a_date a = b_date rq) (appointments st))) of
                    Some diffMinutes \<Rightarrow> (st, 409, Inl (ScheduleConflict diffMinutes))
                  | None \<Rightarrow>
                      (case withTransaction (bookingBody ev caller targetUserId rq) st of
                         (st', Inr appointment) \<Rightarrow> (st', 201, Inr appointment)
                       | (st', Inl e) \<Rightarrow> (st', bookingErrorStatus e, Inl e)))))"

definition balanceOf :: "oid \<Rightarrow> db \<Rightarrow> number option" where
  "balanceOf userId st = map_option w_balance (findOne (\<lambda>w. w_user w = userId) (wallets st))"

section \<open>The other appointment routes (appointments.js)\<close>

text \<open>
  PUT /:id/reschedule. When the day changes, the ticket is regenerated, a Waiting or Held
  entry of the patient with this doctor is deleted if the old day was today, and a
  Waiting entry is created if the new day is today. Every failure answers 500.
\<close>

definition rescheduleBody :: "env \<Rightarrow> oid \<Rightarrow> string \<Rightarrow> string \<Rightarrow> db \<Rightarrow> error + db \<times> unit" where
  "rescheduleBody ev apptId date time st =
     (case findOne (\<lambda>a. a_id a = apptId) (appointments st) of
        None \<Rightarrow> Inl AppointmentNotFound
      | Some appointment \<Rightarrow>
          let oldDate = a_date appointment in
          if date \<noteq> oldDate
          then
            (case findOne (\<lambda>u. u_id u = a_doctor appointment) (users st) of
               None \<Rightarrow> Inl TypeErrorNull
             | Some doctor \<Rightarrow>
                 let count = length (filter (\<lambda>a. a_doctor a = u_id doctor \<and> a_date a = date)
                                       (appointments st));
                     queueNumber = Ticket (nameInitial doctor) (count + 1);
                     st1 = (if oldDate = e_today ev
                            then st \<lparr> queueItems :=
                                   deleteFirst (\<lambda>q. q_user q = Some (a_user appointment)
                                                    \<and> q_doctor q = u_id doctor
                                                    \<and> (q_status q = Waiting \<or> q_status q = Held))
                                     (queueItems st) \<rparr>
                            else st);
                     st2 = (if date = e_today ev
                            then QueueItem_create
                                   \<lparr> q_id = 0, q_user = Some (a_user appointment),
                                     q_walkInName = None, q_doctor = u_id doctor,
                                     q_hospital = a_hospital appointment,
                                     q_queueNumber = queueNumber, q_status = Waiting,
                                     q_checkInTime = e_now ev \<rparr> st1
                            else st1)
                 in (case Appointment_save
                            (appointment \<lparr> a_queueNumber := Some queueNumber, a_date := date,
                                           a_time := time, a_status := Upcoming \<rparr>) st2 of
                       Inl e \<Rightarrow> Inl e
                     | Inr st3 \<Rightarrow> Inr (st3, ())))
          else
            (case Appointment_save
                    (appointment \<lparr> a_date := date, a_time := time, a_status := Upcoming \<rparr>) st of
               Inl e \<Rightarrow> Inl e
             | Inr st3 \<Rightarrow> Inr (st3, ())))"

definition reschedule :: "env \<Rightarrow> oid \<Rightarrow> string \<Rightarrow> string \<Rightarrow> db \<Rightarrow> db \<times> nat \<times> (error + unit)" where
  "reschedule ev apptId date time st =
     (case withTransaction (rescheduleBody ev apptId date time) st of
        (st', Inr u) \<Rightarrow> (st', 200, Inr u)
      | (st', Inl e) \<Rightarrow> (st', 500, Inl e))"

text \<open>PUT /:id/status: any caller, any status of the enum, no transaction.\<close>

definition updateStatus :: "oid \<Rightarrow> apptStatus \<Rightarrow> db \<Rightarrow> db \<times> nat \<times> (error + unit)" where
  "updateStatus apptId status st =
     (case findOne (\<lambda>a. a_id a = apptId) (appointments st) of
        None \<Rightarrow> (st, 404, Inl AppointmentNotFound)
      | Some appointment \<Rightarrow>
          (case Appointment_save (appointment \<lparr> a_status := status \<rparr>) st of
             Inl e \<Rightarrow> (st, 500, Inl e)
           | Inr st' \<Rightarrow> (st', 200, Inr ())))"

text \<open>
  PUT /doctor-cancel/:id. The in-app notification is created with the type
  \<open>Appointment Cancelled by Doctor\<close>, which the Notification schema refuses.
\<close>

definition doctorCancel :: "env \<Rightarrow> user \<Rightarrow> oid \<Rightarrow> db \<Rightarrow> db \<times> nat \<times> (error + unit)" where
  "doctorCancel ev caller apptId st =
     (if u_role caller = Patient then (st, 403, Inl RoleNotAuthorized)
      else
        case findOne (\<lambda>a. a_id a = apptId) (appointments st) of
          None \<Rightarrow> (st, 404, Inl AppointmentNotFound)
        | Some appt \<Rightarrow>
            let doctorDoc = findOne (\<lambda>u. u_id u = a_doctor appt) (users st);
                hospitalDoc = findOne (\<lambda>h. h_id h = a_hospital appt) (hospitals st);
                userDoc = findOne (\<lambda>u. u_id u = a_user appt) (users st)
            in
            if (u_role caller = Doctor \<and> doctorDoc = None) \<or> (isStaff caller \<and> hospitalDoc = None)
            then (st, 500, Inl TypeErrorNull)
            else
              let isDoctorOwner = (u_role caller = Doctor \<and> a_doctor appt = u_id caller);
                  isAdminOfHospital = (isStaff caller \<and> a_hospital appt \<in> set (u_hospitals caller))
              in if \<not> isDoctorOwner \<and> \<not> isAdminOfHospital then (st, 403, Inl NotAuthorized)
                 else
                   (case Appointment_save
                           (appt \<lparr> a_status := DoctorCancelled,
                                   a_cancellationResolution := Pending \<rparr>) st of
                      Inl e \<Rightarrow> (st, 500, Inl e)
                    | Inr st1 \<Rightarrow>
                        if userDoc = None \<or> doctorDoc = None
                        then (st1, 500, Inl TypeErrorNull)
                        else (createNotification ev (a_user appt)
                                ''Appointment Cancelled by Doctor'' st1, 200, Inr ())))"

text \<open>
  PUT /:id/resolve-cancellation. \<open>newSlot\<close> is absent or carries a date and a time, each
  of which may be empty (falsy). Every failure answers 400.
\<close>

datatype action = ActRefund | ActRedirect | ActReschedule | ActOther

record resolveReq =
  r_action :: action
  r_newDoctorId :: "oid option"
  r_newSlot :: "(string \<times> string) option"

definition resolveBody :: "env \<Rightarrow> user \<Rightarrow> oid \<Rightarrow> resolveReq \<Rightarrow> db \<Rightarrow> error + db \<times> unit" where
  "resolveBody ev caller apptId rq st =
     (case findOne (\<lambda>a. a_id a = apptId) (appointments st) of
        None \<Rightarrow> Inl AppointmentNotFound
      | Some appt \<Rightarrow>
          if findOne (\<lambda>u. u_id u = a_user appt) (users st) = None then Inl TypeErrorNull
          else if a_user appt \<noteq> u_id caller then Inl NotAuthorized
          else if a_status appt \<noteq> DoctorCancelled then Inl NotCancelledByDoctor
          else if a_cancellationResolution appt \<noteq> Pending then Inl ResolutionAlreadyProcessed
          else
            (case r_action rq of
               ActRefund \<Rightarrow>
                 let refundAmount = a_cost appt in
                 (case (if jsLess (Finite 0) refundAmount
                        then (if findOne (\<lambda>u. u_id u = a_doctor appt) (users st) = None
                                 \<or> findOne (\<lambda>h. h_id h = a_hospital appt) (hospitals st) = None
                              then Inl TypeErrorNull
                              else (case createTransactionAndUpdateWallet_session
                                           \<lparr> td_userId = a_user appt, td_amount = refundAmount,
                                             td_type = credit, td_transactionType = Refund,
                                             td_referenceId = RefAppointment (a_id appt),
                                             td_hospitalId = Some (a_hospital appt) \<rparr> st of
                                      Inl e \<Rightarrow> Inl e
                                    | Inr (st1, t) \<Rightarrow> Inr st1))
                        else Inr st) of
                    Inl e \<Rightarrow> Inl e
                  | Inr st1 \<Rightarrow>
                      (case Appointment_save
                              (appt \<lparr> a_status := Cancelled, a_isRefunded := True,
                                      a_cancellationResolution := Refunded \<rparr>) st1 of
                         Inl e \<Rightarrow> Inl e
                       | Inr st2 \<Rightarrow>
                           Inr (createNotification ev (a_user appt) ''appointment'' st2, ())))
             | ActRedirect \<Rightarrow>
                 (case r_newDoctorId rq of
                    None \<Rightarrow> Inl NewDoctorRequired
                  | Some newDoctorId \<Rightarrow>
                      let appt1 = appt \<lparr> a_doctor := newDoctorId, a_status := Upcoming,
                                         a_cancellationResolution := Redirected \<rparr>;
                          appt2 = (case r_newSlot rq of
                                     None \<Rightarrow> appt1
                                   | Some (d, t) \<Rightarrow>
                                       appt1 \<lparr> a_date := (if d = [] then a_date appt else d),
                                               a_time := (if t = [] then a_time appt else t) \<rparr>)
                      in (case Appointment_save appt2 st of
                            Inl e \<Rightarrow> Inl e
                          | Inr st1 \<Rightarrow> Inr (st1, ())))
             | ActReschedule \<Rightarrow>
                 (case r_newSlot rq of
                    None \<Rightarrow> Inl NewSlotRequired
                  | Some (d, t) \<Rightarrow>
                      if d = [] \<or> t = [] then Inl NewSlotRequired
                      else
                        (case Appointment_save
                                (appt \<lparr> a_date := d, a_time := t, a_status := Upcoming,
                                        a_cancellationResolution := Rescheduled \<rparr>) st of
                           Inl e \<Rightarrow> Inl e
                         | Inr st1 \<Rightarrow> Inr (st1, ())))
             | ActOther \<Rightarrow> Inl InvalidAction))"

definition resolveCancellation ::
  "env \<Rightarrow> user \<Rightarrow> oid \<Rightarrow> resolveReq \<Rightarrow> db \<Rightarrow> db \<times> nat \<times> (error + unit)" where
  "resolveCancellation ev caller apptId rq st =
     (case withTransaction (resolveBody ev caller apptId rq) st of
        (st', Inr u) \<Rightarrow> (st', 200, Inr u)
      | (st', Inl e) \<Rightarrow> (st', 400, Inl e))"

text \<open>
  PUT /:id, the status update through which a patient cancels. The handler never reads
  the status the appointment has. The refund is \<open>cost * (refundPolicyPercentage / 100)\<close>,
  a quotient and a product of doubles.
\<close>

definition updateBody :: "env \<Rightarrow> user \<Rightarrow> oid \<Rightarrow> apptStatus \<Rightarrow> db \<Rightarrow> error + db \<times> unit" where
  "updateBody ev caller apptId status st =
     (case findOne (\<lambda>a. a_id a = apptId) (appointments st) of
        None \<Rightarrow> Inl AppointmentNotFound
      | Some appt \<Rightarrow>
          let isPatientOwner = (u_role caller = Patient \<and> a_user appt = u_id caller);
              hospitalDoc = findOne (\<lambda>h. h_id h = a_hospital appt) (hospitals st)
          in
          if isStaff caller \<and> hospitalDoc = None then Inl TypeErrorNull
          else
            let isAdminOfHospital = (isStaff caller \<and> a_hospital appt \<in> set (u_hospitals caller))
            in
            if \<not> isPatientOwner \<and> \<not> isAdminOfHospital then Inl NotAuthorized
            else if isPatientOwner \<and> status \<noteq> Cancelled then Inl PatientsCanOnlyCancel
            else
              (case (if status = Cancelled \<and> \<not> a_isRefunded appt
                     then (case hospitalDoc of
                             None \<Rightarrow> Inl TypeErrorNull
                           | Some hospital \<Rightarrow>
                               let refundAmount =
                                     jsMul (a_cost appt)
                                       (jsDiv (h_refundPolicyPercentage hospital) (Finite 100))
                               in if jsLess (Finite 0) refundAmount
                                  then (if findOne (\<lambda>t. at_id t = a_appointmentType appt)
                                                (appointmentTypes st) = None
                                           \<or> findOne (\<lambda>u. u_id u = a_doctor appt) (users st) = None
                                        then Inl TypeErrorNull
                                        else (case createTransactionAndUpdateWallet_session
                                                     \<lparr> td_userId = a_user appt,
                                                       td_amount = refundAmount,
                                                       td_type = credit,
                                                       td_transactionType = Refund,
                                                       td_referenceId = RefAppointment (a_id appt),
                                                       td_hospitalId = Some (a_hospital appt) \<rparr> st of
                                                Inl e \<Rightarrow> Inl e
                                              | Inr (st1, t) \<Rightarrow> Inr (st1, True)))
                                  else Inr (st, True))
                     else Inr (st, a_isRefunded appt)) of
                 Inl e \<Rightarrow> Inl e
               | Inr (st1, refunded) \<Rightarrow>
                   (case Appointment_save
                           (appt \<lparr> a_status := status, a_isRefunded := refunded \<rparr>) st1 of
                      Inl e \<Rightarrow> Inl e
                    | Inr st2 \<Rightarrow>
                        Inr (if status = Cancelled
                             then createNotification ev (a_user appt) ''appointment'' st2
                             else st2, ()))))"

text \<open>
  The status of a failure: 403 when the message contains \<open>Not authorized\<close> or
  \<open>can only cancel\<close>, 404 when it contains \<open>not found\<close>, 500 otherwise.
\<close>

definition updateErrorStatus :: "error \<Rightarrow> nat" where
  "updateErrorStatus e =
     (if e \<in> {NotAuthorized, PatientsCanOnlyCancel} then 403
      else if e \<in> {AppointmentNotFound, WalletNotFound} then 404
      else 500)"

definition updateAppointment ::
  "env \<Rightarrow> user \<Rightarrow> oid \<Rightarrow> apptStatus \<Rightarrow> db \<Rightarrow> db \<times> nat \<times> (error + unit)" where
  "updateAppointment ev caller apptId status st =
     (case withTransaction (updateBody ev caller apptId status) st of
        (st', Inr u) \<Rightarrow> (st', 200, Inr u)
      | (st', Inl e) \<Rightarrow> (st', updateErrorStatus e, Inl e))"

section \<open>Wallet routes (wallet.js, users.js)\<close>

text \<open>
  The amount of a request is the decimal it carries, or \<open>None\<close> when it carries no number;
  \<open>parseFloat\<close> gives the nearest double, or \<open>NaN\<close>.
\<close>

definition parseFloat :: "rat option \<Rightarrow> number" where
  "parseFloat amount = (case amount of None \<Rightarrow> NaN | Some r \<Rightarrow> roundToDouble r)"

text \<open>
  The ledger write of a deposit runs in the service's own transaction; the notification
  follows it.
\<close>

definition deposit :: "env \<Rightarrow> user \<Rightarrow> rat option \<Rightarrow> db \<Rightarrow> db \<times> nat \<times> (error + unit)" where
  "deposit ev caller amount st =
     (if u_role caller \<noteq> Patient then (st, 403, Inl RoleNotAuthorized)
      else
        let parsedAmount = parseFloat amount in
        if falsy parsedAmount \<or> jsLessEq parsedAmount (Finite 0)
        then (st, 400, Inl InvalidAmount)
        else
              (case createTransactionAndUpdateWallet
                      \<lparr> td_userId = u_id caller, td_amount = parsedAmount, td_type = credit,
                        td_transactionType = Deposit, td_referenceId = RefDeposit (e_now ev),
                        td_hospitalId = None \<rparr> st of
                 (st1, Inl e) \<Rightarrow> (st1, 500, Inl e)
               | (st1, Inr t) \<Rightarrow> (createNotification ev (u_id caller) ''wallet'' st1, 200, Inr ())))"

definition redeem :: "env \<Rightarrow> user \<Rightarrow> string \<Rightarrow> db \<Rightarrow> db \<times> nat \<times> (error + unit)" where
  "redeem ev caller code st =
     (if u_role caller \<noteq> Patient then (st, 403, Inl RoleNotAuthorized)
      else if code = [] then (st, 400, Inl CodeRequired)
      else
        case findOne (\<lambda>c. rc_code c = map toUpperCase code) (redeemCodes st) of
          None \<Rightarrow> (st, 404, Inl InvalidCode)
        | Some redeemCode \<Rightarrow>
            if rc_isUsed redeemCode then (st, 400, Inl CodeAlreadyUsed)
            else
              (case createTransactionAndUpdateWallet
                      \<lparr> td_userId = u_id caller, td_amount = rc_amount redeemCode,
                        td_type = credit, td_transactionType = Deposit,
                        td_referenceId = RefRedeemCode (rc_id redeemCode),
                        td_hospitalId = None \<rparr> st of
                 (st1, Inl e) \<Rightarrow> (st1, 500, Inl e)
               | (st1, Inr t) \<Rightarrow>
                   let st2 = st1 \<lparr> redeemCodes :=
                               updateWhere (\<lambda>c. rc_id c = rc_id redeemCode)
                                 (\<lambda>c. c \<lparr> rc_isUsed := True, rc_usedBy := Some (u_id caller),
                                          rc_usedAt := Some (e_now ev) \<rparr>) (redeemCodes st1) \<rparr>
                   in (createNotification ev (u_id caller) ''wallet'' st2, 200, Inr ())))"

definition addFunds :: "env \<Rightarrow> user \<Rightarrow> oid \<Rightarrow> rat option \<Rightarrow> db \<Rightarrow> db \<times> nat \<times> (error + unit)" where
  "addFunds ev caller userId amount st =
     (if u_role caller \<notin> {HospitalManager, SuperAdmin} then (st, 403, Inl RoleNotAuthorized)
      else
        let parsedAmount = parseFloat amount in
            if falsy parsedAmount \<or> jsLessEq parsedAmount (Finite 0)
            then (st, 400, Inl InvalidAmount)
            else if findOne (\<lambda>w. w_user w = userId) (wallets st) = None
            then (st, 404, Inl WalletNotFound)
            else
              (case createTransactionAndUpdateWallet
                      \<lparr> td_userId = userId, td_amount = parsedAmount, td_type = credit,
                        td_transactionType = Deposit, td_referenceId = RefAdminDeposit (e_now ev),
                        td_hospitalId = None \<rparr> st of
                 (st1, Inl e) \<Rightarrow> (st1, 500, Inl e)
               | (st1, Inr t) \<Rightarrow> (createNotification ev userId ''wallet'' st1, 200, Inr ())))"

section \<open>Queue coordinator (queueService)\<close>

definition updateFirst :: "('a \<Rightarrow> bool) \<Rightarrow> ('a \<Rightarrow> 'a) \<Rightarrow> 'a list \<Rightarrow> 'a list" where
  "updateFirst p f xs =
     takeWhile (\<lambda>x. \<not> p x) xs @
     (case dropWhile (\<lambda>x. \<not> p x) xs of [] \<Rightarrow> [] | y # ys \<Rightarrow> f y # ys)"

text \<open>
  The ticket of a queue entry: the number stored on the appointment when there is one,
  otherwise a fresh one from the count of the doctor's entries at the hospital, written
  back to the appointment.
\<close>

definition ticketFor ::
  "user \<Rightarrow> oid \<Rightarrow> appointment option \<Rightarrow> db \<Rightarrow> error + ticket \<times> db" where
  "ticketFor doctor hospitalId appt st =
     (let count = length (filter (\<lambda>q. q_doctor q = u_id doctor \<and> q_hospital q = hospitalId)
                            (queueItems st));
          fresh = Ticket (nameInitial doctor) (count + 1)
      in case appt of
           None \<Rightarrow> Inr (fresh, st)
         | Some a \<Rightarrow>
             (case a_queueNumber a of
                Some queueNumber \<Rightarrow> Inr (queueNumber, st)
              | None \<Rightarrow>
                  (case Appointment_save (a \<lparr> a_queueNumber := Some fresh \<rparr>) st of
                     Inl e \<Rightarrow> Inl e
                   | Inr st1 \<Rightarrow> Inr (fresh, st1))))"

definition joinQueue :: "env \<Rightarrow> oid \<Rightarrow> oid \<Rightarrow> oid \<Rightarrow> db \<Rightarrow> db \<times> (error + unit)" where
  "joinQueue ev userId doctorId hospitalId st =
     (case findOne (\<lambda>q. q_user q = Some userId \<and> activeStatus (q_status q)) (queueItems st) of
        Some alreadyInQueue \<Rightarrow> (st, Inl AlreadyInAQueue)
      | None \<Rightarrow>
          (case findOne (\<lambda>u. u_id u = doctorId) (users st) of
             None \<Rightarrow> (st, Inl DoctorNotAssociated)
           | Some doctor \<Rightarrow>
               if u_role doctor \<noteq> Doctor \<or> hospitalId \<notin> set (u_hospitals doctor)
               then (st, Inl DoctorNotAssociated)
               else
                 let todaysAppointment =
                       findOne (\<lambda>a. a_user a = userId \<and> a_doctor a = doctorId
                                    \<and> a_hospital a = hospitalId \<and> a_status a = Upcoming
                                    \<and> a_date a = e_today ev) (appointments st)
                 in (case ticketFor doctor hospitalId todaysAppointment st of
                       Inl e \<Rightarrow> (st, Inl e)
                     | Inr (queueNumber, st1) \<Rightarrow>
                         (QueueItem_create
                            \<lparr> q_id = 0, q_user = Some userId, q_walkInName = None,
                              q_doctor = doctorId, q_hospital = hospitalId,
                              q_queueNumber = queueNumber, q_status = Waiting,
                              q_checkInTime = e_now ev \<rparr> st1, Inr ()))))"

definition leaveQueue :: "oid \<Rightarrow> db \<Rightarrow> db" where
  "leaveQueue userId st =
     st \<lparr> queueItems :=
            updateFirst (\<lambda>q. q_user q = Some userId \<and> (q_status q = Waiting \<or> q_status q = Held))
              (\<lambda>q. q \<lparr> q_status := Left \<rparr>) (queueItems st) \<rparr>"

text \<open>
  The doctor's Waiting entries in ascending \<open>checkInTime\<close>; entries with equal times stay
  in storage order.
\<close>

definition waitingLine :: "oid \<Rightarrow> db \<Rightarrow> queueItem list" where
  "waitingLine doctorId st =
     sort_key q_checkInTime
       (filter (\<lambda>q. q_doctor q = doctorId \<and> q_status q = Waiting) (queueItems st))"

definition firstOf :: "'a list \<Rightarrow> 'a option" where
  "firstOf xs = (case xs of [] \<Rightarrow> None | x # _ \<Rightarrow> Some x)"

definition finishCurrent :: "env \<Rightarrow> oid \<Rightarrow> db \<Rightarrow> db" where
  "finishCurrent ev doctorId st =
     (case findOne (\<lambda>q. q_doctor q = doctorId \<and> q_status q = Serving) (queueItems st) of
        None \<Rightarrow> st
      | Some currentServing \<Rightarrow>
          let st1 = st \<lparr> queueItems :=
                         updateWhere (\<lambda>q. q_id q = q_id currentServing)
                           (\<lambda>q. q \<lparr> q_status := Done \<rparr>) (queueItems st) \<rparr>
          in (case q_user currentServing of
                None \<Rightarrow> st1
              | Some patient \<Rightarrow>
                  st1 \<lparr> appointments :=
                          updateFirst (\<lambda>a. a_user a = patient \<and> a_doctor a = doctorId
                                           \<and> a_status a = Upcoming \<and> a_date a = e_todayUTC ev)
                            (\<lambda>a. a \<lparr> a_status := Completed \<rparr>) (appointments st1) \<rparr>))"

definition promoteNext :: "oid \<Rightarrow> db \<Rightarrow> db \<times> queueItem option" where
  "promoteNext doctorId st =
     (case firstOf (waitingLine doctorId st) of
        None \<Rightarrow> (st, None)
      | Some next \<Rightarrow>
          (st \<lparr> queueItems :=
                  updateWhere (\<lambda>q. q_id q = q_id next) (\<lambda>q. q \<lparr> q_status := Serving \<rparr>)
                    (queueItems st) \<rparr>,
           Some (next \<lparr> q_status := Serving \<rparr>)))"

definition notifyUpNext :: "env \<Rightarrow> oid \<Rightarrow> db \<Rightarrow> db" where
  "notifyUpNext ev doctorId st =
     (case firstOf (waitingLine doctorId st) of
        None \<Rightarrow> st
      | Some upNext \<Rightarrow>
          (case q_user upNext of
             None \<Rightarrow> st
           | Some patient \<Rightarrow> createNotification ev patient ''system'' st))"

definition callNextPatient :: "env \<Rightarrow> oid \<Rightarrow> db \<Rightarrow> db \<times> queueItem option" where
  "callNextPatient ev doctorId st =
     (let st1 = finishCurrent ev doctorId st;
          (st2, nextPatient) = promoteNext doctorId st1
      in (notifyUpNext ev doctorId st2, nextPatient))"

definition holdPatient :: "oid \<Rightarrow> db \<Rightarrow> db \<times> (error + unit)" where
  "holdPatient queueItemId st =
     (case findOne (\<lambda>q. q_id q = queueItemId) (queueItems st) of
        None \<Rightarrow> (st, Inl QueueItemNotFound)
      | Some item \<Rightarrow>
          if q_status item \<noteq> Serving \<and> q_status item \<noteq> Waiting then (st, Inl CannotHold)
          else (st \<lparr> queueItems :=
                       updateWhere (\<lambda>q. q_id q = queueItemId) (\<lambda>q. q \<lparr> q_status := Held \<rparr>)
                         (queueItems st) \<rparr>, Inr ()))"

definition requeuePatient :: "oid \<Rightarrow> db \<Rightarrow> db \<times> (error + unit)" where
  "requeuePatient queueItemId st =
     (case findOne (\<lambda>q. q_id q = queueItemId) (queueItems st) of
        None \<Rightarrow> (st, Inl QueueItemNotFound)
      | Some item \<Rightarrow>
          if q_status item \<noteq> Held then (st, Inl NotOnHold)
          else (st \<lparr> queueItems :=
                       updateWhere (\<lambda>q. q_id q = queueItemId) (\<lambda>q. q \<lparr> q_status := Waiting \<rparr>)
                         (queueItems st) \<rparr>, Inr ()))"

definition removePatientFromQueue :: "oid \<Rightarrow> db \<Rightarrow> db" where
  "removePatientFromQueue queueItemId st =
     st \<lparr> queueItems :=
            updateWhere (\<lambda>q. q_id q = queueItemId) (\<lambda>q. q \<lparr> q_status := RemovedByAdmin \<rparr>)
              (queueItems st) \<rparr>"

text \<open>
  \<open>checkInAppointment\<close>: the query for an existing entry names the appointment's doctor as
  well as the patient.
\<close>

definition checkInAppointment :: "env \<Rightarrow> oid \<Rightarrow> db \<Rightarrow> db \<times> (error + unit)" where
  "checkInAppointment ev appointmentId st =
     (case findOne (\<lambda>a. a_id a = appointmentId) (appointments st) of
        None \<Rightarrow> (st, Inl AppointmentNotFound)
      | Some appointment \<Rightarrow>
          (case findOne (\<lambda>u. u_id u = a_doctor appointment) (users st) of
             None \<Rightarrow> (st, Inl TypeErrorNull)
           | Some doctor \<Rightarrow>
               (case findOne (\<lambda>q. q_doctor q = u_id doctor \<and> q_user q = Some (a_user appointment)
                                   \<and> activeStatus (q_status q)) (queueItems st) of
                  Some existingItem \<Rightarrow> (st, Inl PatientAlreadyInQueue)
                | None \<Rightarrow>
                    (case ticketFor doctor (a_hospital appointment) (Some appointment) st of
                       Inl e \<Rightarrow> (st, Inl e)
                     | Inr (queueNumber, st1) \<Rightarrow>
                         (QueueItem_create
                            \<lparr> q_id = 0, q_user = Some (a_user appointment), q_walkInName = None,
                              q_doctor = u_id doctor, q_hospital = a_hospital appointment,
                              q_queueNumber = queueNumber, q_status = Waiting,
                              q_checkInTime = e_now ev \<rparr> st1, Inr ())))))"

section \<open>JavaScript strings and numbers\<close>

text \<open>
  The string operations the time arithmetic uses. A JavaScript number that may be
  \<open>NaN\<close> is an \<open>int option\<close> with \<open>None\<close> for \<open>NaN\<close>; every comparison with \<open>NaN\<close> is
  false and every sum with it is \<open>NaN\<close>. \<open>Number(s)\<close> is modelled on strings of decimal
  digits with surrounding white space (the empty string is 0); any other string is taken
  to \<open>NaN\<close>.
\<close>

type_synonym jsnum = "int option"

definition isSpace :: "char \<Rightarrow> bool" where
  "isSpace c = (c \<in> {CHR '' '', CHR 0x09, CHR 0x0A, CHR 0x0B, CHR 0x0C, CHR 0x0D})"

definition trim :: "string \<Rightarrow> string" where
  "trim s = rev (dropWhile isSpace (rev (dropWhile isSpace s)))"

fun splitOn :: "char \<Rightarrow> string \<Rightarrow> string list" where
  "splitOn c [] = [[]]"
| "splitOn c (x # xs) =
     (if x = c then [] # splitOn c xs
      else (case splitOn c xs of [] \<Rightarrow> [[x]] | w # ws \<Rightarrow> (x # w) # ws))"

fun includesStr :: "string \<Rightarrow> string \<Rightarrow> bool" where
  "includesStr [] pat = (pat = [])"
| "includesStr (x # xs) pat = (take (length pat) (x # xs) = pat \<or> includesStr xs pat)"

definition isDigit :: "char \<Rightarrow> bool" where
  "isDigit c = (CHR ''0'' \<le> c \<and> c \<le> CHR ''9'')"

definition jsNumber :: "string \<Rightarrow> jsnum" where
  "jsNumber s =
     (let t = trim s
      in if list_all isDigit t
         then Some (foldl (\<lambda>n c. 10 * n + (int (of_char c) - 48)) 0 t)
         else None)"

text \<open>\<open>Number\<close> of the element at an index; a missing element is \<open>undefined\<close>, hence \<open>NaN\<close>.\<close>

definition numberAt :: "string list \<Rightarrow> nat \<Rightarrow> jsnum" where
  "numberAt parts i = (if i < length parts then jsNumber (parts ! i) else None)"

definition nadd :: "jsnum \<Rightarrow> jsnum \<Rightarrow> jsnum" where
  "nadd a b = (case a of None \<Rightarrow> None | Some x \<Rightarrow> (case b of None \<Rightarrow> None | Some y \<Rightarrow> Some (x + y)))"

definition nlt :: "jsnum \<Rightarrow> jsnum \<Rightarrow> bool" where
  "nlt a b = (case a of None \<Rightarrow> False | Some x \<Rightarrow> (case b of None \<Rightarrow> False | Some y \<Rightarrow> x < y))"

definition nle :: "jsnum \<Rightarrow> jsnum \<Rightarrow> bool" where
  "nle a b = (case a of None \<Rightarrow> False | Some x \<Rightarrow> (case b of None \<Rightarrow> False | Some y \<Rightarrow> x \<le> y))"

definition nmax :: "jsnum \<Rightarrow> jsnum \<Rightarrow> jsnum" where
  "nmax a b = (case a of None \<Rightarrow> None | Some x \<Rightarrow> (case b of None \<Rightarrow> None | Some y \<Rightarrow> Some (max x y)))"

text \<open>The remainder \<open>%\<close> takes the sign of the dividend.\<close>

definition jsRem :: "int \<Rightarrow> int \<Rightarrow> int" where
  "jsRem a b = sgn a * (\<bar>a\<bar> mod \<bar>b\<bar>)"

fun showNat :: "nat \<Rightarrow> string" where
  "showNat n =
     (if n < 10 then [char_of (48 + n)]
      else showNat (n div 10) @ [char_of (48 + n mod 10)])"

definition showInt :: "int \<Rightarrow> string" where
  "showInt i = (if i < 0 then CHR ''-'' # showNat (nat (- i)) else showNat (nat i))"

definition padStart :: "nat \<Rightarrow> char \<Rightarrow> string \<Rightarrow> string" where
  "padStart n c s = replicate (n - length s) c @ s"

section \<open>Slot allocator (GET /availability/doctor/:doctorId)\<close>

text \<open>
  \<open>timeToMinutes\<close>: a string with neither \<open>AM\<close> nor \<open>PM\<close> is read as \<open>HH:mm\<close>; otherwise it
  is split at the spaces into the time and the modifier, and a missing modifier makes
  \<open>modifier.toUpperCase()\<close> throw.
\<close>

definition timeToMinutes :: "string \<Rightarrow> error + jsnum" where
  "timeToMinutes timeStr =
     (let is24Hour = (\<not> includesStr timeStr ''AM'' \<and> \<not> includesStr timeStr ''PM'') in
      if is24Hour
      then (let parts = splitOn CHR '':'' timeStr
            in Inr (nadd (map_option (\<lambda>h. h * 60) (numberAt parts 0)) (numberAt parts 1)))
      else
        (let words = splitOn CHR '' '' timeStr;
             parts = splitOn CHR '':'' (words ! 0);
             hours = numberAt parts 0;
             minutes = numberAt parts 1
         in if length words < 2 then Inl TypeErrorNull
            else
              let modifier = map toUpperCase (words ! 1);
                  hours1 = (if modifier = ''PM'' \<and> nlt hours (Some 12) then nadd hours (Some 12)
                            else hours);
                  hours2 = (if modifier = ''AM'' \<and> hours1 = Some 12 then Some 0 else hours1)
              in Inr (nadd (map_option (\<lambda>h. h * 60) hours2) minutes)))"

definition minutesToTime :: "jsnum \<Rightarrow> string" where
  "minutesToTime m =
     (case m of
        None \<Rightarrow> ''NaN:NaN AM''
      | Some minutes \<Rightarrow>
          let hours = minutes div 60;
              mins = jsRem minutes 60;
              ampm = (if hours \<ge> 12 then ''PM'' else ''AM'');
              formattedHours = (if jsRem hours 12 = 0 then 12 else jsRem hours 12);
              formattedMinutes = padStart 2 CHR ''0'' (showInt mins)
          in showInt formattedHours @ '':'' @ formattedMinutes @ '' '' @ ampm)"

datatype slotAnswer =
    SlotBadRequest
  | SlotNotFound
  | SlotServerError
  | SlotUnavailable
  | SlotNoWindow
  | ScheduleFull
  | SlotAvailable string nat

text \<open>
  The existing appointments are the doctor's Upcoming ones at the hospital on the date,
  in the order of \<open>.sort({ time: 1 })\<close>: the store compares the \<open>time\<close> strings, character
  by character.
\<close>

definition existingAppointmentsFor :: "oid \<Rightarrow> oid \<Rightarrow> string \<Rightarrow> db \<Rightarrow> appointment list" where
  "existingAppointmentsFor doctorId hospitalId date st =
     sort_key a_time
       (filter (\<lambda>a. a_doctor a = doctorId \<and> a_hospital a = hospitalId \<and> a_date a = date
                    \<and> a_status a = Upcoming) (appointments st))"

text \<open>The slot after the last existing appointment, never before the start of the shift.\<close>

definition slotAfterLast :: "jsnum \<Rightarrow> appointment list \<Rightarrow> db \<Rightarrow> error + jsnum" where
  "slotAfterLast doctorStartMinutes existingAppointments st =
     (if existingAppointments = [] then Inr doctorStartMinutes
      else
        let lastAppointment = last existingAppointments
        in (case timeToMinutes (a_time lastAppointment) of
              Inl e \<Rightarrow> Inl e
            | Inr lastApptStart \<Rightarrow>
                let lastApptDuration =
                      (case findOne (\<lambda>t. at_id t = a_appointmentType lastAppointment)
                              (appointmentTypes st) of
                         None \<Rightarrow> 30
                       | Some t \<Rightarrow> at_duration t)
                in Inr (nmax doctorStartMinutes (nadd lastApptStart (Some lastApptDuration)))))"

text \<open>
  On the current day a slot earlier than now plus 15 minutes is replaced by now plus 15
  minutes, rounded up to a multiple of 5.
\<close>

definition todayFloor :: "env \<Rightarrow> string \<Rightarrow> jsnum \<Rightarrow> jsnum" where
  "todayFloor ev date nextSlotStartMinutes =
     (if date = e_today ev
      then (let bookingBuffer = 15 in
            if nlt nextSlotStartMinutes (Some (e_currentMinutes ev + bookingBuffer))
            then (let adjustedTime = e_currentMinutes ev + bookingBuffer;
                      remainder = jsRem adjustedTime 5
                  in Some (if remainder \<noteq> 0 then adjustedTime + (5 - remainder) else adjustedTime))
            else nextSlotStartMinutes)
      else nextSlotStartMinutes)"

definition computeSlot ::
  "env \<Rightarrow> string \<Rightarrow> availability \<Rightarrow> int \<Rightarrow> appointment list \<Rightarrow> db \<Rightarrow> slotAnswer" where
  "computeSlot ev date dayAvailability requestedDuration existingAppointments st =
     (case timeToMinutes (av_startTime dayAvailability) of
        Inl e \<Rightarrow> SlotServerError
      | Inr doctorStartMinutes \<Rightarrow>
          (case timeToMinutes (av_endTime dayAvailability) of
             Inl e \<Rightarrow> SlotServerError
           | Inr endMinutes \<Rightarrow>
               let doctorEndMinutes =
                     (if nle endMinutes doctorStartMinutes then nadd endMinutes (Some (24 * 60))
                      else endMinutes)
               in (case slotAfterLast doctorStartMinutes existingAppointments st of
                     Inl e \<Rightarrow> SlotServerError
                   | Inr afterLast \<Rightarrow>
                       let nextSlotStartMinutes = todayFloor ev date afterLast
                       in if nlt doctorEndMinutes
                               (nadd nextSlotStartMinutes (Some requestedDuration))
                          then ScheduleFull
                          else SlotAvailable (minutesToTime nextSlotStartMinutes)
                                 (length existingAppointments + 1))))"

definition nextAvailableSlot ::
  "env \<Rightarrow> oid \<Rightarrow> string \<Rightarrow> oid option \<Rightarrow> oid option \<Rightarrow> db \<Rightarrow> nat \<times> slotAnswer" where
  "nextAvailableSlot ev doctorId date appointmentTypeId hospitalId st =
     (if date = [] then (400, SlotBadRequest)
      else
        case appointmentTypeId of None \<Rightarrow> (400, SlotBadRequest) | Some typeId \<Rightarrow>
        case hospitalId of None \<Rightarrow> (400, SlotBadRequest) | Some hospId \<Rightarrow>
        case findOne (\<lambda>u. u_id u = doctorId) (users st) of
          None \<Rightarrow> (404, SlotNotFound) | Some doctor \<Rightarrow>
        case findOne (\<lambda>t. at_id t = typeId) (appointmentTypes st) of
          None \<Rightarrow> (404, SlotNotFound) | Some appointmentType \<Rightarrow>
        if isUnavailable ev doctor date then (200, SlotUnavailable)
        else
          (case findOne (\<lambda>d. av_hospital d \<noteq> None \<and> av_dayOfWeek d = e_dayOfWeek ev date
                              \<and> av_hospital d = Some hospId) (u_availability doctor) of
             None \<Rightarrow> (200, SlotNoWindow)
           | Some dayAvailability \<Rightarrow>
               if \<not> av_isAvailable dayAvailability then (200, SlotNoWindow)
               else
                 (case computeSlot ev date dayAvailability (at_duration appointmentType)
                         (existingAppointmentsFor doctorId hospId date st) st of
                    SlotServerError \<Rightarrow> (500, SlotServerError)
                  | answer \<Rightarrow> (200, answer))))"

section \<open>Reminder scheduler (doctorReminderService)\<close>

datatype reminderType = R24h | R1h

text \<open>
  \<open>timeStr.split(/\s*(AM|PM)/i)\<close>: the part before the first \<open>AM\<close> or \<open>PM\<close> (in either
  case), without the white space that precedes it, and the modifier found.
\<close>

fun splitMeridiem :: "string \<Rightarrow> (string \<times> string) option" where
  "splitMeridiem [] = None"
| "splitMeridiem (x # xs) =
     (if map toUpperCase (take 2 (x # xs)) \<in> {''AM'', ''PM''}
      then Some ([], take 2 (x # xs))
      else map_option (\<lambda>(p, m). (x # p, m)) (splitMeridiem xs))"

definition showJsnum :: "jsnum \<Rightarrow> string" where
  "showJsnum n = (case n of None \<Rightarrow> ''NaN'' | Some i \<Rightarrow> showInt i)"

text \<open>
  \<open>parseAppointmentDateTime\<close>: hours and minutes are read from the time string, written
  back as \<open>HH:mm\<close> after the date and handed to \<open>moment\<close>, which returns the instant in
  milliseconds or an invalid moment (\<open>None\<close>).
\<close>

definition parseAppointmentDateTime :: "env \<Rightarrow> string \<Rightarrow> string \<Rightarrow> int option" where
  "parseAppointmentDateTime ev date time =
     (let timeStr = trim time;
          hm =
            (if includesStr timeStr ''AM'' \<or> includesStr timeStr ''PM''
             then (case splitMeridiem timeStr of
                     None \<Rightarrow> (None, Some 0)
                   | Some (before, modifier) \<Rightarrow>
                       let timePart = rev (dropWhile isSpace (rev before));
                           parts = splitOn CHR '':'' timePart;
                           h = numberAt parts 0;
                           m = numberAt parts 1;
                           minutes = (case m of None \<Rightarrow> Some 0 | Some v \<Rightarrow> Some v);
                           hours = (if map toUpperCase modifier = ''PM'' \<and> h \<noteq> Some 12
                                    then nadd h (Some 12)
                                    else if map toUpperCase modifier = ''AM'' \<and> h = Some 12
                                    then Some 0 else h)
                       in (hours, minutes))
             else (let parts = splitOn CHR '':'' timeStr;
                       m = numberAt parts 1
                   in (numberAt parts 0, (case m of None \<Rightarrow> Some 0 | Some v \<Rightarrow> Some v))));
          dateTimeStr = date @ '' '' @ padStart 2 CHR ''0'' (showJsnum (fst hm)) @ '':''
                          @ padStart 2 CHR ''0'' (showJsnum (snd hm))
      in e_moment ev dateTimeStr)"

text \<open>
  \<open>sendExternalNotification\<close> for a reminder: refused for a missing or disabled user and
  for a user who turned the type off; otherwise each enabled channel with a contact point
  is tried, and the send succeeded when at least one channel delivered. The transports are
  outside the repository: their outcome, per recipient and per appointment, comes from the
  environment.
\<close>

definition sendExternalNotification :: "env \<Rightarrow> oid \<Rightarrow> oid \<Rightarrow> db \<Rightarrow> bool" where
  "sendExternalNotification ev userId tag st =
     (case findOne (\<lambda>u. u_id u = userId) (users st) of
        None \<Rightarrow> False
      | Some user \<Rightarrow>
          if u_isDisabled user then False
          else if u_pref_type_reminder user = Some False then False
          else
            let push = (u_pref_push user \<and> u_hasFcmToken user \<and> e_pushDelivered ev userId tag);
                email = (u_pref_email user \<and> u_hasEmail user \<and> e_emailDelivered ev userId tag);
                sms = (u_pref_sms user \<and> u_hasPhone user \<and> e_smsDelivered ev userId tag)
            in push \<or> email \<or> sms)"

text \<open>
  \<open>Appointment.findByIdAndUpdate(id, {[updateField]: true, [updateTimeField]: new Date()})\<close>:
  the flag of the reminder class and its timestamp.
\<close>

definition setReminderFlag :: "env \<Rightarrow> reminderType \<Rightarrow> appointment \<Rightarrow> appointment" where
  "setReminderFlag ev reminderType a =
     (case reminderType of
        R24h \<Rightarrow> a \<lparr> a_doctorReminder24hSent := True,
                     a_doctorReminder24hSentAt := Some (e_now ev) \<rparr>
      | R1h \<Rightarrow> a \<lparr> a_doctorReminder1hSent := True,
                    a_doctorReminder1hSentAt := Some (e_now ev) \<rparr>)"

definition markReminderSent :: "env \<Rightarrow> reminderType \<Rightarrow> oid \<Rightarrow> db \<Rightarrow> db" where
  "markReminderSent ev reminderType apptId st =
     st \<lparr> appointments :=
            updateWhere (\<lambda>a. a_id a = apptId) (setReminderFlag ev reminderType)
              (appointments st) \<rparr>"

text \<open>
  \<open>sendDoctorReminder\<close>: the eligibility checks in the source's order, the send, and the
  flag with its timestamp after a successful send. Every throw inside is caught and
  returned as a failure.
\<close>

definition sendDoctorReminder :: "env \<Rightarrow> appointment \<Rightarrow> reminderType \<Rightarrow> db \<Rightarrow> db \<times> bool" where
  "sendDoctorReminder ev appointment reminderType st =
     (case findOne (\<lambda>u. u_id u = a_doctor appointment) (users st) of
        None \<Rightarrow> (st, False)
      | Some doctor \<Rightarrow>
          if u_isDisabled doctor \<or> \<not> u_isActive doctor then (st, False)
          else if \<not> u_reminders_enabled doctor then (st, False)
          else if reminderType = R24h \<and> \<not> u_reminder24h doctor then (st, False)
          else if reminderType = R1h \<and> \<not> u_reminder1h doctor then (st, False)
          else if findOne (\<lambda>u. u_id u = a_user appointment) (users st) = None then (st, False)
          else if sendExternalNotification ev (u_id doctor) (a_id appointment) st
          then (markReminderSent ev reminderType (a_id appointment) st, True)
          else (st, False))"

record passResult =
  pr_total :: nat
  pr_processed :: nat
  pr_sent :: nat
  pr_failed :: nat
  pr_skipped :: nat
  pr_sentIds :: "oid list"

definition reminderSent :: "reminderType \<Rightarrow> appointment \<Rightarrow> bool" where
  "reminderSent reminderType a =
     (case reminderType of R24h \<Rightarrow> a_doctorReminder24hSent a | R1h \<Rightarrow> a_doctorReminder1hSent a)"

definition reminderSentAt :: "reminderType \<Rightarrow> appointment \<Rightarrow> int option" where
  "reminderSentAt reminderType a =
     (case reminderType of
        R24h \<Rightarrow> a_doctorReminder24hSentAt a | R1h \<Rightarrow> a_doctorReminder1hSentAt a)"

text \<open>The window in milliseconds: 24 h \<plusminus> 30 min, or 1 h \<plusminus> 7 min, from now.\<close>

definition reminderWindow :: "env \<Rightarrow> reminderType \<Rightarrow> int \<times> int" where
  "reminderWindow ev reminderType =
     (case reminderType of
        R24h \<Rightarrow> (e_now ev + 24 * 3600000 - 30 * 60000, e_now ev + 24 * 3600000 + 30 * 60000)
      | R1h \<Rightarrow> (e_now ev + 3600000 - 7 * 60000, e_now ev + 3600000 + 7 * 60000))"

fun reminderLoop ::
  "env \<Rightarrow> reminderType \<Rightarrow> appointment list \<Rightarrow> db \<times> passResult \<Rightarrow> db \<times> passResult" where
  "reminderLoop ev reminderType [] acc = acc"
| "reminderLoop ev reminderType (appointment # rest) (st, results) =
     (case parseAppointmentDateTime ev (a_date appointment) (a_time appointment) of
        None \<Rightarrow>
          reminderLoop ev reminderType rest (st, results \<lparr> pr_skipped := pr_skipped results + 1 \<rparr>)
      | Some appointmentDateTime \<Rightarrow>
          if \<not> (fst (reminderWindow ev reminderType) \<le> appointmentDateTime
                 \<and> appointmentDateTime \<le> snd (reminderWindow ev reminderType))
          then reminderLoop ev reminderType rest
                 (st, results \<lparr> pr_skipped := pr_skipped results + 1 \<rparr>)
          else if appointmentDateTime < e_now ev
          then reminderLoop ev reminderType rest
                 (st, results \<lparr> pr_skipped := pr_skipped results + 1 \<rparr>)
          else
            (case sendDoctorReminder ev appointment reminderType st of
               (st1, True) \<Rightarrow>
                 reminderLoop ev reminderType rest
                   (st1, results \<lparr> pr_processed := pr_processed results + 1,
                                   pr_sent := pr_sent results + 1,
                                   pr_sentIds := pr_sentIds results @ [a_id appointment] \<rparr>)
             | (st1, False) \<Rightarrow>
                 reminderLoop ev reminderType rest
                   (st1, results \<lparr> pr_processed := pr_processed results + 1,
                                   pr_failed := pr_failed results + 1 \<rparr>)))"

text \<open>The candidates of a pass: Upcoming appointments whose flag of the class is false.\<close>

definition reminderCandidates :: "reminderType \<Rightarrow> db \<Rightarrow> appointment list" where
  "reminderCandidates reminderType st =
     filter (\<lambda>a. a_status a = Upcoming \<and> \<not> reminderSent reminderType a) (appointments st)"

definition processReminders :: "env \<Rightarrow> reminderType \<Rightarrow> db \<Rightarrow> db \<times> passResult" where
  "processReminders ev reminderType st =
     (let appointments = reminderCandidates reminderType st
      in reminderLoop ev reminderType appointments
           (st, \<lparr> pr_total = length appointments, pr_processed = 0, pr_sent = 0,
                  pr_failed = 0, pr_skipped = 0, pr_sentIds = [] \<rparr>))"

definition process24HourReminders :: "env \<Rightarrow> db \<Rightarrow> db \<times> passResult" where
  "process24HourReminders ev st = processReminders ev R24h st"

definition process1HourReminders :: "env \<Rightarrow> db \<Rightarrow> db \<times> passResult" where
  "process1HourReminders ev st = processReminders ev R1h st"

section \<open>The operations as one step function\<close>

text \<open>
  The operations that write appointments, queue entries, wallets or transactions, with
  their callers and arguments. The routes answer with a status and a body; the queue and
  reminder services return a value or throw.
\<close>

datatype request =
    Book user bookReq
  | Reschedule oid string string
  | SetStatus oid apptStatus
  | DoctorCancel user oid
  | Resolve user oid resolveReq
  | Update user oid apptStatus
  | DepositFunds user "rat option"
  | RedeemCode user string
  | AddFunds user oid "rat option"
  | JoinQueue oid oid oid
  | LeaveQueue oid
  | CallNext oid
  | Hold oid
  | Requeue oid
  | RemoveFromQueue oid
  | CheckIn oid
  | RunReminders reminderType

fun handle :: "env \<Rightarrow> request \<Rightarrow> db \<Rightarrow> db" where
  "handle ev (Book caller rq) st = fst (bookAppointment ev caller rq st)"
| "handle ev (Reschedule apptId date time) st = fst (reschedule ev apptId date time st)"
| "handle ev (SetStatus apptId status) st = fst (updateStatus apptId status st)"
| "handle ev (DoctorCancel caller apptId) st = fst (doctorCancel ev caller apptId st)"
| "handle ev (Resolve caller apptId rq) st = fst (resolveCancellation ev caller apptId rq st)"
| "handle ev (Update caller apptId status) st = fst (updateAppointment ev caller apptId status st)"
| "handle ev (DepositFunds caller amount) st = fst (deposit ev caller amount st)"
| "handle ev (RedeemCode caller code) st = fst (redeem ev caller code st)"
| "handle ev (AddFunds caller userId amount) st = fst (addFunds ev caller userId amount st)"
| "handle ev (JoinQueue userId doctorId hospitalId) st = fst (joinQueue ev userId doctorId hospitalId st)"
| "handle ev (LeaveQueue userId) st = leaveQueue userId st"
| "handle ev (CallNext doctorId) st = fst (callNextPatient ev doctorId st)"
| "handle ev (Hold queueItemId) st = fst (holdPatient queueItemId st)"
| "handle ev (Requeue queueItemId) st = fst (requeuePatient queueItemId st)"
| "handle ev (RemoveFromQueue queueItemId) st = removePatientFromQueue queueItemId st"
| "handle ev (CheckIn appointmentId) st = fst (checkInAppointment ev appointmentId st)"
| "handle ev (RunReminders reminderType) st = fst (processReminders ev reminderType st)"

text \<open>A history: each operation with the environment it ran in, oldest first.\<close>

fun run :: "(env \<times> request) list \<Rightarrow> db \<Rightarrow> db" where
  "run [] st = st"
| "run ((ev, req) # rest) st = run rest (handle ev req st)"

section \<open>Predicates used in the statements\<close>

definition isFeeDebit :: "txn \<Rightarrow> oid \<Rightarrow> appointment \<Rightarrow> bool" where
  "isFeeDebit t userId a =
     (t_type t = debit \<and> t_transactionType t = AppointmentFee \<and> t_amount t = a_cost a
      \<and> t_referenceId t = RefAppointment (a_id a) \<and> t_user t = userId)"

definition isCashDeposit :: "txn \<Rightarrow> oid \<Rightarrow> appointment \<Rightarrow> bool" where
  "isCashDeposit t userId a =
     (t_type t = credit \<and> t_transactionType t = Deposit \<and> t_amount t = a_cost a
      \<and> t_user t = userId)"

text \<open>The signed amount of a transaction: credits positive, debits negative.\<close>

definition signedAmount :: "txn \<Rightarrow> number" where
  "signedAmount t = (if t_type t = credit then t_amount t else jsNegate (t_amount t))"

text \<open>
  The ledger sum of a wallet: the signed amounts of its transactions added up from zero
  in the order they were recorded, every partial sum being a double.
\<close>

definition ledgerSum :: "oid \<Rightarrow> txn list \<Rightarrow> number" where
  "ledgerSum walletId ts =
     foldl jsAdd (Finite 0) (map signedAmount (filter (\<lambda>t. t_wallet t = walletId) ts))"

text \<open>
  The same sum taken in the reals, when every amount is finite, and the sum of doubles
  taken from the newest transaction to the oldest.
\<close>

definition exactValue :: "number \<Rightarrow> rat" where
  "exactValue x = (case x of Finite r \<Rightarrow> r | _ \<Rightarrow> 0)"

definition exactLedgerSum :: "oid \<Rightarrow> txn list \<Rightarrow> rat" where
  "exactLedgerSum walletId ts =
     sum_list (map (exactValue \<circ> signedAmount) (filter (\<lambda>t. t_wallet t = walletId) ts))"

definition ledgerSumNewestFirst :: "oid \<Rightarrow> txn list \<Rightarrow> number" where
  "ledgerSumNewestFirst walletId ts = ledgerSum walletId (rev ts)"

definition ledgerConsistent :: "db \<Rightarrow> bool" where
  "ledgerConsistent st =
     list_all (\<lambda>w. w_balance w = ledgerSum (w_id w) (transactions st)) (wallets st)"

text \<open>
  What the store guarantees of the appointment collection: object ids are unique and
  were issued before the next one, and the unique index holds.
\<close>

definition appointmentsIndexed :: "db \<Rightarrow> bool" where
  "appointmentsIndexed st =
     (distinct (map a_id (appointments st))
      \<and> list_all (\<lambda>a. a_id a < nextId st) (appointments st)
      \<and> distinct (map slotKey (appointments st)))"

text \<open>
  The refund of a cancellation, \<open>cost * (refundPolicyPercentage / 100)\<close> of the
  appointment's hospital, and the shape of the transaction that credits a refund.
\<close>

definition cancellationRefund :: "db \<Rightarrow> appointment \<Rightarrow> number" where
  "cancellationRefund st ap =
     (case findOne (\<lambda>h. h_id h = a_hospital ap) (hospitals st) of
        None \<Rightarrow> Finite 0
      | Some hospital \<Rightarrow>
          jsMul (a_cost ap) (jsDiv (h_refundPolicyPercentage hospital) (Finite 100)))"

definition isRefundCredit :: "txn \<Rightarrow> appointment \<Rightarrow> number \<Rightarrow> bool" where
  "isRefundCredit t ap amount =
     (t_type t = credit \<and> t_transactionType t = Refund \<and> t_amount t = amount
      \<and> t_referenceId t = RefAppointment (a_id ap) \<and> t_user t = a_user ap)"

text \<open>
  What a patient's cancellation of a stored appointment needs in order to succeed: the
  required strings, and for an appointment not yet refunded its hospital and, when the
  refund is positive, its appointment type, its doctor and the patient's wallet. The
  status of the appointment is not among them.
\<close>

definition cancellationAccepted :: "db \<Rightarrow> appointment \<Rightarrow> bool" where
  "cancellationAccepted st ap =
     (a_date ap \<noteq> [] \<and> a_time ap \<noteq> []
      \<and> (a_isRefunded ap
         \<or> (findOne (\<lambda>h. h_id h = a_hospital ap) (hospitals st) \<noteq> None
            \<and> (\<not> jsLess (Finite 0) (cancellationRefund st ap)
               \<or> (findOne (\<lambda>t. at_id t = a_appointmentType ap) (appointmentTypes st) \<noteq> None
                  \<and> findOne (\<lambda>u. u_id u = a_doctor ap) (users st) \<noteq> None
                  \<and> findOne (\<lambda>w. w_user w = a_user ap) (wallets st) \<noteq> None)))))"

text \<open>The store in which the stored status of one appointment is replaced.\<close>

definition withStatus :: "oid \<Rightarrow> apptStatus \<Rightarrow> db \<Rightarrow> db" where
  "withStatus apptId s st =
     st \<lparr> appointments :=
            updateWhere (\<lambda>a. a_id a = apptId) (\<lambda>a. a \<lparr> a_status := s \<rparr>) (appointments st) \<rparr>"

text \<open>Both invariants carried from a store to a later one.\<close>

definition preserved :: "db \<Rightarrow> db \<Rightarrow> bool" where
  "preserved st st' =
     ((ledgerConsistent st \<longrightarrow> ledgerConsistent st')
      \<and> (appointmentsIndexed st \<longrightarrow> appointmentsIndexed st'))"

definition upcomingAt :: "oid \<Rightarrow> string \<Rightarrow> string \<Rightarrow> db \<Rightarrow> appointment list" where
  "upcomingAt doctorId date time st =
     filter (\<lambda>a. a_status a = Upcoming \<and> slotKey a = (doctorId, date, time)) (appointments st)"

definition slotTaken :: "bookReq \<Rightarrow> db \<Rightarrow> bool" where
  "slotTaken rq st =
     (\<exists>b \<in> set (appointments st).
        Some (a_doctor b) = b_doctorId rq \<and> a_date b = b_date rq \<and> a_time b = b_time rq)"



text \<open>The store with the appointments at the requested doctor, date and time taken out.\<close>

definition withoutSlot :: "bookReq \<Rightarrow> db \<Rightarrow> db" where
  "withoutSlot rq st =
     st \<lparr> appointments :=
            filter (\<lambda>b. \<not> (Some (a_doctor b) = b_doctorId rq \<and> a_date b = b_date rq
                            \<and> a_time b = b_time rq)) (appointments st) \<rparr>"

section \<open>Example stores and requests\<close>

definition envA :: env where
  "envA = \<lparr> e_today = ''2026-01-10'', e_todayUTC = ''2026-01-10'', e_now = 1000,
     e_currentMinutes = 600, e_parseDate = (\<lambda>_. None), e_parseMoment = (\<lambda>_ _. None),
     e_moment = (\<lambda>_. None), e_dayOfWeek = (\<lambda>_. ''Monday''),
     e_notificationSaved = True, e_pushDelivered = (\<lambda>_ _. True),
     e_emailDelivered = (\<lambda>_ _. True), e_smsDelivered = (\<lambda>_ _. False) \<rparr>"

definition mkUser :: "oid \<Rightarrow> role \<Rightarrow> string \<Rightarrow> oid list \<Rightarrow> user" where
  "mkUser i r n hs =
     \<lparr> u_id = i, u_role = r, u_name_en = n, u_isActive = True, u_isDisabled = False,
       u_hospitals = hs, u_specialties = [], u_availability = [],
       u_unavailabilityEpisodes = [], u_hasEmail = True, u_hasPhone = True,
       u_hasFcmToken = True, u_pref_push = True, u_pref_email = True, u_pref_sms = False,
       u_pref_type_reminder = None, u_reminders_enabled = True, u_reminder24h = True,
       u_reminder1h = True \<rparr>"

definition patientA :: user where "patientA = mkUser 1 Patient ''amal'' []"
definition doctorX :: user where "doctorX = mkUser 2 Doctor ''xavier'' [5]"
definition staffS :: user where "staffS = mkUser 3 HospitalStaff ''sam'' [5]"

definition dbA :: db where
  "dbA = \<lparr> users = [patientA, doctorX, staffS],
     hospitals = [\<lparr> h_id = 5, h_name_en = ''central'', h_refundPolicyPercentage = Finite 80 \<rparr>],
     appointmentTypes = [\<lparr> at_id = 7, at_name_en = ''checkup'', at_duration = 15, at_cost = Finite 50 \<rparr>],
     appointments = [], queueItems = [],
     wallets = [\<lparr> w_id = 9, w_user = 1, w_balance = Finite 100 \<rparr>],
     transactions = [], redeemCodes = [], notifications = [], nextId = 100 \<rparr>"

definition reqA :: bookReq where
  "reqA = \<lparr> b_date = ''2026-01-12'', b_time = ''9:00 AM'', b_doctorId = Some 2,
     b_hospitalId = Some 5, b_appointmentTypeId = Some 7, b_force = False,
     b_patientId = None, b_cashPayment = False, b_appointmentId = None \<rparr>"

definition reqCash :: bookReq where
  "reqCash = reqA \<lparr> b_patientId := Some 1, b_cashPayment := True \<rparr>"

definition apptA :: appointment where
  "apptA = \<lparr> a_id = 100, a_user = 1, a_doctor = 2, a_hospital = 5, a_appointmentType = 7,
     a_date = ''2026-01-12'', a_time = ''9:00 AM'', a_status = Upcoming,
     a_cancellationResolution = Pending, a_cost = Finite 50, a_isRefunded = False,
     a_queueNumber = Some (Ticket ''X'' 1), a_doctorReminder24hSent = False,
     a_doctorReminder1hSent = False, a_doctorReminder24hSentAt = None,
     a_doctorReminder1hSentAt = None \<rparr>"

definition patientB :: user where "patientB = mkUser 4 Patient ''badr'' []"

definition dbTwo :: db where
  "dbTwo = dbA \<lparr> users := [patientA, doctorX, staffS, patientB],
                 wallets := [\<lparr> w_id = 9, w_user = 1, w_balance = Finite 100 \<rparr>,
                             \<lparr> w_id = 10, w_user = 4, w_balance = Finite 70 \<rparr>] \<rparr>"

definition dbFresh :: db where
  "dbFresh = dbA \<lparr> wallets := [\<lparr> w_id = 9, w_user = 1, w_balance = Finite 0 \<rparr>] \<rparr>"

definition historyA :: "(env \<times> request) list" where
  "historyA = [(envA, DepositFunds patientA (Some 100)),
               (envA, Book patientA reqA),
               (envA, Update patientA 101 Cancelled)]"


definition apptCancelled :: appointment where
  "apptCancelled = apptA \<lparr> a_status := Cancelled, a_isRefunded := True \<rparr>"

definition dbBooked :: db where
  "dbBooked = run [(envA, Book patientA reqA)] dbTwo"

definition dbCompleted :: db where
  "dbCompleted = run [(envA, Book patientA reqA), (envA, SetStatus 100 Completed)] dbTwo"

definition refundReq :: resolveReq where
  "refundReq = \<lparr> r_action = ActRefund, r_newDoctorId = None, r_newSlot = None \<rparr>"

definition dbDoctorCancelled :: db where
  "dbDoctorCancelled = run [(envA, Book patientA reqA), (envA, DoctorCancel doctorX 100)] dbTwo"

definition dbResolved :: db where
  "dbResolved = run [(envA, Book patientA reqA), (envA, DoctorCancel doctorX 100),
                     (envA, Resolve patientA 100 refundReq)] dbTwo"

definition apptDC :: appointment where
  "apptDC = apptA \<lparr> a_status := DoctorCancelled \<rparr>"

definition mkAppt :: "oid \<Rightarrow> oid \<Rightarrow> oid \<Rightarrow> string \<Rightarrow> string \<Rightarrow> apptStatus \<Rightarrow> appointment" where
  "mkAppt i u d dt tm stt =
     \<lparr> a_id = i, a_user = u, a_doctor = d, a_hospital = 5, a_appointmentType = 7,
       a_date = dt, a_time = tm, a_status = stt,
       a_cancellationResolution = Pending, a_cost = Finite 50, a_isRefunded = False,
       a_queueNumber = None, a_doctorReminder24hSent = False,
       a_doctorReminder1hSent = False, a_doctorReminder24hSentAt = None,
       a_doctorReminder1hSentAt = None \<rparr>"

definition doctorW :: user where
  "doctorW = doctorX \<lparr> u_availability :=
       [\<lparr> av_dayOfWeek = ''Monday'', av_isAvailable = True, av_startTime = ''09:00'',
          av_endTime = ''15:00'', av_hospital = Some 5 \<rparr>] \<rparr>"

definition dbS :: db where
  "dbS = dbA \<lparr> users := [patientA, doctorW, staffS, patientB],
     appointments := [mkAppt 50 1 2 ''2026-01-12'' ''9:45 AM'' Upcoming,
                      mkAppt 51 4 2 ''2026-01-12'' ''10:00 AM'' Upcoming] \<rparr>"

definition doctorY :: user where "doctorY = mkUser 6 Doctor ''yara'' [5]"

definition dbQueued :: db where
  "dbQueued = run [(envA, Book patientA reqA), (envA, JoinQueue 1 6 5)]
                (dbTwo \<lparr> users := [patientA, doctorX, staffS, patientB, doctorY] \<rparr>)"

definition activeEntries :: "oid \<Rightarrow> db \<Rightarrow> queueItem list" where
  "activeEntries userId st =
     filter (\<lambda>q. q_user q = Some userId \<and> activeStatus (q_status q)) (queueItems st)"

definition envR :: env where
  "envR = envA \<lparr> e_moment :=
       (\<lambda>s. if s = ''2026-01-12 09:00'' then Some (1000 + 24 * 3600000) else None) \<rparr>"

definition envR2 :: env where
  "envR2 = envR \<lparr> e_now := 2000 \<rparr>"

definition mkEntry :: "oid \<Rightarrow> oid option \<Rightarrow> nat \<Rightarrow> queueStatus \<Rightarrow> int \<Rightarrow> queueItem" where
  "mkEntry i u n s t =
     \<lparr> q_id = i, q_user = u, q_walkInName = (case u of None \<Rightarrow> Some ''walk-in'' | Some _ \<Rightarrow> None),
       q_doctor = 2, q_hospital = 5, q_queueNumber = Ticket ''X'' n, q_status = s,
       q_checkInTime = t \<rparr>"

definition dbCall :: db where
  "dbCall = dbTwo \<lparr> appointments := [mkAppt 50 1 2 ''2026-01-10'' ''9:00 AM'' Upcoming],
     queueItems := [mkEntry 60 (Some 1) 1 Serving 10, mkEntry 61 (Some 4) 2 Waiting 30,
                    mkEntry 62 None 3 Waiting 20] \<rparr>"

text \<open>Decimal amounts: a fee of 0.8, deposits of 0.1 and 0.7 into an empty wallet.\<close>

definition dbDecimal :: db where
  "dbDecimal = dbFresh \<lparr> appointmentTypes :=
       [\<lparr> at_id = 7, at_name_en = ''checkup'', at_duration = 15, at_cost = Finite 50 \<rparr>,
        \<lparr> at_id = 8, at_name_en = ''dressing'', at_duration = 15,
          at_cost = roundToDouble (8 / 10) \<rparr>,
        \<lparr> at_id = 9, at_name_en = ''advice'', at_duration = 15,
          at_cost = roundToDouble (1 / 10) \<rparr>] \<rparr>"

definition historyDecimal :: "(env \<times> request) list" where
  "historyDecimal = [(envA, DepositFunds patientA (Some (1 / 10))),
                     (envA, DepositFunds patientA (Some (7 / 10)))]"

definition reqDecimal :: bookReq where
  "reqDecimal = reqA \<lparr> b_appointmentTypeId := Some 8 \<rparr>"

definition reqTenth :: bookReq where
  "reqTenth = reqA \<lparr> b_appointmentTypeId := Some 9 \<rparr>"

definition dbDeposited :: db where
  "dbDeposited = run historyDecimal dbDecimal"

definition historyThree :: "(env \<times> request) list" where
  "historyThree = [(envA, DepositFunds patientA (Some (1 / 10))),
                   (envA, DepositFunds patientA (Some (2 / 10))),
                   (envA, DepositFunds patientA (Some (3 / 10)))]"

definition dbThree :: db where
  "dbThree = run historyThree dbFresh"

text \<open>A fee of 3 at a hospital that refunds 10 percent.\<close>

definition dbTen :: db where
  "dbTen = dbTwo \<lparr> hospitals :=
       [\<lparr> h_id = 5, h_name_en = ''central'', h_refundPolicyPercentage = Finite 10 \<rparr>],
     appointmentTypes :=
       [\<lparr> at_id = 7, at_name_en = ''checkup'', at_duration = 15, at_cost = Finite 3 \<rparr>] \<rparr>"

definition dbTenBooked :: db where
  "dbTenBooked = run [(envA, Book patientA reqA)] dbTen"


definition dbCancelledAgain :: db where
  "dbCancelledAgain = handle envA (DoctorCancel doctorX 100) dbResolved"

section \<open>Verified properties\<close>

subsection \<open>Ledger and booking lemmas\<close>

lemma findOne_updateWhere_wallet:
  "findOne (\<lambda>w. w_user w = u) ws = Some w \<Longrightarrow> (\<And>x. w_user (f x) = w_user x) \<Longrightarrow>
   findOne (\<lambda>w. w_user w = u) (updateWhere (\<lambda>x. w_id x = w_id w) f ws) = Some (f w)"
  unfolding findOne_def updateWhere_def
  by (induction ws) (auto split: if_splits)

lemma performDbOperations_Inr:
  assumes "performDbOperations td st = Inr (st', t)"
  shows "\<exists>w. findOne (\<lambda>w. w_user w = td_userId td) (wallets st) = Some w
           \<and> (td_type td = debit \<longrightarrow> \<not> jsLess (w_balance w) (td_amount td))
           \<and> td_amount td \<noteq> NaN
           \<and> balanceOf (td_userId td) st' =
               Some (jsAdd (w_balance w)
                       (if td_type td = credit then td_amount td else jsNegate (td_amount td)))
           \<and> transactions st' = transactions st @ [t]
           \<and> t_type t = td_type td \<and> t_amount t = td_amount td \<and> t_user t = td_userId td
           \<and> t_transactionType t = td_transactionType td \<and> t_referenceId t = td_referenceId td
           \<and> t_wallet t = w_id w
           \<and> appointments st' = appointments st \<and> queueItems st' = queueItems st
           \<and> users st' = users st \<and> hospitals st' = hospitals st
           \<and> appointmentTypes st' = appointmentTypes st"
  using assms
  unfolding performDbOperations_def balanceOf_def
  by (auto simp: Let_def findOne_updateWhere_wallet split: option.splits if_splits)


lemma ledgerConsistent_cong:
  "wallets st' = wallets st \<Longrightarrow> transactions st' = transactions st \<Longrightarrow>
   ledgerConsistent st' = ledgerConsistent st"
  by (simp add: ledgerConsistent_def)

lemma ledgerSum_append [simp]:
  "ledgerSum i (ts @ [t])
     = (if t_wallet t = i then jsAdd (ledgerSum i ts) (signedAmount t) else ledgerSum i ts)"
  by (simp add: ledgerSum_def)

lemma performDbOperations_Inr_state:
  assumes "performDbOperations td st = Inr (st', t)"
  shows "\<exists>w::wallet. st' = st \<lparr> wallets := updateWhere (\<lambda>x. w_id x = w_id w)
                (\<lambda>x. x \<lparr> w_balance := jsAdd (w_balance x) (signedAmount t) \<rparr>) (wallets st),
              transactions := transactions st @ [t], nextId := Suc (nextId st) \<rparr>
           \<and> t_wallet t = w_id w"
proof (cases "findOne (\<lambda>w. w_user w = td_userId td) (wallets st)")
  case None
  with assms show ?thesis by (simp add: performDbOperations_def)
next
  case (Some w)
  with assms have "st' = st \<lparr> wallets := updateWhere (\<lambda>x. w_id x = w_id w)
                (\<lambda>x. x \<lparr> w_balance := jsAdd (w_balance x) (signedAmount t) \<rparr>) (wallets st),
              transactions := transactions st @ [t], nextId := Suc (nextId st) \<rparr>
           \<and> t_wallet t = w_id w"
    by (auto simp: performDbOperations_def Let_def signedAmount_def split: if_splits)
  then show ?thesis by blast
qed

lemma performDbOperations_nextId:
  assumes "performDbOperations td st = Inr (st', t)"
  shows "nextId st' = Suc (nextId st)"
proof -
  from performDbOperations_Inr_state[OF assms] obtain w :: wallet where
    "st' = st \<lparr> wallets := updateWhere (\<lambda>x. w_id x = w_id w)
                (\<lambda>x. x \<lparr> w_balance := jsAdd (w_balance x) (signedAmount t) \<rparr>) (wallets st),
              transactions := transactions st @ [t], nextId := Suc (nextId st) \<rparr>"
    by blast
  then show ?thesis by simp
qed

lemma performDbOperations_ledger:
  assumes "performDbOperations td st = Inr (st', t)" and "ledgerConsistent st"
  shows "ledgerConsistent st'"
proof -
  from performDbOperations_Inr_state[OF assms(1)] obtain w :: wallet where
    st': "st' = st \<lparr> wallets := updateWhere (\<lambda>x. w_id x = w_id w)
                (\<lambda>x. x \<lparr> w_balance := jsAdd (w_balance x) (signedAmount t) \<rparr>) (wallets st),
              transactions := transactions st @ [t], nextId := Suc (nextId st) \<rparr>"
    and tw: "t_wallet t = w_id w"
    by blast
  show ?thesis
    using assms(2) unfolding st' ledgerConsistent_def updateWhere_def
    by (auto simp: list_all_iff tw)
qed

lemma createNotification_fields [simp]:
  "wallets (createNotification ev u ty st) = wallets st"
  "transactions (createNotification ev u ty st) = transactions st"
  "appointments (createNotification ev u ty st) = appointments st"
  "queueItems (createNotification ev u ty st) = queueItems st"
  "users (createNotification ev u ty st) = users st"
  "nextId (createNotification ev u ty st) = nextId st"
  by (simp_all add: createNotification_def)

lemma createNotification_ledger [simp]:
  "ledgerConsistent (createNotification ev u ty st) = ledgerConsistent st"
  by (simp add: ledgerConsistent_def)

lemma balanceOf_createNotification [simp]:
  "balanceOf uid (createNotification ev u ty st) = balanceOf uid st"
  by (simp add: balanceOf_def)

lemma QueueItem_create_fields [simp]:
  "wallets (QueueItem_create q st) = wallets st"
  "transactions (QueueItem_create q st) = transactions st"
  "appointments (QueueItem_create q st) = appointments st"
  "users (QueueItem_create q st) = users st"
  by (simp_all add: QueueItem_create_def)

lemma Appointment_create_Inr:
  assumes "Appointment_create doc st = Inr (st2, a)"
  shows "a = doc \<lparr> a_id := nextId st \<rparr>
       \<and> appointments st2 = appointments st @ [a]
       \<and> wallets st2 = wallets st \<and> transactions st2 = transactions st
       \<and> queueItems st2 = queueItems st \<and> users st2 = users st
       \<and> nextId st2 = Suc (nextId st)
       \<and> \<not> (\<exists>b \<in> set (appointments st). slotKey b = slotKey doc)"
  using assms unfolding Appointment_create_def
  by (auto simp: Let_def split: if_splits)

lemma bookingQueueEntry_fields [simp]:
  "wallets (bookingQueueEntry ev u d h q dt st) = wallets st"
  "transactions (bookingQueueEntry ev u d h q dt st) = transactions st"
  "appointments (bookingQueueEntry ev u d h q dt st) = appointments st"
  "users (bookingQueueEntry ev u d h q dt st) = users st"
  by (simp_all add: bookingQueueEntry_def split: option.splits)

lemma bookingQueueEntry_nextId: "nextId st \<le> nextId (bookingQueueEntry ev u d h q dt st)"
  by (simp add: bookingQueueEntry_def QueueItem_create_def split: option.splits)

lemma bookingQueueEntry_ledger [simp]:
  "ledgerConsistent (bookingQueueEntry ev u d h q dt st) = ledgerConsistent st"
  by (simp add: ledgerConsistent_def)

lemma bookingCommit_Inr:
  assumes "bookingCommit ev uid doctor hid atype rq st = Inr (st', a)"
  shows "\<exists>w d. findOne (\<lambda>w. w_user w = uid) (wallets st) = Some w
           \<and> a_status a = Upcoming \<and> a_cost a = at_cost atype \<and> a_user a = uid
           \<and> a_doctor a = u_id doctor \<and> a_date a = b_date rq \<and> a_time a = b_time rq
           \<and> appointments st' = appointments st @ [a]
           \<and> transactions st' = transactions st @ [d] \<and> isFeeDebit d uid a
           \<and> balanceOf uid st' = Some (jsAdd (w_balance w) (jsNegate (at_cost atype)))
           \<and> \<not> (\<exists>b \<in> set (appointments st). slotKey b = slotKey a)
           \<and> a_id a = nextId st \<and> nextId st < nextId st'
           \<and> (ledgerConsistent st \<longrightarrow> ledgerConsistent st')"
proof -
  define qn where "qn = Ticket (nameInitial doctor)
     (length (filter (\<lambda>a. a_doctor a = u_id doctor \<and> a_date a = b_date rq) (appointments st)) + 1)"
  define doc where "doc = newAppointment uid doctor hid atype rq qn"
  from assms obtain w where w: "findOne (\<lambda>w. w_user w = uid) (wallets st) = Some w"
    unfolding bookingCommit_def by (auto simp: Let_def split: option.splits if_splits)
  from assms w obtain st2 where cr: "Appointment_create doc st = Inr (st2, a)"
    unfolding bookingCommit_def doc_def qn_def
    by (auto simp: Let_def split: option.splits if_splits sum.splits)
  define st3 where "st3 = bookingQueueEntry ev uid (u_id doctor) hid qn (b_date rq) st2"
  from assms w cr obtain st4 d where
    pay: "performDbOperations \<lparr> td_userId = uid, td_amount = at_cost atype, td_type = debit,
                           td_transactionType = AppointmentFee,
                           td_referenceId = RefAppointment (a_id a),
                           td_hospitalId = Some hid \<rparr> st3 = Inr (st4, d)"
    and fin: "st' = createNotification ev uid ''appointment'' st4"
    unfolding bookingCommit_def doc_def qn_def st3_def createTransactionAndUpdateWallet_session_def
    by (auto simp: Let_def split: option.splits if_splits sum.splits)
  from Appointment_create_Inr[OF cr] have
    a: "a = doc \<lparr> a_id := nextId st \<rparr>" and ap2: "appointments st2 = appointments st @ [a]"
    and w2: "wallets st2 = wallets st" and t2: "transactions st2 = transactions st"
    and n2: "nextId st2 = Suc (nextId st)"
    and nodup: "\<not> (\<exists>b \<in> set (appointments st). slotKey b = slotKey doc)" by auto
  have l3: "ledgerConsistent st \<longrightarrow> ledgerConsistent st3"
    using w2 t2 by (simp add: st3_def ledgerConsistent_def)
  have led: "ledgerConsistent st \<longrightarrow> ledgerConsistent st'"
    using l3 performDbOperations_ledger[OF pay] fin by simp
  have "nextId st2 \<le> nextId st3" unfolding st3_def by (rule bookingQueueEntry_nextId)
  with n2 performDbOperations_nextId[OF pay] fin have nx: "nextId st < nextId st'" by simp
  have aid: "a_id a = nextId st" by (simp add: a)
  have w3: "findOne (\<lambda>w. w_user w = uid) (wallets st3) = Some w"
    using w w2 by (simp add: st3_def)
  from performDbOperations_Inr[OF pay] w3 t2 ap2 have
    p: "balanceOf uid st4 = Some (jsAdd (w_balance w) (jsNegate (at_cost atype)))"
       "transactions st4 = transactions st @ [d]"
       "t_type d = debit" "t_amount d = at_cost atype" "t_user d = uid"
       "t_transactionType d = AppointmentFee" "t_referenceId d = RefAppointment (a_id a)"
       "appointments st4 = appointments st @ [a]"
    by (auto simp: st3_def)
  have key: "slotKey a = slotKey doc" by (simp add: a slotKey_def)
  show ?thesis
    using w a p nodup fin key aid nx led
    by (auto simp: doc_def newAppointment_def isFeeDebit_def)
qed

lemma bookingBody_Inr:
  assumes "bookingBody ev caller uid rq st = Inr (st', a)"
  shows "\<exists>w d. findOne (\<lambda>w. w_user w = uid) (wallets st) = Some w
           \<and> a_status a = Upcoming \<and> a_user a = uid
           \<and> Some (a_doctor a) = b_doctorId rq \<and> a_date a = b_date rq \<and> a_time a = b_time rq
           \<and> appointments st' = appointments st @ [a]
           \<and> isFeeDebit d uid a
           \<and> \<not> (\<exists>b \<in> set (appointments st). slotKey b = slotKey a)
           \<and> (if b_cashPayment rq \<and> isStaff caller
               then (\<exists>c. transactions st' = transactions st @ [c, d] \<and> isCashDeposit c uid a
                         \<and> t_referenceId c = RefCash (e_now ev)
                         \<and> balanceOf uid st'
                             = Some (jsAdd (jsAdd (w_balance w) (a_cost a)) (jsNegate (a_cost a))))
               else transactions st' = transactions st @ [d]
                    \<and> balanceOf uid st' = Some (jsAdd (w_balance w) (jsNegate (a_cost a))))"
proof -
  from assms obtain did hid tid atype doctor where
    ids: "b_doctorId rq = Some did" "b_hospitalId rq = Some hid" "b_appointmentTypeId rq = Some tid"
    and at: "findOne (\<lambda>t. at_id t = tid) (appointmentTypes st) = Some atype"
    and doc: "findOne (\<lambda>u. u_id u = did) (users st) = Some doctor"
    unfolding bookingBody_def by (auto split: option.splits if_splits)
  have did: "u_id doctor = did"
    using doc unfolding findOne_def by (auto simp: find_Some_iff)
  show ?thesis
  proof (cases "b_cashPayment rq \<and> isStaff caller")
    case False
    with assms ids at doc have "bookingCommit ev uid doctor hid atype rq st = Inr (st', a)"
      unfolding bookingBody_def by (auto split: option.splits if_splits)
    from bookingCommit_Inr[OF this] False did ids show ?thesis by auto
  next
    case True
    with assms ids at doc obtain st1 c where
      dep: "performDbOperations \<lparr> td_userId = uid, td_amount = at_cost atype,
                     td_type = credit, td_transactionType = Deposit,
                     td_referenceId = RefCash (e_now ev),
                     td_hospitalId = Some hid \<rparr> st = Inr (st1, c)"
      and com: "bookingCommit ev uid doctor hid atype rq st1 = Inr (st', a)"
      unfolding bookingBody_def createTransactionAndUpdateWallet_session_def
      by (auto split: option.splits if_splits sum.splits)
    from performDbOperations_Inr[OF dep] obtain w where
      w: "findOne (\<lambda>w. w_user w = uid) (wallets st) = Some w"
      and b1: "balanceOf uid st1 = Some (jsAdd (w_balance w) (at_cost atype))"
      and t1: "transactions st1 = transactions st @ [c]"
      and c: "t_type c = credit" "t_amount c = at_cost atype" "t_user c = uid"
             "t_transactionType c = Deposit" "t_referenceId c = RefCash (e_now ev)"
      and a1: "appointments st1 = appointments st"
      by auto
    from bookingCommit_Inr[OF com] obtain w1 d where
      w1: "findOne (\<lambda>w. w_user w = uid) (wallets st1) = Some w1"
      and r: "a_status a = Upcoming" "a_cost a = at_cost atype" "a_user a = uid"
             "a_doctor a = u_id doctor" "a_date a = b_date rq" "a_time a = b_time rq"
             "appointments st' = appointments st1 @ [a]"
             "transactions st' = transactions st1 @ [d]" "isFeeDebit d uid a"
             "balanceOf uid st' = Some (jsAdd (w_balance w1) (jsNegate (at_cost atype)))"
             "\<not> (\<exists>b \<in> set (appointments st1). slotKey b = slotKey a)"
      by auto
    from w1 b1 have "w_balance w1 = jsAdd (w_balance w) (at_cost atype)"
      by (simp add: balanceOf_def)
    with True w r t1 c a1 did ids show ?thesis
      by (auto simp: isCashDeposit_def)
  qed
qed

lemma bookingBody_more:
  assumes "bookingBody ev caller uid rq st = Inr (st', a)"
  shows "nextId st \<le> a_id a \<and> a_id a < nextId st'
       \<and> (ledgerConsistent st \<longrightarrow> ledgerConsistent st')"
proof -
  from assms obtain did hid tid atype doctor where
    ids: "b_doctorId rq = Some did" "b_hospitalId rq = Some hid" "b_appointmentTypeId rq = Some tid"
    and at: "findOne (\<lambda>t. at_id t = tid) (appointmentTypes st) = Some atype"
    and doc: "findOne (\<lambda>u. u_id u = did) (users st) = Some doctor"
    unfolding bookingBody_def by (auto split: option.splits if_splits)
  show ?thesis
  proof (cases "b_cashPayment rq \<and> isStaff caller")
    case False
    with assms ids at doc have "bookingCommit ev uid doctor hid atype rq st = Inr (st', a)"
      unfolding bookingBody_def by (auto split: option.splits if_splits)
    from bookingCommit_Inr[OF this] show ?thesis by auto
  next
    case True
    with assms ids at doc obtain st1 c where
      dep: "performDbOperations \<lparr> td_userId = uid, td_amount = at_cost atype,
                     td_type = credit, td_transactionType = Deposit,
                     td_referenceId = RefCash (e_now ev),
                     td_hospitalId = Some hid \<rparr> st = Inr (st1, c)"
      and com: "bookingCommit ev uid doctor hid atype rq st1 = Inr (st', a)"
      unfolding bookingBody_def createTransactionAndUpdateWallet_session_def
      by (auto split: option.splits if_splits sum.splits)
    from bookingCommit_Inr[OF com] have
      r: "a_id a = nextId st1" "nextId st1 < nextId st'"
         "ledgerConsistent st1 \<longrightarrow> ledgerConsistent st'"
      by auto
    from performDbOperations_nextId[OF dep] performDbOperations_ledger[OF dep] r
    show ?thesis by auto
  qed
qed

lemma appointmentsIndexed_append:
  assumes "appointmentsIndexed st" and "appointments st' = appointments st @ [a]"
    and "nextId st \<le> a_id a" and "a_id a < nextId st'"
    and "\<not> (\<exists>b \<in> set (appointments st). slotKey b = slotKey a)"
  shows "appointmentsIndexed st'"
  using assms unfolding appointmentsIndexed_def
  by (auto simp: list_all_iff)

lemma bookAppointment_cases:
  assumes "bookAppointment ev caller rq st = (st', code, res)"
  shows "(st' = st \<and> isl res)
       \<or> (\<exists>uid a. targetUser caller rq = Some uid \<and> res = Inr a \<and> code = 201
                \<and> bookingBody ev caller uid rq st = Inr (st', a))"
  using assms unfolding bookAppointment_def withTransaction_def
  by (auto split: option.splits if_splits sum.splits prod.splits)

lemma bookAppointment_ledger:
  assumes "ledgerConsistent st"
  shows "ledgerConsistent (fst (bookAppointment ev caller rq st))"
proof -
  obtain st' code res where r: "bookAppointment ev caller rq st = (st', code, res)"
    by (cases "bookAppointment ev caller rq st") auto
  from bookAppointment_cases[OF r] assms show ?thesis
    unfolding r using bookingBody_more by fastforce
qed

lemma bookAppointment_indexed:
  assumes "appointmentsIndexed st"
  shows "appointmentsIndexed (fst (bookAppointment ev caller rq st))"
proof -
  obtain st' code res where r: "bookAppointment ev caller rq st = (st', code, res)"
    by (cases "bookAppointment ev caller rq st") auto
  from bookAppointment_cases[OF r] show ?thesis
  proof
    assume "st' = st \<and> isl res" with assms r show ?thesis by simp
  next
    assume "\<exists>uid a. targetUser caller rq = Some uid \<and> res = Inr a \<and> code = 201
                \<and> bookingBody ev caller uid rq st = Inr (st', a)"
    then obtain uid a where b: "bookingBody ev caller uid rq st = Inr (st', a)" by blast
    from bookingBody_Inr[OF b] bookingBody_more[OF b] assms
    have "appointmentsIndexed st'"
      by (auto intro!: appointmentsIndexed_append[where st=st and a=a])
    with r show ?thesis by simp
  qed
qed

lemma preserved_refl [simp]: "preserved st st"
  by (simp add: preserved_def)

lemma preserved_trans: "preserved a b \<Longrightarrow> preserved b c \<Longrightarrow> preserved a c"
  by (simp add: preserved_def)

lemma preserved_frame:
  assumes "wallets st' = wallets st" "transactions st' = transactions st"
    "map a_id (appointments st') = map a_id (appointments st)"
    "map slotKey (appointments st') = map slotKey (appointments st)"
    "nextId st \<le> nextId st'"
  shows "preserved st st'"
proof -
  have "list_all (\<lambda>a. a_id a < nextId st) (appointments st)
        \<Longrightarrow> list_all (\<lambda>a. a_id a < nextId st') (appointments st')"
  proof -
    assume "list_all (\<lambda>a. a_id a < nextId st) (appointments st)"
    then have "\<forall>i \<in> set (map a_id (appointments st)). i < nextId st"
      by (simp add: list_all_iff)
    with assms(3,5) have "\<forall>i \<in> set (map a_id (appointments st')). i < nextId st'"
      by fastforce
    then show ?thesis by (simp add: list_all_iff)
  qed
  with assms show ?thesis
    by (simp add: preserved_def ledgerConsistent_def appointmentsIndexed_def)
qed

lemma map_updateWhere_inv:
  "(\<And>x. g (f x) = g x) \<Longrightarrow> map g (updateWhere p f xs) = map g xs"
  by (simp add: updateWhere_def)

lemma updateFirst_simps [simp]:
  "updateFirst p f [] = []"
  "updateFirst p f (x # xs) = (if p x then f x # xs else x # updateFirst p f xs)"
  by (simp_all add: updateFirst_def)

lemma map_updateFirst_inv:
  "(\<And>x. g (f x) = g x) \<Longrightarrow> map g (updateFirst p f xs) = map g xs"
  by (induction xs) simp_all

lemma performDbOperations_preserved:
  assumes "performDbOperations td st = Inr (st', t)"
  shows "preserved st st'"
proof -
  from performDbOperations_Inr_state[OF assms] obtain w :: wallet where
    st': "st' = st \<lparr> wallets := updateWhere (\<lambda>x. w_id x = w_id w)
                (\<lambda>x. x \<lparr> w_balance := jsAdd (w_balance x) (signedAmount t) \<rparr>) (wallets st),
              transactions := transactions st @ [t], nextId := Suc (nextId st) \<rparr>"
    by blast
  have "appointmentsIndexed st \<longrightarrow> appointmentsIndexed st'"
    unfolding st' appointmentsIndexed_def by (auto simp: list_all_iff)
  with performDbOperations_ledger[OF assms] show ?thesis by (simp add: preserved_def)
qed

lemma Appointment_save_indexed:
  assumes "Appointment_save doc st = Inr st'" and "appointmentsIndexed st"
  shows "appointmentsIndexed st'"
proof -
  let ?xs = "appointments st"
  let ?f = "\<lambda>x. if a_id x = a_id doc then doc else x"
  from assms(1) have st': "st' = st \<lparr> appointments := map ?f ?xs \<rparr>"
    and ok: "\<not> ((\<exists>old \<in> set ?xs. a_id old = a_id doc \<and> slotKey old \<noteq> slotKey doc)
              \<and> (\<exists>b \<in> set ?xs. a_id b \<noteq> a_id doc \<and> slotKey b = slotKey doc))"
    unfolding Appointment_save_def updateWhere_def by (auto split: if_splits)
  from assms(2) have dk: "distinct (map slotKey ?xs)" and di: "distinct (map a_id ?xs)"
    and lt: "list_all (\<lambda>a. a_id a < nextId st) ?xs"
    by (simp_all add: appointmentsIndexed_def)
  have ids: "map a_id (map ?f ?xs) = map a_id ?xs" by (induction ?xs) auto
  from dk have dx: "distinct ?xs" and ik: "inj_on slotKey (set ?xs)"
    by (simp_all add: distinct_map)
  from di have ii: "inj_on a_id (set ?xs)" by (simp add: distinct_map)
  have "inj_on (\<lambda>x. slotKey (?f x)) (set ?xs)"
  proof (rule inj_onI)
    fix x y assume x: "x \<in> set ?xs" and y: "y \<in> set ?xs"
      and e: "slotKey (?f x) = slotKey (?f y)"
    show "x = y"
    proof (cases "a_id x = a_id doc")
      case True
      note xt = True
      show ?thesis
      proof (cases "a_id y = a_id doc")
        case True
        with xt have "a_id x = a_id y" by simp
        from inj_onD[OF ii this x y] show ?thesis .
      next
        case False
        with xt e have "slotKey doc = slotKey y" by simp
        with ok x y xt False have "slotKey x = slotKey doc" by metis
        with \<open>slotKey doc = slotKey y\<close> have "slotKey x = slotKey y" by simp
        from inj_onD[OF ik this x y] have "x = y" .
        with xt False show ?thesis by simp
      qed
    next
      case False
      note xf = False
      show ?thesis
      proof (cases "a_id y = a_id doc")
        case True
        with xf e have "slotKey x = slotKey doc" by simp
        with ok x y xf True have "slotKey y = slotKey doc" by metis
        with \<open>slotKey x = slotKey doc\<close> have "slotKey x = slotKey y" by simp
        from inj_onD[OF ik this x y] have "x = y" .
        with xf True show ?thesis by simp
      next
        case False
        with xf e have "slotKey x = slotKey y" by simp
        from inj_onD[OF ik this x y] show ?thesis .
      qed
    qed
  qed
  with dx have "distinct (map (\<lambda>x. slotKey (?f x)) ?xs)" by (simp add: distinct_map)
  then have keys: "distinct (map slotKey (map ?f ?xs))" by (simp add: comp_def)
  have "list_all (\<lambda>a. a_id a < nextId st) (map ?f ?xs)"
    unfolding list_all_iff
  proof
    fix a assume "a \<in> set (map ?f ?xs)"
    then obtain x where x: "x \<in> set ?xs" and a: "a = ?f x" by auto
    from lt x have "a_id x < nextId st" by (simp add: list_all_iff)
    with a show "a_id a < nextId st" by (cases "a_id x = a_id doc") simp_all
  qed
  moreover have "distinct (map a_id (map ?f ?xs))" unfolding ids by (rule di)
  ultimately show ?thesis
    using keys unfolding st' appointmentsIndexed_def by simp
qed

lemma Appointment_save_preserved:
  assumes "Appointment_save doc st = Inr st'"
  shows "preserved st st'"
proof -
  from assms have "wallets st' = wallets st" "transactions st' = transactions st"
    unfolding Appointment_save_def by (auto split: if_splits)
  then have "ledgerConsistent st \<longrightarrow> ledgerConsistent st'" by (simp add: ledgerConsistent_def)
  with Appointment_save_indexed[OF assms] show ?thesis by (simp add: preserved_def)
qed

lemma createNotification_preserved [simp]:
  "preserved st (createNotification ev u ty st)"
  by (rule preserved_frame) simp_all

lemma QueueItem_create_preserved [simp]:
  "preserved st (QueueItem_create q st)"
  by (rule preserved_frame) (simp_all add: QueueItem_create_def)

lemma queueItems_update_preserved [simp]:
  "preserved st (st \<lparr> queueItems := qs \<rparr>)"
  by (rule preserved_frame) simp_all

lemma redeemCodes_update_preserved [simp]:
  "preserved st (st \<lparr> redeemCodes := cs \<rparr>)"
  by (rule preserved_frame) simp_all

lemma preserved_save:
  "Appointment_save doc s1 = Inr s2 \<Longrightarrow> preserved s0 s1 \<Longrightarrow> preserved s0 s2"
  by (blast intro: preserved_trans Appointment_save_preserved)

lemma preserved_perform:
  "performDbOperations td s1 = Inr (s2, t) \<Longrightarrow> preserved s0 s1 \<Longrightarrow> preserved s0 s2"
  by (blast intro: preserved_trans performDbOperations_preserved)

lemma preserved_createNotification:
  "preserved s0 s1 \<Longrightarrow> preserved s0 (createNotification ev u ty s1)"
  by (blast intro: preserved_trans createNotification_preserved)

lemma preserved_QueueItem_create:
  "preserved s0 s1 \<Longrightarrow> preserved s0 (QueueItem_create q s1)"
  by (blast intro: preserved_trans QueueItem_create_preserved)

lemma preserved_queueItems_update:
  "preserved s0 s1 \<Longrightarrow> preserved s0 (s1 \<lparr> queueItems := qs \<rparr>)"
  by (blast intro: preserved_trans queueItems_update_preserved)

lemma preserved_redeemCodes_update:
  "preserved s0 s1 \<Longrightarrow> preserved s0 (s1 \<lparr> redeemCodes := cs \<rparr>)"
  by (blast intro: preserved_trans redeemCodes_update_preserved)

lemma preserved_appointments_update:
  assumes "preserved s0 s1"
    and "map a_id xs = map a_id (appointments s1)"
    and "map slotKey xs = map slotKey (appointments s1)"
  shows "preserved s0 (s1 \<lparr> appointments := xs \<rparr>)"
proof -
  have "preserved s1 (s1 \<lparr> appointments := xs \<rparr>)"
    by (rule preserved_frame) (simp_all add: assms)
  with assms(1) show ?thesis by (rule preserved_trans)
qed

lemmas preserved_intros =
  preserved_refl preserved_save preserved_perform preserved_createNotification
  preserved_QueueItem_create preserved_queueItems_update preserved_redeemCodes_update

lemma withTransaction_preserved:
  assumes "\<And>st' r. body st = Inr (st', r) \<Longrightarrow> preserved st st'"
  shows "preserved st (fst (withTransaction body st))"
  using assms unfolding withTransaction_def by (auto split: sum.splits)

lemma rescheduleBody_preserved:
  assumes "rescheduleBody ev apptId date time st = Inr (st', u)"
  shows "preserved st st'"
  using assms unfolding rescheduleBody_def
  by (auto simp: Let_def split: option.splits if_splits sum.splits intro: preserved_intros)

lemma reschedule_preserved: "preserved st (fst (reschedule ev apptId date time st))"
proof -
  have "preserved st (fst (withTransaction (rescheduleBody ev apptId date time) st))"
    by (rule withTransaction_preserved) (rule rescheduleBody_preserved)
  then show ?thesis
    unfolding reschedule_def by (auto split: prod.splits sum.splits)
qed

lemma updateStatus_preserved: "preserved st (fst (updateStatus apptId status st))"
  unfolding updateStatus_def
  by (auto split: option.splits sum.splits intro: preserved_intros)

lemma doctorCancel_preserved: "preserved st (fst (doctorCancel ev caller apptId st))"
  unfolding doctorCancel_def
  by (auto simp: Let_def split: option.splits sum.splits intro: preserved_intros)

lemma resolveBody_preserved:
  assumes "resolveBody ev caller apptId rq st = Inr (st', u)"
  shows "preserved st st'"
  using assms unfolding resolveBody_def createTransactionAndUpdateWallet_session_def
  by (auto simp: Let_def split: option.splits if_splits sum.splits action.splits prod.splits;
      blast intro: preserved_intros)

lemma resolveCancellation_preserved:
  "preserved st (fst (resolveCancellation ev caller apptId rq st))"
proof -
  have "preserved st (fst (withTransaction (resolveBody ev caller apptId rq) st))"
    by (rule withTransaction_preserved) (rule resolveBody_preserved)
  then show ?thesis
    unfolding resolveCancellation_def by (auto split: prod.splits sum.splits)
qed

lemma updateBody_preserved:
  assumes "updateBody ev caller apptId status st = Inr (st', u)"
  shows "preserved st st'"
  using assms unfolding updateBody_def createTransactionAndUpdateWallet_session_def
  by (auto simp: Let_def split: option.splits if_splits sum.splits prod.splits;
      blast intro: preserved_intros)

lemma updateAppointment_preserved:
  "preserved st (fst (updateAppointment ev caller apptId status st))"
proof -
  have "preserved st (fst (withTransaction (updateBody ev caller apptId status) st))"
    by (rule withTransaction_preserved) (rule updateBody_preserved)
  then show ?thesis
    unfolding updateAppointment_def by (auto split: prod.splits sum.splits)
qed

lemma createTransactionAndUpdateWallet_preserved:
  "preserved st (fst (createTransactionAndUpdateWallet td st))"
  unfolding createTransactionAndUpdateWallet_def
  by (rule withTransaction_preserved) (rule performDbOperations_preserved)

lemma createTransactionAndUpdateWallet_preserved':
  "createTransactionAndUpdateWallet td st = (st1, r) \<Longrightarrow> preserved st st1"
  using createTransactionAndUpdateWallet_preserved[of st td] by simp

lemma deposit_preserved: "preserved st (fst (deposit ev caller amount st))"
  unfolding deposit_def
  by (auto simp: Let_def split: option.splits sum.splits prod.splits
           intro: preserved_intros dest: createTransactionAndUpdateWallet_preserved')

lemma redeem_preserved: "preserved st (fst (redeem ev caller code st))"
  unfolding redeem_def
  by (auto simp: Let_def split: option.splits sum.splits prod.splits
           intro: preserved_intros dest: createTransactionAndUpdateWallet_preserved')

lemma addFunds_preserved: "preserved st (fst (addFunds ev caller userId amount st))"
  unfolding addFunds_def
  by (auto simp: Let_def split: option.splits sum.splits prod.splits
           intro: preserved_intros dest: createTransactionAndUpdateWallet_preserved')

lemma ticketFor_preserved:
  assumes "ticketFor doctor hid appt st = Inr (qn, st1)"
  shows "preserved st st1"
  using assms unfolding ticketFor_def
  by (auto simp: Let_def split: option.splits sum.splits intro: preserved_intros)

lemma joinQueue_preserved: "preserved st (fst (joinQueue ev userId doctorId hospitalId st))"
  unfolding joinQueue_def
  by (auto simp: Let_def split: option.splits sum.splits prod.splits
           dest!: ticketFor_preserved intro: preserved_intros)

lemma checkInAppointment_preserved: "preserved st (fst (checkInAppointment ev appointmentId st))"
  unfolding checkInAppointment_def
  by (auto simp: Let_def split: option.splits sum.splits prod.splits
           dest!: ticketFor_preserved intro: preserved_intros)

lemma leaveQueue_preserved: "preserved st (leaveQueue userId st)"
  unfolding leaveQueue_def by (rule preserved_queueItems_update) simp

lemma removePatientFromQueue_preserved: "preserved st (removePatientFromQueue i st)"
  unfolding removePatientFromQueue_def by (rule preserved_queueItems_update) simp

lemma holdPatient_preserved: "preserved st (fst (holdPatient i st))"
  unfolding holdPatient_def by (auto split: option.splits intro: preserved_intros)

lemma requeuePatient_preserved: "preserved st (fst (requeuePatient i st))"
  unfolding requeuePatient_def by (auto split: option.splits intro: preserved_intros)

lemma finishCurrent_preserved: "preserved st (finishCurrent ev doctorId st)"
  unfolding finishCurrent_def
  by (auto simp: Let_def slotKey_def map_updateFirst_inv split: option.splits
           intro!: preserved_appointments_update preserved_queueItems_update)

lemma promoteNext_preserved: "preserved st (fst (promoteNext doctorId st))"
  unfolding promoteNext_def by (auto split: option.splits intro: preserved_intros)

lemma notifyUpNext_preserved: "preserved st (notifyUpNext ev doctorId st)"
  unfolding notifyUpNext_def by (auto split: option.splits intro: preserved_intros)

lemma callNextPatient_preserved: "preserved st (fst (callNextPatient ev doctorId st))"
proof -
  have 1: "preserved st (finishCurrent ev doctorId st)" by (rule finishCurrent_preserved)
  have 2: "preserved (finishCurrent ev doctorId st)
             (fst (promoteNext doctorId (finishCurrent ev doctorId st)))"
    by (rule promoteNext_preserved)
  have 3: "preserved (fst (promoteNext doctorId (finishCurrent ev doctorId st)))
             (notifyUpNext ev doctorId (fst (promoteNext doctorId (finishCurrent ev doctorId st))))"
    by (rule notifyUpNext_preserved)
  from preserved_trans[OF preserved_trans[OF 1 2] 3] show ?thesis
    unfolding callNextPatient_def by (auto simp: Let_def split: prod.splits)
qed

lemma markReminderSent_preserved: "preserved st (markReminderSent ev rt i st)"
  unfolding markReminderSent_def
  by (rule preserved_appointments_update)
     (auto simp: slotKey_def updateWhere_def setReminderFlag_def split: reminderType.splits)

lemma sendDoctorReminder_preserved:
  "preserved st (fst (sendDoctorReminder ev a rt st))"
  unfolding sendDoctorReminder_def
  by (auto split: option.splits intro: markReminderSent_preserved)

lemma reminderLoop_preserved:
  "preserved st0 st \<Longrightarrow> preserved st0 (fst (reminderLoop ev rt as (st, res)))"
proof (induction as arbitrary: st res)
  case Nil
  then show ?case by simp
next
  case (Cons a as)
  have s: "preserved st0 (fst (sendDoctorReminder ev a rt st))"
    using Cons.prems sendDoctorReminder_preserved by (rule preserved_trans)
  show ?case
    using Cons.IH[OF Cons.prems] Cons.IH[OF s]
    by (auto split: option.splits prod.splits bool.splits)
qed

lemma processReminders_preserved: "preserved st (fst (processReminders ev rt st))"
  unfolding processReminders_def by (simp add: Let_def reminderLoop_preserved)

lemma bookAppointment_preserved: "preserved st (fst (bookAppointment ev caller rq st))"
  unfolding preserved_def using bookAppointment_ledger bookAppointment_indexed by blast

lemma handle_preserved: "preserved st (handle ev req st)"
  by (cases req)
     (simp_all add: bookAppointment_preserved reschedule_preserved updateStatus_preserved
        doctorCancel_preserved resolveCancellation_preserved updateAppointment_preserved
        deposit_preserved redeem_preserved addFunds_preserved joinQueue_preserved
        leaveQueue_preserved callNextPatient_preserved holdPatient_preserved
        requeuePatient_preserved removePatientFromQueue_preserved
        checkInAppointment_preserved processReminders_preserved)

lemma distinct_key_filter_le1:
  "distinct (map f xs) \<Longrightarrow> length (filter (\<lambda>x. P x \<and> f x = k) xs) \<le> 1"
proof (induction xs)
  case Nil
  then show ?case by simp
next
  case (Cons x xs)
  show ?case
  proof (cases "f x = k")
    case True
    from Cons.prems have "f x \<notin> f ` set xs" by simp
    then have "\<forall>y \<in> set xs. f y \<noteq> f x" by (metis imageI)
    with True have "\<forall>y \<in> set xs. f y \<noteq> k" by simp
    then have "filter (\<lambda>x. P x \<and> f x = k) xs = []" by (simp add: filter_empty_conv)
    then show ?thesis by simp
  next
    case False
    with Cons show ?thesis by simp
  qed
qed

lemma upcomingAt_le1:
  "appointmentsIndexed st \<Longrightarrow> length (upcomingAt d dt tm st) \<le> 1"
  using distinct_key_filter_le1[of slotKey "appointments st" "\<lambda>a. a_status a = Upcoming" "(d, dt, tm)"]
  unfolding appointmentsIndexed_def upcomingAt_def by simp

lemma performDbOperations_same_wallets:
  assumes "performDbOperations td s0 = Inr (s0', t0)" and "wallets s = wallets s0"
  shows "\<exists>s' t. performDbOperations td s = Inr (s', t) \<and> wallets s' = wallets s0'
              \<and> appointments s' = appointments s"
  using assms unfolding performDbOperations_def
  by (auto simp: Let_def split: option.splits if_splits)

lemma bookingCommit_taken:
  assumes "bookingCommit ev uid doctor hid atype rq s0 = Inr (s', a)"
    and "wallets s = wallets s0"
    and "\<exists>b \<in> set (appointments s). slotKey b = (u_id doctor, b_date rq, b_time rq)"
  shows "bookingCommit ev uid doctor hid atype rq s = Inl DuplicateKey"
proof -
  from assms(1) obtain w where w: "findOne (\<lambda>w. w_user w = uid) (wallets s0) = Some w"
    and enough: "\<not> jsLess (w_balance w) (at_cost atype)"
    and dt: "b_date rq \<noteq> []" "b_time rq \<noteq> []" "at_cost atype \<noteq> NaN"
    unfolding bookingCommit_def Appointment_create_def newAppointment_def
    by (auto simp: Let_def split: option.splits if_splits sum.splits)
  have "Appointment_create (newAppointment uid doctor hid atype rq qn) s = Inl DuplicateKey" for qn
    using dt assms(3) unfolding Appointment_create_def newAppointment_def slotKey_def
    by auto
  with w enough assms(2) show ?thesis
    unfolding bookingCommit_def by (simp add: Let_def)
qed

lemma bookingBody_taken:
  assumes "bookingBody ev caller uid rq s0 = Inr (s', a)"
    and "users s = users s0" "hospitals s = hospitals s0"
        "appointmentTypes s = appointmentTypes s0" "wallets s = wallets s0"
    and "slotTaken rq s"
  shows "bookingBody ev caller uid rq s = Inl DuplicateKey"
proof -
  from assms(1) obtain did hid tid atype doctor hosp patient where
    ids: "b_doctorId rq = Some did" "b_hospitalId rq = Some hid" "b_appointmentTypeId rq = Some tid"
    and at: "findOne (\<lambda>t. at_id t = tid) (appointmentTypes s0) = Some atype"
    and doc: "findOne (\<lambda>u. u_id u = did) (users s0) = Some doctor"
    and hos: "findOne (\<lambda>h. h_id h = hid) (hospitals s0) = Some hosp"
    and pat: "findOne (\<lambda>u. u_id u = uid) (users s0) = Some patient"
    and fl: "\<not> u_isDisabled doctor" "\<not> u_isDisabled patient"
            "\<not> isUnavailable ev doctor (b_date rq)" "hid \<in> set (u_hospitals doctor)"
    unfolding bookingBody_def by (auto split: option.splits if_splits)
  have did: "u_id doctor = did"
    using doc unfolding findOne_def by (auto simp: find_Some_iff)
  from assms(6) ids did have
    tk: "\<exists>b \<in> set (appointments s). slotKey b = (u_id doctor, b_date rq, b_time rq)"
    unfolding slotTaken_def slotKey_def by auto
  show ?thesis
  proof (cases "b_cashPayment rq \<and> isStaff caller")
    case False
    with assms(1) ids at doc hos pat fl
    have "bookingCommit ev uid doctor hid atype rq s0 = Inr (s', a)"
      unfolding bookingBody_def by (auto split: option.splits if_splits)
    from bookingCommit_taken[OF this assms(5) tk] False ids at doc hos pat fl assms(2-5)
    show ?thesis unfolding bookingBody_def by auto
  next
    case True
    let ?td = "\<lparr> td_userId = uid, td_amount = at_cost atype,
                     td_type = credit, td_transactionType = Deposit,
                     td_referenceId = RefCash (e_now ev),
                     td_hospitalId = Some hid \<rparr>"
    from True assms(1) ids at doc hos pat fl obtain s1 c where
      dep: "performDbOperations ?td s0 = Inr (s1, c)"
      and com: "bookingCommit ev uid doctor hid atype rq s1 = Inr (s', a)"
      unfolding bookingBody_def createTransactionAndUpdateWallet_session_def
      by (auto split: option.splits if_splits sum.splits)
    from performDbOperations_same_wallets[OF dep assms(5)] obtain s1' c' where
      dep': "performDbOperations ?td s = Inr (s1', c')" and w1: "wallets s1' = wallets s1"
      and a1: "appointments s1' = appointments s" by blast
    from tk a1 have "\<exists>b \<in> set (appointments s1'). slotKey b = (u_id doctor, b_date rq, b_time rq)"
      by simp
    from bookingCommit_taken[OF com w1 this] dep' True ids at doc hos pat fl assms(2-5)
    show ?thesis
      unfolding bookingBody_def createTransactionAndUpdateWallet_session_def by simp
  qed
qed

lemma bookAppointment_taken_never_creates:
  assumes "slotTaken rq st" and "bookAppointment ev caller rq st = (st', code, res)"
  shows "st' = st \<and> isl res"
proof -
  from bookAppointment_cases[OF assms(2)] show ?thesis
  proof
    assume "st' = st \<and> isl res" then show ?thesis .
  next
    assume "\<exists>uid a. targetUser caller rq = Some uid \<and> res = Inr a \<and> code = 201
                \<and> bookingBody ev caller uid rq st = Inr (st', a)"
    then obtain uid a where b: "bookingBody ev caller uid rq st = Inr (st', a)" by blast
    from bookingBody_Inr[OF b] have
      k: "b_doctorId rq = Some (a_doctor a)" "a_date a = b_date rq" "a_time a = b_time rq"
      and n: "\<not> (\<exists>b \<in> set (appointments st). slotKey b = slotKey a)"
      by auto
    from assms(1) k have "\<exists>b \<in> set (appointments st). slotKey b = slotKey a"
      unfolding slotTaken_def slotKey_def by auto
    with n have False by simp
    then show ?thesis ..
  qed
qed

lemma bookAppointment_201:
  assumes "fst (snd (bookAppointment ev caller rq st)) = 201"
  shows "\<exists>uid a st'. \<not> (\<not> isStaff caller \<and> u_role caller \<noteq> Patient)
           \<and> targetUser caller rq = Some uid
           \<and> findOne (\<lambda>a. a_user a = uid \<and> a_status a = Upcoming
                                \<and> a_date a = b_date rq \<and> a_time a = b_time rq
                                \<and> Some (a_doctor a) = b_doctorId rq) (appointments st) = None
           \<and> (if b_force rq then None
               else conflictLoop ev rq
                      (filter (\<lambda>a. a_user a = uid \<and> a_status a = Upcoming
                                    \<and> a_date a = b_date rq) (appointments st))) = None
           \<and> bookingBody ev caller uid rq st = Inr (st', a)"
  using assms unfolding bookAppointment_def withTransaction_def bookingErrorStatus_def
  by (auto split: option.splits if_splits sum.splits prod.splits)

lemma find_None_filter:
  assumes "List.find P xs = None" and "\<And>b. Q b \<Longrightarrow> R b \<Longrightarrow> P b"
  shows "filter Q (filter (\<lambda>b. \<not> R b) xs) = filter Q xs"
proof -
  from assms(1) have "\<forall>x \<in> set xs. \<not> P x" by (simp add: find_None_iff)
  with assms(2) have "\<forall>x \<in> set xs. Q x \<longrightarrow> \<not> R x" by blast
  then show ?thesis by (induction xs) auto
qed

lemma bookAppointment_taken_conflict:
  assumes tk: "slotTaken rq st"
    and ok: "fst (snd (bookAppointment ev caller rq (withoutSlot rq st))) = 201"
  shows "bookAppointment ev caller rq st = (st, 409, Inl DuplicateAppointment)
       \<or> bookAppointment ev caller rq st = (st, 409, Inl DuplicateKey)"
proof -
  let ?s0 = "withoutSlot rq st"
  let ?R = "\<lambda>b. Some (a_doctor b) = b_doctorId rq \<and> a_date b = b_date rq \<and> a_time b = b_time rq"
  from bookAppointment_201[OF ok] obtain uid a s' where
    role: "\<not> (\<not> isStaff caller \<and> u_role caller \<noteq> Patient)"
    and uid: "targetUser caller rq = Some uid"
    and cf: "(if b_force rq then None
               else conflictLoop ev rq
                      (filter (\<lambda>a. a_user a = uid \<and> a_status a = Upcoming
                                    \<and> a_date a = b_date rq) (appointments ?s0))) = None"
    and body: "bookingBody ev caller uid rq ?s0 = Inr (s', a)"
    by blast
  let ?P = "\<lambda>a. a_user a = uid \<and> a_status a = Upcoming \<and> a_date a = b_date rq
              \<and> a_time a = b_time rq \<and> Some (a_doctor a) = b_doctorId rq"
  show ?thesis
  proof (cases "findOne ?P (appointments st)")
    case (Some existingExact)
    with role uid have "bookAppointment ev caller rq st = (st, 409, Inl DuplicateAppointment)"
      unfolding bookAppointment_def by simp
    then show ?thesis ..
  next
    case None
    then have fn: "List.find ?P (appointments st) = None" by (simp add: findOne_def)
    have a0: "appointments ?s0 = filter (\<lambda>b. \<not> ?R b) (appointments st)"
      by (simp add: withoutSlot_def)
    have feq: "filter (\<lambda>a. a_user a = uid \<and> a_status a = Upcoming \<and> a_date a = b_date rq)
                 (appointments ?s0)
             = filter (\<lambda>a. a_user a = uid \<and> a_status a = Upcoming \<and> a_date a = b_date rq)
                 (appointments st)"
      unfolding a0 by (rule find_None_filter[OF fn]) simp
    from cf have cf': "(if b_force rq then None
               else conflictLoop ev rq
                      (filter (\<lambda>a. a_user a = uid \<and> a_status a = Upcoming
                                    \<and> a_date a = b_date rq) (appointments st))) = None"
      unfolding feq .
    have "bookingBody ev caller uid rq st = Inl DuplicateKey"
      by (rule bookingBody_taken[OF body _ _ _ _ tk]) (simp_all add: withoutSlot_def)
    with role uid None cf'
    have "bookAppointment ev caller rq st = (st, 409, Inl DuplicateKey)"
      unfolding bookAppointment_def withTransaction_def bookingErrorStatus_def by simp
    then show ?thesis ..
  qed
qed




lemma findOne_id_Some:
  "findOne (\<lambda>a. a_id a = i) xs = Some x \<Longrightarrow> x \<in> set xs \<and> a_id x = i"
  unfolding findOne_def by (auto simp: find_Some_iff)






lemma findOne_updateWhere_id:
  "findOne (\<lambda>a. a_id a = i) xs = Some ap \<Longrightarrow> a_id doc = i \<Longrightarrow>
   findOne (\<lambda>a. a_id a = i) (updateWhere (\<lambda>b. a_id b = i) (\<lambda>_. doc) xs) = Some doc"
  unfolding findOne_def updateWhere_def
  by (induction xs) (auto split: if_splits)

lemma Appointment_save_Inr:
  assumes "Appointment_save doc st = Inr st'"
  shows "st' = st \<lparr> appointments := updateWhere (\<lambda>b. a_id b = a_id doc) (\<lambda>_. doc) (appointments st) \<rparr>"
  using assms unfolding Appointment_save_def by (auto split: if_splits)

lemma updateBody_cancel_Inr:
  assumes ap: "findOne (\<lambda>a. a_id a = i) (appointments st) = Some ap"
    and own: "u_role caller = Patient" "a_user ap = u_id caller"
    and run: "updateBody ev caller i Cancelled st = Inr (st', u)"
  shows "findOne (\<lambda>a. a_id a = i) (appointments st')
           = Some (ap \<lparr> a_status := Cancelled, a_isRefunded := True \<rparr>)
       \<and> (if \<not> a_isRefunded ap \<and> jsLess (Finite 0) (cancellationRefund st ap)
           then \<exists>t. transactions st' = transactions st @ [t]
                    \<and> isRefundCredit t ap (cancellationRefund st ap)
                    \<and> balanceOf (a_user ap) st'
                        = map_option (\<lambda>b. jsAdd b (cancellationRefund st ap)) (balanceOf (a_user ap) st)
           else transactions st' = transactions st \<and> wallets st' = wallets st)"
proof -
  have st: "\<not> isStaff caller" using own(1) by (simp add: isStaff_def)
  from findOne_id_Some[OF ap] have idap: "a_id ap = i" by simp
  let ?doc = "ap \<lparr> a_status := Cancelled, a_isRefunded := True \<rparr>"
  show ?thesis
  proof (cases "\<not> a_isRefunded ap \<and> jsLess (Finite 0) (cancellationRefund st ap)")
    case False
    with run ap own st obtain st2 where
      sv: "Appointment_save ?doc st = Inr st2"
      and fin: "st' = createNotification ev (a_user ap) ''appointment'' st2"
      unfolding updateBody_def cancellationRefund_def
      by (auto simp: Let_def split: option.splits if_splits sum.splits prod.splits)
    from Appointment_save_Inr[OF sv] fin idap findOne_updateWhere_id[OF ap, of ?doc]
    have "findOne (\<lambda>a. a_id a = i) (appointments st') = Some ?doc"
      and "transactions st' = transactions st" and "wallets st' = wallets st"
      by simp_all
    with False show ?thesis by simp
  next
    case True
    let ?r = "cancellationRefund st ap"
    let ?td = "\<lparr> td_userId = a_user ap, td_amount = ?r, td_type = credit,
                 td_transactionType = Refund, td_referenceId = RefAppointment (a_id ap),
                 td_hospitalId = Some (a_hospital ap) \<rparr>"
    from True run ap own st obtain st1 t st2 where
      pay: "performDbOperations ?td st = Inr (st1, t)"
      and sv: "Appointment_save ?doc st1 = Inr st2"
      and fin: "st' = createNotification ev (a_user ap) ''appointment'' st2"
      unfolding updateBody_def cancellationRefund_def createTransactionAndUpdateWallet_session_def
      by (auto simp: Let_def split: option.splits if_splits sum.splits prod.splits)
    from performDbOperations_Inr[OF pay] obtain w where
      w: "findOne (\<lambda>w. w_user w = a_user ap) (wallets st) = Some w"
      and p: "balanceOf (a_user ap) st1 = Some (jsAdd (w_balance w) ?r)"
             "transactions st1 = transactions st @ [t]"
             "t_type t = credit" "t_amount t = ?r" "t_user t = a_user ap"
             "t_transactionType t = Refund" "t_referenceId t = RefAppointment (a_id ap)"
             "appointments st1 = appointments st"
      by auto
    from ap p(8) have ap1: "findOne (\<lambda>a. a_id a = i) (appointments st1) = Some ap" by simp
    from Appointment_save_Inr[OF sv] fin idap findOne_updateWhere_id[OF ap1, of ?doc]
    have f: "findOne (\<lambda>a. a_id a = i) (appointments st') = Some ?doc"
      and t': "transactions st' = transactions st1" and w': "wallets st' = wallets st1"
      by simp_all
    from w' have b': "balanceOf (a_user ap) st' = balanceOf (a_user ap) st1"
      by (simp add: balanceOf_def)
    from w have b0: "balanceOf (a_user ap) st = Some (w_balance w)" by (simp add: balanceOf_def)
    from True f t' b' b0 p show ?thesis by (auto simp: isRefundCredit_def)
  qed
qed

lemma updateAppointment_refunded_no_txn:
  assumes "findOne (\<lambda>a. a_id a = i) (appointments st) = Some d" and "a_isRefunded d"
  shows "transactions (fst (updateAppointment ev caller i status st)) = transactions st"
proof -
  have "transactions st' = transactions st" if "updateBody ev caller i status st = Inr (st', u)"
    for st' u
    using that assms unfolding updateBody_def
    by (auto simp: Let_def split: option.splits if_splits sum.splits prod.splits
             dest!: Appointment_save_Inr)
  then show ?thesis
    unfolding updateAppointment_def withTransaction_def
    by (auto split: sum.splits prod.splits)
qed

lemma resolveBody_Inr:
  assumes ap: "findOne (\<lambda>a. a_id a = i) (appointments st) = Some ap"
    and run: "resolveBody ev caller i rq st = Inr (st', u)"
  shows "a_status ap = DoctorCancelled \<and> a_cancellationResolution ap = Pending
       \<and> a_user ap = u_id caller \<and> users st' = users st
       \<and> findOne (\<lambda>u. u_id u = a_user ap) (users st) \<noteq> None
       \<and> (\<exists>d. findOne (\<lambda>a. a_id a = i) (appointments st') = Some d
               \<and> a_status d \<noteq> DoctorCancelled \<and> a_user d = a_user ap)"
proof -
  from findOne_id_Some[OF ap] have idap: "a_id ap = i" by simp
  from run ap have g: "a_status ap = DoctorCancelled" "a_cancellationResolution ap = Pending"
    "a_user ap = u_id caller" "findOne (\<lambda>u. u_id u = a_user ap) (users st) \<noteq> None"
    unfolding resolveBody_def by (auto split: option.splits if_splits)
  from run ap obtain st1 doc st2 where
    a1: "appointments st1 = appointments st" "users st1 = users st"
    and sv: "Appointment_save doc st1 = Inr st2"
    and d: "a_id doc = i" "a_status doc \<noteq> DoctorCancelled" "a_user doc = a_user ap"
    and a2: "appointments st' = appointments st2" "users st' = users st2"
    unfolding resolveBody_def createTransactionAndUpdateWallet_session_def
    by (auto simp: Let_def idap split: option.splits if_splits sum.splits prod.splits action.splits
             dest!: performDbOperations_Inr)
  from ap a1 have ap1: "findOne (\<lambda>a. a_id a = i) (appointments st1) = Some ap" by simp
  from Appointment_save_Inr[OF sv] d(1) findOne_updateWhere_id[OF ap1, of doc] a2
  have "findOne (\<lambda>a. a_id a = i) (appointments st') = Some doc" and "users st' = users st1"
    by simp_all
  with g d a1 show ?thesis by simp
qed

lemma resolveBody_refund_Inr:
  assumes ap: "findOne (\<lambda>a. a_id a = i) (appointments st) = Some ap"
    and act: "r_action rq = ActRefund"
    and run: "resolveBody ev caller i rq st = Inr (st', u)"
  shows "findOne (\<lambda>a. a_id a = i) (appointments st')
           = Some (ap \<lparr> a_status := Cancelled, a_isRefunded := True,
                        a_cancellationResolution := Refunded \<rparr>)
       \<and> (if jsLess (Finite 0) (a_cost ap)
           then \<exists>t. transactions st' = transactions st @ [t]
                    \<and> isRefundCredit t ap (a_cost ap)
                    \<and> balanceOf (a_user ap) st'
                        = map_option (\<lambda>b. jsAdd b (a_cost ap)) (balanceOf (a_user ap) st)
           else transactions st' = transactions st \<and> wallets st' = wallets st)"
proof -
  from findOne_id_Some[OF ap] have idap: "a_id ap = i" by simp
  let ?doc = "ap \<lparr> a_status := Cancelled, a_isRefunded := True,
                    a_cancellationResolution := Refunded \<rparr>"
  show ?thesis
  proof (cases "jsLess (Finite 0) (a_cost ap)")
    case False
    with run ap act obtain st2 where
      sv: "Appointment_save ?doc st = Inr st2"
      and fin: "st' = createNotification ev (a_user ap) ''appointment'' st2"
      unfolding resolveBody_def
      by (auto simp: Let_def split: option.splits if_splits sum.splits prod.splits)
    from Appointment_save_Inr[OF sv] fin idap findOne_updateWhere_id[OF ap, of ?doc]
    have "findOne (\<lambda>a. a_id a = i) (appointments st') = Some ?doc"
      and "transactions st' = transactions st" and "wallets st' = wallets st"
      by simp_all
    with False show ?thesis by simp
  next
    case True
    let ?td = "\<lparr> td_userId = a_user ap, td_amount = a_cost ap, td_type = credit,
                 td_transactionType = Refund, td_referenceId = RefAppointment (a_id ap),
                 td_hospitalId = Some (a_hospital ap) \<rparr>"
    from True run ap act obtain st1 t st2 where
      pay: "performDbOperations ?td st = Inr (st1, t)"
      and sv: "Appointment_save ?doc st1 = Inr st2"
      and fin: "st' = createNotification ev (a_user ap) ''appointment'' st2"
      unfolding resolveBody_def createTransactionAndUpdateWallet_session_def
      by (auto simp: Let_def split: option.splits if_splits sum.splits prod.splits)
    from performDbOperations_Inr[OF pay] obtain w where
      w: "findOne (\<lambda>w. w_user w = a_user ap) (wallets st) = Some w"
      and p: "balanceOf (a_user ap) st1 = Some (jsAdd (w_balance w) (a_cost ap))"
             "transactions st1 = transactions st @ [t]"
             "t_type t = credit" "t_amount t = a_cost ap" "t_user t = a_user ap"
             "t_transactionType t = Refund" "t_referenceId t = RefAppointment (a_id ap)"
             "appointments st1 = appointments st"
      by auto
    from ap p(8) have ap1: "findOne (\<lambda>a. a_id a = i) (appointments st1) = Some ap" by simp
    from Appointment_save_Inr[OF sv] fin idap findOne_updateWhere_id[OF ap1, of ?doc]
    have f: "findOne (\<lambda>a. a_id a = i) (appointments st') = Some ?doc"
      and t': "transactions st' = transactions st1" and w': "wallets st' = wallets st1"
      by simp_all
    from w' have b': "balanceOf (a_user ap) st' = balanceOf (a_user ap) st1"
      by (simp add: balanceOf_def)
    from w have b0: "balanceOf (a_user ap) st = Some (w_balance w)" by (simp add: balanceOf_def)
    from True f t' b' b0 p show ?thesis by (auto simp: isRefundCredit_def)
  qed
qed

lemma resolve_not_cancelled:
  assumes "findOne (\<lambda>a. a_id a = i) (appointments st) = Some d"
    and "a_status d \<noteq> DoctorCancelled" and "a_user d = u_id caller"
    and "findOne (\<lambda>u. u_id u = u_id caller) (users st) \<noteq> None"
  shows "resolveCancellation ev caller i rq st = (st, 400, Inl NotCancelledByDoctor)"
  using assms unfolding resolveCancellation_def withTransaction_def resolveBody_def
  by auto

lemma resolve_already_processed:
  assumes "findOne (\<lambda>a. a_id a = i) (appointments st) = Some d"
    and "a_status d = DoctorCancelled" and "a_cancellationResolution d \<noteq> Pending"
    and "a_user d = u_id caller"
    and "findOne (\<lambda>u. u_id u = u_id caller) (users st) \<noteq> None"
  shows "resolveCancellation ev caller i rq st = (st, 400, Inl ResolutionAlreadyProcessed)"
  using assms unfolding resolveCancellation_def withTransaction_def resolveBody_def
  by auto

lemma bookingCommit_enough:
  assumes "bookingCommit ev uid doctor hid atype rq st = Inr (st', a)"
  shows "\<exists>w. findOne (\<lambda>w. w_user w = uid) (wallets st) = Some w
           \<and> \<not> jsLess (w_balance w) (at_cost atype) \<and> a_cost a = at_cost atype"
proof -
  from assms obtain w where w: "findOne (\<lambda>w. w_user w = uid) (wallets st) = Some w"
    and e: "\<not> jsLess (w_balance w) (at_cost atype)"
    unfolding bookingCommit_def by (auto simp: Let_def split: option.splits if_splits)
  from bookingCommit_Inr[OF assms] have "a_cost a = at_cost atype" by blast
  with w e show ?thesis by blast
qed

lemma bookingBody_enough:
  assumes "bookingBody ev caller uid rq st = Inr (st', a)"
  shows "\<exists>w tid atype. findOne (\<lambda>w. w_user w = uid) (wallets st) = Some w
           \<and> b_appointmentTypeId rq = Some tid
           \<and> findOne (\<lambda>t. at_id t = tid) (appointmentTypes st) = Some atype
           \<and> a_cost a = at_cost atype
           \<and> \<not> jsLess (if b_cashPayment rq \<and> isStaff caller
                         then jsAdd (w_balance w) (at_cost atype) else w_balance w)
                        (at_cost atype)"
proof -
  from assms obtain did hid tid atype doctor where
    ids: "b_doctorId rq = Some did" "b_hospitalId rq = Some hid" "b_appointmentTypeId rq = Some tid"
    and at: "findOne (\<lambda>t. at_id t = tid) (appointmentTypes st) = Some atype"
    and doc: "findOne (\<lambda>u. u_id u = did) (users st) = Some doctor"
    unfolding bookingBody_def by (auto split: option.splits if_splits)
  show ?thesis
  proof (cases "b_cashPayment rq \<and> isStaff caller")
    case False
    with assms ids at doc have "bookingCommit ev uid doctor hid atype rq st = Inr (st', a)"
      unfolding bookingBody_def by (auto split: option.splits if_splits)
    from bookingCommit_enough[OF this] False ids at show ?thesis by auto
  next
    case True
    with assms ids at doc obtain st1 c where
      dep: "performDbOperations \<lparr> td_userId = uid, td_amount = at_cost atype,
                     td_type = credit, td_transactionType = Deposit,
                     td_referenceId = RefCash (e_now ev),
                     td_hospitalId = Some hid \<rparr> st = Inr (st1, c)"
      and com: "bookingCommit ev uid doctor hid atype rq st1 = Inr (st', a)"
      unfolding bookingBody_def createTransactionAndUpdateWallet_session_def
      by (auto split: option.splits if_splits sum.splits)
    from performDbOperations_Inr[OF dep] obtain w where
      w: "findOne (\<lambda>w. w_user w = uid) (wallets st) = Some w"
      and b1: "balanceOf uid st1 = Some (jsAdd (w_balance w) (at_cost atype))"
      by auto
    from bookingCommit_enough[OF com] obtain w1 where
      w1: "findOne (\<lambda>w. w_user w = uid) (wallets st1) = Some w1"
      and e: "\<not> jsLess (w_balance w1) (at_cost atype)" "a_cost a = at_cost atype"
      by blast
    from w1 b1 have "w_balance w1 = jsAdd (w_balance w) (at_cost atype)"
      by (simp add: balanceOf_def)
    with True w e ids at show ?thesis by auto
  qed
qed

subsection \<open>Booking is atomic and charges the fee\<close>

text \<open>
  C1 (as amended). Every call of the booking handler either fails and leaves the whole
  store as it was (no appointment, no queue entry, no ledger transaction, the balance
  unchanged), or answers 201 with exactly one new appointment, of status Upcoming, and
  exactly one debit of the fee referencing it. It fails in particular when the patient
  has no wallet or when the balance the handler checks is below the fee: the patient's
  balance, or with a cash payment confirmed by staff the balance after the deposit of the
  fee. Without a cash payment the debit is the only new transaction and the new balance
  is the old one minus the fee; with one, a credit of the fee is recorded before the
  debit and the new balance is the old one plus the fee minus the fee. The sums are those
  of doubles, each rounded to the nearest double.
\<close>

theorem booking_atomic_and_charged:
  assumes "bookAppointment ev caller rq st = (st', code, res)"
  shows "(isl res \<longrightarrow> st' = st)
       \<and> (\<forall>uid. targetUser caller rq = Some uid \<and> balanceOf uid st = None \<longrightarrow> isl res)
       \<and> (\<forall>uid bal tid atype.
            targetUser caller rq = Some uid \<and> balanceOf uid st = Some bal
            \<and> b_appointmentTypeId rq = Some tid
            \<and> findOne (\<lambda>t. at_id t = tid) (appointmentTypes st) = Some atype
            \<and> jsLess (if b_cashPayment rq \<and> isStaff caller
                       then jsAdd bal (at_cost atype) else bal) (at_cost atype) \<longrightarrow>
            isl res)
       \<and> (\<forall>a. res = Inr a \<longrightarrow>
            code = 201 \<and> a_status a = Upcoming \<and> appointments st' = appointments st @ [a]
            \<and> (\<exists>uid bal d. targetUser caller rq = Some uid \<and> a_user a = uid
                  \<and> balanceOf uid st = Some bal \<and> isFeeDebit d uid a
                  \<and> (if b_cashPayment rq \<and> isStaff caller
                      then (\<exists>c. transactions st' = transactions st @ [c, d]
                                \<and> isCashDeposit c uid a
                                \<and> balanceOf uid st'
                                    = Some (jsAdd (jsAdd bal (a_cost a)) (jsNegate (a_cost a))))
                      else transactions st' = transactions st @ [d]
                           \<and> balanceOf uid st' = Some (jsAdd bal (jsNegate (a_cost a))))))"
proof -
  have ok: "\<exists>uid. targetUser caller rq = Some uid \<and> code = 201
                \<and> bookingBody ev caller uid rq st = Inr (st', a)" if "res = Inr a" for a
    using assms that unfolding bookAppointment_def withTransaction_def
    by (auto split: option.splits if_splits sum.splits prod.splits)
  have A: "isl res \<longrightarrow> st' = st"
    using assms unfolding bookAppointment_def withTransaction_def
    by (auto split: option.splits if_splits sum.splits prod.splits)
  have B: "\<forall>uid. targetUser caller rq = Some uid \<and> balanceOf uid st = None \<longrightarrow> isl res"
  proof (intro allI impI)
    fix uid assume h: "targetUser caller rq = Some uid \<and> balanceOf uid st = None"
    show "isl res"
    proof (cases res)
      case (Inl e)
      then show ?thesis by simp
    next
      case (Inr a)
      from ok[OF Inr] h have "bookingBody ev caller uid rq st = Inr (st', a)" by auto
      from bookingBody_enough[OF this] h show ?thesis by (auto simp: balanceOf_def)
    qed
  qed
  have C: "\<forall>uid bal tid atype.
            targetUser caller rq = Some uid \<and> balanceOf uid st = Some bal
            \<and> b_appointmentTypeId rq = Some tid
            \<and> findOne (\<lambda>t. at_id t = tid) (appointmentTypes st) = Some atype
            \<and> jsLess (if b_cashPayment rq \<and> isStaff caller
                       then jsAdd bal (at_cost atype) else bal) (at_cost atype) \<longrightarrow>
            isl res"
  proof (intro allI impI)
    fix uid bal tid atype
    assume h: "targetUser caller rq = Some uid \<and> balanceOf uid st = Some bal
            \<and> b_appointmentTypeId rq = Some tid
            \<and> findOne (\<lambda>t. at_id t = tid) (appointmentTypes st) = Some atype
            \<and> jsLess (if b_cashPayment rq \<and> isStaff caller
                       then jsAdd bal (at_cost atype) else bal) (at_cost atype)"
    show "isl res"
    proof (cases res)
      case (Inl e)
      then show ?thesis by simp
    next
      case (Inr a)
      from ok[OF Inr] h have "bookingBody ev caller uid rq st = Inr (st', a)" by auto
      from bookingBody_enough[OF this] h show ?thesis by (auto simp: balanceOf_def)
    qed
  qed
  have D: "\<forall>a. res = Inr a \<longrightarrow>
            code = 201 \<and> a_status a = Upcoming \<and> appointments st' = appointments st @ [a]
            \<and> (\<exists>uid bal d. targetUser caller rq = Some uid \<and> a_user a = uid
                  \<and> balanceOf uid st = Some bal \<and> isFeeDebit d uid a
                  \<and> (if b_cashPayment rq \<and> isStaff caller
                      then (\<exists>c. transactions st' = transactions st @ [c, d]
                                \<and> isCashDeposit c uid a
                                \<and> balanceOf uid st'
                                    = Some (jsAdd (jsAdd bal (a_cost a)) (jsNegate (a_cost a))))
                      else transactions st' = transactions st @ [d]
                           \<and> balanceOf uid st' = Some (jsAdd bal (jsNegate (a_cost a)))))"
  proof (intro allI impI)
    fix a assume r: "res = Inr a"
    from ok[OF r] obtain uid where uid: "targetUser caller rq = Some uid"
      and body: "bookingBody ev caller uid rq st = Inr (st', a)" and code: "code = 201"
      by blast
    from bookingBody_Inr[OF body] obtain w d where
      w: "findOne (\<lambda>w. w_user w = uid) (wallets st) = Some w"
      and f: "a_status a = Upcoming" "a_user a = uid" "appointments st' = appointments st @ [a]"
             "isFeeDebit d uid a"
      and tx: "if b_cashPayment rq \<and> isStaff caller
                 then (\<exists>c. transactions st' = transactions st @ [c, d] \<and> isCashDeposit c uid a
                           \<and> t_referenceId c = RefCash (e_now ev)
                           \<and> balanceOf uid st'
                               = Some (jsAdd (jsAdd (w_balance w) (a_cost a)) (jsNegate (a_cost a))))
                 else transactions st' = transactions st @ [d]
                      \<and> balanceOf uid st' = Some (jsAdd (w_balance w) (jsNegate (a_cost a)))"
      by blast
    have bal: "balanceOf uid st = Some (w_balance w)" using w by (simp add: balanceOf_def)
    have "\<exists>uid bal d. targetUser caller rq = Some uid \<and> a_user a = uid
                  \<and> balanceOf uid st = Some bal \<and> isFeeDebit d uid a
                  \<and> (if b_cashPayment rq \<and> isStaff caller
                      then (\<exists>c. transactions st' = transactions st @ [c, d]
                                \<and> isCashDeposit c uid a
                                \<and> balanceOf uid st'
                                    = Some (jsAdd (jsAdd bal (a_cost a)) (jsNegate (a_cost a))))
                      else transactions st' = transactions st @ [d]
                           \<and> balanceOf uid st' = Some (jsAdd bal (jsNegate (a_cost a))))"
      using uid f bal tx by (cases "b_cashPayment rq \<and> isStaff caller") auto
    with code f show "code = 201 \<and> a_status a = Upcoming \<and> appointments st' = appointments st @ [a]
            \<and> (\<exists>uid bal d. targetUser caller rq = Some uid \<and> a_user a = uid
                  \<and> balanceOf uid st = Some bal \<and> isFeeDebit d uid a
                  \<and> (if b_cashPayment rq \<and> isStaff caller
                      then (\<exists>c. transactions st' = transactions st @ [c, d]
                                \<and> isCashDeposit c uid a
                                \<and> balanceOf uid st'
                                    = Some (jsAdd (jsAdd bal (a_cost a)) (jsNegate (a_cost a))))
                      else transactions st' = transactions st @ [d]
                           \<and> balanceOf uid st' = Some (jsAdd bal (jsNegate (a_cost a)))))"
      by (intro conjI)
  qed
  from A B C D show ?thesis by (intro conjI)
qed

lemma runA: "snd (bookAppointment envA patientA reqA dbA) = (201, Inr apptA)"
  by code_simp

theorem booking_atomic_and_charged_witness:
  "snd (bookAppointment envA patientA reqA dbA) = (201, Inr apptA)
   \<and> balanceOf 1 dbA = Some (Finite 100)
   \<and> balanceOf 1 (fst (bookAppointment envA patientA reqA dbA)) = Some (Finite 50)
   \<and> length (transactions (fst (bookAppointment envA patientA reqA dbA))) = 1
   \<and> bookAppointment envA patientA reqA dbFresh
        = (dbFresh, 400, Inl InsufficientBalanceForPatient)
   \<and> balanceOf 1 dbDeposited = Some (Finite (7205759403792793 / 9007199254740992))
   \<and> roundToDouble (8 / 10) = Finite (7205759403792794 / 9007199254740992)
   \<and> bookAppointment envA patientA reqDecimal dbDeposited
        = (dbDeposited, 400, Inl InsufficientBalanceForPatient)"
proof -
  have run: "bookAppointment envA patientA reqA dbA
               = (fst (bookAppointment envA patientA reqA dbA), 201, Inr apptA)"
    using runA by (metis prod.collapse)
  have t: "targetUser patientA reqA = Some 1" by code_simp
  have b: "balanceOf 1 dbA = Some (Finite 100)" by code_simp
  have c: "\<not> (b_cashPayment reqA \<and> isStaff patientA)" by code_simp
  have k: "a_cost apptA = Finite 50" by code_simp
  have s: "jsAdd (Finite 100) (jsNegate (Finite 50)) = Finite 50" by code_simp
  have e: "transactions dbA = []" by code_simp
  from booking_atomic_and_charged[OF run] t b c k e s
  have 1: "balanceOf 1 (fst (bookAppointment envA patientA reqA dbA)) = Some (Finite 50)"
    and 2: "length (transactions (fst (bookAppointment envA patientA reqA dbA))) = 1"
    by auto
  have f: "snd (bookAppointment envA patientA reqA dbFresh)
             = (400, Inl InsufficientBalanceForPatient)" by code_simp
  then have runF: "bookAppointment envA patientA reqA dbFresh
               = (fst (bookAppointment envA patientA reqA dbFresh), 400,
                  Inl InsufficientBalanceForPatient)"
    by (metis prod.collapse)
  from booking_atomic_and_charged[OF runF]
  have "fst (bookAppointment envA patientA reqA dbFresh) = dbFresh" by simp
  with runF have 3: "bookAppointment envA patientA reqA dbFresh
        = (dbFresh, 400, Inl InsufficientBalanceForPatient)" by simp
  have g: "snd (bookAppointment envA patientA reqDecimal dbDeposited)
             = (400, Inl InsufficientBalanceForPatient)" by code_simp
  then have runG: "bookAppointment envA patientA reqDecimal dbDeposited
               = (fst (bookAppointment envA patientA reqDecimal dbDeposited), 400,
                  Inl InsufficientBalanceForPatient)"
    by (metis prod.collapse)
  from booking_atomic_and_charged[OF runG]
  have "fst (bookAppointment envA patientA reqDecimal dbDeposited) = dbDeposited" by simp
  with runG have 4: "bookAppointment envA patientA reqDecimal dbDeposited
        = (dbDeposited, 400, Inl InsufficientBalanceForPatient)" by simp
  have 5: "balanceOf 1 dbDeposited = Some (Finite (7205759403792793 / 9007199254740992))"
    by code_simp
  have 6: "roundToDouble (8 / 10) = Finite (7205759403792794 / 9007199254740992)"
    by code_simp
  from runA b 1 2 3 4 5 6 show ?thesis by (intro conjI)
qed

theorem booking_cash_counterexample:
  "fst (snd (bookAppointment envA staffS reqCash dbA)) = 201
   \<and> balanceOf 1 dbA = Some (Finite 100)
   \<and> balanceOf 1 (fst (bookAppointment envA staffS reqCash dbA)) = Some (Finite 100)
   \<and> balanceOf 1 (fst (bookAppointment envA staffS reqCash dbA)) \<noteq> Some (Finite (100 - 50))
   \<and> fst (snd (bookAppointment envA patientA reqTenth dbDeposited)) = 201
   \<and> balanceOf 1 dbDeposited = Some (Finite (7205759403792793 / 9007199254740992))
   \<and> roundToDouble (1 / 10) = Finite (3602879701896397 / 36028797018963968)
   \<and> balanceOf 1 (fst (bookAppointment envA patientA reqTenth dbDeposited))
        \<noteq> Some (Finite (7205759403792793 / 9007199254740992
                          - 3602879701896397 / 36028797018963968))"
  by code_simp

lemma run_preserved: "preserved st (run ops st)"
proof (induction ops arbitrary: st)
  case Nil
  then show ?case by simp
next
  case (Cons op ops)
  obtain ev req where op: "op = (ev, req)" by (cases op)
  from handle_preserved[of st ev req] Cons.IH[of "handle ev req st"]
  show ?case unfolding op by (auto intro: preserved_trans)
qed

subsection \<open>Ledger consistency\<close>

text \<open>
  C3 (as amended). Balances and amounts are doubles, and a balance is the result of
  adding the signed amounts (credits positive, debits negative) one after the other, each
  sum rounded to the nearest double. Starting from a store in which every wallet's balance
  equals the signed amounts of the transactions that reference it added up from zero in
  the order they were recorded, the same holds after every operation, and so after every
  history of operations: user deposit, redeem-code credit, admin add-funds, booking (with
  or without a cash deposit), cancellation refund, doctor-cancellation refund, and the
  operations that leave wallets alone. The balance need not equal the sum of the amounts
  taken in the reals or in another order.
\<close>

theorem ledger_consistency:
  assumes "ledgerConsistent st"
  shows "ledgerConsistent (handle ev req st) \<and> ledgerConsistent (run ops st)"
  using assms handle_preserved[of st ev req] run_preserved[of st ops]
  by (simp add: preserved_def)

theorem ledger_consistency_witness:
  "ledgerConsistent dbFresh
   \<and> ledgerConsistent (run historyA dbFresh)
   \<and> balanceOf 1 (run historyA dbFresh) = Some (Finite 90)
   \<and> map signedAmount (transactions (run historyA dbFresh))
        = [Finite 100, Finite (- 50), Finite 40]
   \<and> ledgerConsistent dbThree"
proof -
  have c: "ledgerConsistent dbFresh" by code_simp
  have b: "balanceOf 1 (run historyA dbFresh) = Some (Finite 90)" by code_simp
  have t: "map signedAmount (transactions (run historyA dbFresh))
             = [Finite 100, Finite (- 50), Finite 40]"
    by code_simp
  from ledger_consistency[OF c, of envA "DepositFunds patientA None" historyA]
  have 1: "ledgerConsistent (run historyA dbFresh)" by simp
  from ledger_consistency[OF c, of envA "DepositFunds patientA None" historyThree]
  have 2: "ledgerConsistent dbThree" by (simp add: dbThree_def)
  from c b t 1 2 show ?thesis by (intro conjI)
qed

theorem ledger_exact_sum_counterexample:
  "map w_id (wallets dbThree) = [9]
   \<and> map t_wallet (transactions dbThree) = [9, 9, 9]
   \<and> map signedAmount (transactions dbThree)
        = [Finite (3602879701896397 / 36028797018963968),
           Finite (3602879701896397 / 18014398509481984),
           Finite (5404319552844595 / 18014398509481984)]
   \<and> map w_balance (wallets dbThree) = [Finite (5404319552844596 / 9007199254740992)]
   \<and> exactLedgerSum 9 (transactions dbThree) = 21617278211378381 / 36028797018963968
   \<and> exactLedgerSum 9 (transactions dbThree) \<noteq> 5404319552844596 / 9007199254740992
   \<and> ledgerSumNewestFirst 9 (transactions dbThree)
        = Finite (5404319552844595 / 9007199254740992)
   \<and> ledgerSumNewestFirst 9 (transactions dbThree)
        \<noteq> Finite (5404319552844596 / 9007199254740992)"
  by code_simp

subsection \<open>No double booking\<close>

text \<open>
  C2. The unique index on doctor, date and time holds after every operation and every
  history of operations, so at most one Upcoming appointment exists for a doctor at a date
  and time. A booking request for a doctor, date and time that some stored appointment
  already has never creates an appointment and leaves the store as it was; and when the
  same request would have been accepted had the slot been free, the answer is 409.
\<close>

theorem no_double_booking:
  assumes "appointmentsIndexed st"
  shows "appointmentsIndexed (run ops st)
       \<and> length (upcomingAt doctorId date time (run ops st)) \<le> 1
       \<and> (slotTaken rq st \<longrightarrow>
            fst (bookAppointment ev caller rq st) = st
            \<and> isl (snd (snd (bookAppointment ev caller rq st))))
       \<and> (slotTaken rq st
            \<and> fst (snd (bookAppointment ev caller rq (withoutSlot rq st))) = 201 \<longrightarrow>
            fst (snd (bookAppointment ev caller rq st)) = 409)"
proof -
  from assms run_preserved[of st ops] have i: "appointmentsIndexed (run ops st)"
    by (simp add: preserved_def)
  have n: "slotTaken rq st \<longrightarrow>
            fst (bookAppointment ev caller rq st) = st
            \<and> isl (snd (snd (bookAppointment ev caller rq st)))"
    using bookAppointment_taken_never_creates[of rq st ev caller]
    by (cases "bookAppointment ev caller rq st") auto
  have c: "slotTaken rq st
            \<and> fst (snd (bookAppointment ev caller rq (withoutSlot rq st))) = 201 \<longrightarrow>
            fst (snd (bookAppointment ev caller rq st)) = 409"
    using bookAppointment_taken_conflict[of rq st ev caller] by auto
  from i upcomingAt_le1[OF i] n c show ?thesis by blast
qed

theorem no_double_booking_witness:
  "appointmentsIndexed dbTwo
   \<and> length (upcomingAt 2 ''2026-01-12'' ''9:00 AM'' (run [(envA, Book patientA reqA)] dbTwo)) = 1
   \<and> slotTaken reqA (run [(envA, Book patientA reqA)] dbTwo)
   \<and> fst (snd (bookAppointment envA patientB reqA
                 (withoutSlot reqA (run [(envA, Book patientA reqA)] dbTwo)))) = 201
   \<and> fst (snd (bookAppointment envA patientB reqA (run [(envA, Book patientA reqA)] dbTwo))) = 409
   \<and> fst (bookAppointment envA patientB reqA (run [(envA, Book patientA reqA)] dbTwo))
       = run [(envA, Book patientA reqA)] dbTwo"
proof -
  let ?s = "run [(envA, Book patientA reqA)] dbTwo"
  have i0: "appointmentsIndexed dbTwo" by code_simp
  have l: "length (upcomingAt 2 ''2026-01-12'' ''9:00 AM'' ?s) = 1" by code_simp
  have tk: "slotTaken reqA ?s" by code_simp
  have ok: "fst (snd (bookAppointment envA patientB reqA (withoutSlot reqA ?s))) = 201"
    by code_simp
  from i0 have i1: "appointmentsIndexed ?s"
    using no_double_booking[of dbTwo "[(envA, Book patientA reqA)]"] by blast
  from no_double_booking[OF i1, of "[]" 2 "''2026-01-12''" "''9:00 AM''" reqA envA patientB]
    tk ok
  have "fst (snd (bookAppointment envA patientB reqA ?s)) = 409"
    and "fst (bookAppointment envA patientB reqA ?s) = ?s"
    by blast+
  with i0 l tk ok show ?thesis by blast
qed

subsection \<open>Operations that leave a stored appointment at its slot\<close>





















subsection \<open>The index covers every status\<close>




lemma Appointment_save_same_key:
  assumes d: "distinct (map a_id (appointments st))"
    and ap: "findOne (\<lambda>a. a_id a = i) (appointments st) = Some ap"
    and doc: "a_id doc = i" "slotKey doc = slotKey ap" "a_date doc \<noteq> []" "a_time doc \<noteq> []"
  shows "Appointment_save doc st
           = Inr (st \<lparr> appointments :=
                        updateWhere (\<lambda>b. a_id b = a_id doc) (\<lambda>_. doc) (appointments st) \<rparr>)"
proof -
  from findOne_id_Some[OF ap] have m: "ap \<in> set (appointments st)" "a_id ap = i" by simp_all
  from d have ii: "inj_on a_id (set (appointments st))" by (simp add: distinct_map)
  have "slotKey old = slotKey doc"
    if "old \<in> set (appointments st)" "a_id old = a_id doc" for old
  proof -
    from that(2) doc(1) m(2) have "a_id old = a_id ap" by simp
    from inj_onD[OF ii this that(1) m(1)] doc(2) show ?thesis by simp
  qed
  then have "\<not> (\<exists>old \<in> set (appointments st). a_id old = a_id doc \<and> slotKey old \<noteq> slotKey doc)"
    by blast
  with doc(3,4) show ?thesis unfolding Appointment_save_def by simp
qed

lemma jsLess_NaN [simp]: "\<not> jsLess x NaN"
  by (cases x) simp_all

lemma updateBody_cancel_accepted:
  assumes d: "distinct (map a_id (appointments st))"
    and ap: "findOne (\<lambda>a. a_id a = i) (appointments st) = Some ap"
    and own: "u_role caller = Patient" "a_user ap = u_id caller"
    and acc: "cancellationAccepted st ap"
  shows "\<exists>st' u. updateBody ev caller i Cancelled st = Inr (st', u)"
proof -
  have st: "\<not> isStaff caller" using own(1) by (simp add: isStaff_def)
  from findOne_id_Some[OF ap] have idap: "a_id ap = i" by simp
  let ?doc = "ap \<lparr> a_status := Cancelled, a_isRefunded := True \<rparr>"
  from acc have dt: "a_date ?doc \<noteq> []" "a_time ?doc \<noteq> []"
    by (simp_all add: cancellationAccepted_def)
  have key: "a_id ?doc = i" "slotKey ?doc = slotKey ap" using idap by (simp_all add: slotKey_def)
  show ?thesis
  proof (cases "\<not> a_isRefunded ap \<and> jsLess (Finite 0) (cancellationRefund st ap)")
    case False
    note sv = Appointment_save_same_key[OF d ap key dt]
    show ?thesis
    proof (cases "a_isRefunded ap")
      case True
      from sv ap own st True show ?thesis
        unfolding updateBody_def by (simp add: Let_def)
    next
      case nr: False
      with acc obtain h where h: "findOne (\<lambda>h. h_id h = a_hospital ap) (hospitals st) = Some h"
        by (auto simp: cancellationAccepted_def)
      from False nr h have "\<not> jsLess (Finite 0)
          (jsMul (a_cost ap) (jsDiv (h_refundPolicyPercentage h) (Finite 100)))"
        by (simp add: cancellationRefund_def)
      with sv ap own st nr h show ?thesis
        unfolding updateBody_def by (simp add: Let_def)
    qed
  next
    case True
    let ?r = "cancellationRefund st ap"
    from True acc obtain h w where
      h: "findOne (\<lambda>h. h_id h = a_hospital ap) (hospitals st) = Some h"
      and ex: "findOne (\<lambda>t. at_id t = a_appointmentType ap) (appointmentTypes st) \<noteq> None"
              "findOne (\<lambda>u. u_id u = a_doctor ap) (users st) \<noteq> None"
      and w: "findOne (\<lambda>w. w_user w = a_user ap) (wallets st) = Some w"
      by (auto simp: cancellationAccepted_def)
    from h have r: "?r = jsMul (a_cost ap) (jsDiv (h_refundPolicyPercentage h) (Finite 100))"
      by (simp add: cancellationRefund_def)
    from True have nn: "?r \<noteq> NaN" by auto
    let ?td = "\<lparr> td_userId = a_user ap, td_amount = ?r, td_type = credit,
                 td_transactionType = Refund, td_referenceId = RefAppointment (a_id ap),
                 td_hospitalId = Some (a_hospital ap) \<rparr>"
    from w nn obtain st1 t where pay: "performDbOperations ?td st = Inr (st1, t)"
      unfolding performDbOperations_def by (simp add: Let_def)
    from performDbOperations_Inr[OF pay] have a1: "appointments st1 = appointments st" by blast
    from d ap a1 have d1: "distinct (map a_id (appointments st1))"
      and ap1: "findOne (\<lambda>a. a_id a = i) (appointments st1) = Some ap" by simp_all
    note sv = Appointment_save_same_key[OF d1 ap1 key dt]
    from True pay sv ap own st h ex r show ?thesis
      unfolding updateBody_def createTransactionAndUpdateWallet_session_def
      by (simp add: Let_def)
  qed
qed

lemma updateBody_cancel_needs:
  assumes ap: "findOne (\<lambda>a. a_id a = i) (appointments st) = Some ap"
    and own: "u_role caller = Patient" "a_user ap = u_id caller"
    and run: "updateBody ev caller i Cancelled st = Inr (st', u)"
  shows "cancellationAccepted st ap"
proof -
  have st: "\<not> isStaff caller" using own(1) by (simp add: isStaff_def)
  have sv: "a_date ap \<noteq> [] \<and> a_time ap \<noteq> []"
    if "Appointment_save (ap \<lparr> a_status := Cancelled, a_isRefunded := b \<rparr>) s = Inr s'" for b s s'
    using that unfolding Appointment_save_def by (auto split: if_splits)
  show ?thesis
  proof (cases "a_isRefunded ap")
    case True
    with run ap own st sv show ?thesis
      unfolding updateBody_def cancellationAccepted_def
      by (auto simp: Let_def split: option.splits if_splits sum.splits prod.splits)
  next
    case False
    from False run ap own st obtain h where
      h: "findOne (\<lambda>h. h_id h = a_hospital ap) (hospitals st) = Some h"
      unfolding updateBody_def
      by (auto simp: Let_def split: option.splits if_splits sum.splits prod.splits)
    from h have r: "cancellationRefund st ap
        = jsMul (a_cost ap) (jsDiv (h_refundPolicyPercentage h) (Finite 100))"
      by (simp add: cancellationRefund_def)
    show ?thesis
    proof (cases "jsLess (Finite 0) (cancellationRefund st ap)")
      case nr: False
      with False run ap own st h r sv show ?thesis
        unfolding updateBody_def cancellationAccepted_def
        by (auto simp: Let_def split: option.splits if_splits sum.splits prod.splits)
    next
      case pos: True
      let ?td = "\<lparr> td_userId = a_user ap, td_amount = cancellationRefund st ap,
                   td_type = credit, td_transactionType = Refund,
                   td_referenceId = RefAppointment (a_id ap),
                   td_hospitalId = Some (a_hospital ap) \<rparr>"
      from pos False run ap own st h r obtain st1 t st2 where
        ex: "findOne (\<lambda>t. at_id t = a_appointmentType ap) (appointmentTypes st) \<noteq> None"
            "findOne (\<lambda>u. u_id u = a_doctor ap) (users st) \<noteq> None"
        and pay: "performDbOperations ?td st = Inr (st1, t)"
        and s2: "Appointment_save (ap \<lparr> a_status := Cancelled, a_isRefunded := True \<rparr>) st1
                   = Inr st2"
        unfolding updateBody_def createTransactionAndUpdateWallet_session_def
        by (auto simp: Let_def split: option.splits if_splits sum.splits prod.splits)
      from performDbOperations_Inr[OF pay]
      have "findOne (\<lambda>w. w_user w = a_user ap) (wallets st) \<noteq> None" by auto
      with ex h sv[OF s2] show ?thesis unfolding cancellationAccepted_def by simp
    qed
  qed
qed

lemma patient_cancel_iff:
  assumes "distinct (map a_id (appointments st))"
    and "findOne (\<lambda>a. a_id a = i) (appointments st) = Some ap"
    and "u_role caller = Patient" and "a_user ap = u_id caller"
  shows "isl (snd (snd (updateAppointment ev caller i Cancelled st)))
           = (\<not> cancellationAccepted st ap)"
proof (cases "updateBody ev caller i Cancelled st")
  case (Inl e)
  with updateBody_cancel_accepted[OF assms, of ev] have "\<not> cancellationAccepted st ap" by auto
  with Inl show ?thesis unfolding updateAppointment_def withTransaction_def by simp
next
  case (Inr r)
  obtain st' u where r: "r = (st', u)" by (cases r)
  from updateBody_cancel_needs[OF assms(2-4) Inr[unfolded r]] Inr r show ?thesis
    unfolding updateAppointment_def withTransaction_def by simp
qed

lemma findOne_withStatus:
  assumes "findOne (\<lambda>a. a_id a = i) (appointments st) = Some ap"
  shows "findOne (\<lambda>a. a_id a = i) (appointments (withStatus i s st))
           = Some (ap \<lparr> a_status := s \<rparr>)"
proof -
  have "List.find (\<lambda>a. a_id a = i) xs = Some ap \<Longrightarrow>
        List.find (\<lambda>a. a_id a = i) (map (\<lambda>x. if a_id x = i then x \<lparr> a_status := s \<rparr> else x) xs)
          = Some (ap \<lparr> a_status := s \<rparr>)" for xs
    by (induction xs) (auto split: if_splits)
  with assms show ?thesis by (simp add: findOne_def withStatus_def updateWhere_def)
qed

lemma withStatus_ids: "map a_id (appointments (withStatus i s st)) = map a_id (appointments st)"
  by (simp add: withStatus_def map_updateWhere_inv)

lemma cancellationRefund_withStatus:
  "cancellationRefund (withStatus i s st) (ap \<lparr> a_status := s' \<rparr>) = cancellationRefund st ap"
  by (simp add: cancellationRefund_def withStatus_def split: option.splits)

lemma cancellationAccepted_withStatus:
  "cancellationAccepted (withStatus i s st) (ap \<lparr> a_status := s' \<rparr>) = cancellationAccepted st ap"
  unfolding cancellationAccepted_def cancellationRefund_withStatus
  by (simp add: withStatus_def)

subsection \<open>Cancellation by the patient\<close>

text \<open>
  C4 (as amended). A patient's cancellation of an appointment of theirs is accepted in
  whatever status the appointment is: the handler has no guard on the current status, it
  succeeds exactly when \<open>cancellationAccepted\<close> holds, which does not read the status, and
  the same request succeeds or fails alike when the stored status is replaced by any
  other. When it succeeds the appointment is Cancelled and flagged as refunded; if the
  flag was not set before and \<open>cost * (refundPolicyPercentage / 100)\<close>, a quotient and a
  product of doubles, is positive, exactly one credit of that amount, of type Refund and
  referencing the appointment, is recorded and added to the balance, otherwise no
  transaction is recorded; a failure leaves the store as it was; and cancelling the same
  appointment again records no further transaction.
\<close>

theorem patient_cancellation:
  assumes "distinct (map a_id (appointments st))"
    and "findOne (\<lambda>a. a_id a = i) (appointments st) = Some ap"
    and "u_role caller = Patient" and "a_user ap = u_id caller"
    and "updateAppointment ev caller i Cancelled st = (st', code, res)"
  shows "(isl res \<longrightarrow> st' = st)
       \<and> (\<not> isl res) = cancellationAccepted st ap
       \<and> (\<forall>s. isl (snd (snd (updateAppointment ev caller i Cancelled (withStatus i s st))))
               = isl res)
       \<and> (\<not> isl res \<longrightarrow>
            code = 200
            \<and> findOne (\<lambda>a. a_id a = i) (appointments st')
                = Some (ap \<lparr> a_status := Cancelled, a_isRefunded := True \<rparr>)
            \<and> (if \<not> a_isRefunded ap \<and> jsLess (Finite 0) (cancellationRefund st ap)
                then \<exists>t. transactions st' = transactions st @ [t]
                         \<and> isRefundCredit t ap (cancellationRefund st ap)
                         \<and> balanceOf (a_user ap) st'
                             = map_option (\<lambda>b. jsAdd b (cancellationRefund st ap))
                                 (balanceOf (a_user ap) st)
                else transactions st' = transactions st \<and> wallets st' = wallets st)
            \<and> transactions (fst (updateAppointment ev2 caller i Cancelled st'))
                = transactions st')"
proof -
  have A: "isl res \<longrightarrow> st' = st"
    using assms(5) unfolding updateAppointment_def withTransaction_def
    by (auto split: sum.splits prod.splits)
  from patient_cancel_iff[OF assms(1-4), of ev] assms(5)
  have B: "(\<not> isl res) = cancellationAccepted st ap" by simp
  have C: "\<forall>s. isl (snd (snd (updateAppointment ev caller i Cancelled (withStatus i s st))))
               = isl res"
  proof
    fix s
    from assms(1) have d: "distinct (map a_id (appointments (withStatus i s st)))"
      by (simp only: withStatus_ids)
    have u: "a_user (ap \<lparr> a_status := s \<rparr>) = u_id caller" using assms(4) by simp
    from patient_cancel_iff[OF d findOne_withStatus[OF assms(2)] assms(3) u, of ev] B
    show "isl (snd (snd (updateAppointment ev caller i Cancelled (withStatus i s st)))) = isl res"
      by (simp only: cancellationAccepted_withStatus) blast
  qed
  have D: "\<not> isl res \<longrightarrow>
            code = 200
            \<and> findOne (\<lambda>a. a_id a = i) (appointments st')
                = Some (ap \<lparr> a_status := Cancelled, a_isRefunded := True \<rparr>)
            \<and> (if \<not> a_isRefunded ap \<and> jsLess (Finite 0) (cancellationRefund st ap)
                then \<exists>t. transactions st' = transactions st @ [t]
                         \<and> isRefundCredit t ap (cancellationRefund st ap)
                         \<and> balanceOf (a_user ap) st'
                             = map_option (\<lambda>b. jsAdd b (cancellationRefund st ap))
                                 (balanceOf (a_user ap) st)
                else transactions st' = transactions st \<and> wallets st' = wallets st)
            \<and> transactions (fst (updateAppointment ev2 caller i Cancelled st'))
                = transactions st'"
  proof
    assume ok: "\<not> isl res"
    with assms(5) obtain u where body: "updateBody ev caller i Cancelled st = Inr (st', u)"
      and code: "code = 200"
      unfolding updateAppointment_def withTransaction_def
      by (auto split: sum.splits prod.splits)
    note r = updateBody_cancel_Inr[OF assms(2-4) body]
    from r have f: "findOne (\<lambda>a. a_id a = i) (appointments st')
                = Some (ap \<lparr> a_status := Cancelled, a_isRefunded := True \<rparr>)" by simp
    from r have g: "if \<not> a_isRefunded ap \<and> jsLess (Finite 0) (cancellationRefund st ap)
                then \<exists>t. transactions st' = transactions st @ [t]
                         \<and> isRefundCredit t ap (cancellationRefund st ap)
                         \<and> balanceOf (a_user ap) st'
                             = map_option (\<lambda>b. jsAdd b (cancellationRefund st ap))
                                 (balanceOf (a_user ap) st)
                else transactions st' = transactions st \<and> wallets st' = wallets st" by simp
    have h: "transactions (fst (updateAppointment ev2 caller i Cancelled st')) = transactions st'"
      by (rule updateAppointment_refunded_no_txn[OF f]) simp
    from code f g h show "code = 200
            \<and> findOne (\<lambda>a. a_id a = i) (appointments st')
                = Some (ap \<lparr> a_status := Cancelled, a_isRefunded := True \<rparr>)
            \<and> (if \<not> a_isRefunded ap \<and> jsLess (Finite 0) (cancellationRefund st ap)
                then \<exists>t. transactions st' = transactions st @ [t]
                         \<and> isRefundCredit t ap (cancellationRefund st ap)
                         \<and> balanceOf (a_user ap) st'
                             = map_option (\<lambda>b. jsAdd b (cancellationRefund st ap))
                                 (balanceOf (a_user ap) st)
                else transactions st' = transactions st \<and> wallets st' = wallets st)
            \<and> transactions (fst (updateAppointment ev2 caller i Cancelled st'))
                = transactions st'" by (intro conjI)
  qed
  from A B C D show ?thesis by (intro conjI)
qed

theorem patient_cancellation_witness:
  "findOne (\<lambda>a. a_id a = 100) (appointments dbBooked) = Some apptA
   \<and> cancellationRefund dbBooked apptA = Finite 40
   \<and> cancellationAccepted dbBooked apptA
   \<and> snd (updateAppointment envA patientA 100 Cancelled dbBooked) = (200, Inr ())
   \<and> findOne (\<lambda>a. a_id a = 100)
        (appointments (fst (updateAppointment envA patientA 100 Cancelled dbBooked)))
       = Some (apptA \<lparr> a_status := Cancelled, a_isRefunded := True \<rparr>)
   \<and> balanceOf 1 dbBooked = Some (Finite 50)
   \<and> balanceOf 1 (fst (updateAppointment envA patientA 100 Cancelled dbBooked))
       = Some (Finite 90)
   \<and> length (transactions (fst (updateAppointment envA patientA 100 Cancelled dbBooked)))
       = length (transactions dbBooked) + 1
   \<and> transactions (fst (updateAppointment envA patientA 100 Cancelled
                          (fst (updateAppointment envA patientA 100 Cancelled dbBooked))))
       = transactions (fst (updateAppointment envA patientA 100 Cancelled dbBooked))
   \<and> \<not> isl (snd (snd (updateAppointment envA patientA 100 Cancelled
                          (withStatus 100 NoShow dbBooked))))"
proof -
  let ?s' = "fst (updateAppointment envA patientA 100 Cancelled dbBooked)"
  have d: "distinct (map a_id (appointments dbBooked))" by code_simp
  have f: "findOne (\<lambda>a. a_id a = 100) (appointments dbBooked) = Some apptA" by code_simp
  have r: "cancellationRefund dbBooked apptA = Finite 40" by code_simp
  have p: "u_role patientA = Patient" by code_simp
  have o: "a_user apptA = u_id patientA" by code_simp
  have nr: "\<not> a_isRefunded apptA" by code_simp
  have au: "a_user apptA = 1" by code_simp
  have b: "balanceOf 1 dbBooked = Some (Finite 50)" by code_simp
  have s: "jsAdd (Finite 50) (Finite 40) = Finite 90" by code_simp
  have sn: "snd (updateAppointment envA patientA 100 Cancelled dbBooked) = (200, Inr ())"
    by code_simp
  then have run: "updateAppointment envA patientA 100 Cancelled dbBooked = (?s', 200, Inr ())"
    by (metis prod.collapse)
  note th = patient_cancellation[OF d f p o run, where ?ev2.0 = envA]
  from th have 0: "cancellationAccepted dbBooked apptA" by simp
  from th have 1: "findOne (\<lambda>a. a_id a = 100) (appointments ?s')
       = Some (apptA \<lparr> a_status := Cancelled, a_isRefunded := True \<rparr>)" by simp
  from th nr r au b s have 2: "balanceOf 1 ?s' = Some (Finite 90)"
    and 3: "length (transactions ?s') = length (transactions dbBooked) + 1" by auto
  from th have 4: "transactions (fst (updateAppointment envA patientA 100 Cancelled ?s'))
       = transactions ?s'" by simp
  from th have 5: "\<not> isl (snd (snd (updateAppointment envA patientA 100 Cancelled
                          (withStatus 100 NoShow dbBooked))))" by simp
  from f r 0 sn 1 b 2 3 4 5 show ?thesis by (intro conjI)
qed

theorem patient_cancellation_counterexample:
  "map a_status (appointments dbCompleted) = [Completed]
   \<and> snd (updateAppointment envA patientA 100 Cancelled dbCompleted) = (200, Inr ())
   \<and> map a_status (appointments (fst (updateAppointment envA patientA 100 Cancelled dbCompleted)))
       = [Cancelled]
   \<and> balanceOf 1 dbCompleted = Some (Finite 50)
   \<and> balanceOf 1 (fst (updateAppointment envA patientA 100 Cancelled dbCompleted))
       = Some (Finite 90)
   \<and> map a_cost (appointments dbTenBooked) = [Finite 3]
   \<and> map h_refundPolicyPercentage (hospitals dbTenBooked) = [Finite 10]
   \<and> snd (updateAppointment envA patientA 100 Cancelled dbTenBooked) = (200, Inr ())
   \<and> map t_amount (transactions (fst (updateAppointment envA patientA 100 Cancelled dbTenBooked)))
       = [Finite 3, Finite (5404319552844596 / 18014398509481984)]
   \<and> jsDiv (jsMul (Finite 3) (Finite 10)) (Finite 100)
       = Finite (5404319552844595 / 18014398509481984)
   \<and> (5404319552844596 / 18014398509481984 :: rat) \<noteq> 3 * 10 / 100"
  by code_simp

subsection \<open>Resolving a doctor's cancellation\<close>

text \<open>
  What the handler does: a resolution is accepted only for the patient's own appointment
  while its status is DoctorCancelled and its resolution Pending, and a rejected one
  leaves the store as it was and answers 400. An accepted Refund sets the status to
  Cancelled and the resolution to Refunded and, when the stored cost is positive, records
  one credit of the whole cost (the hospital's refund percentage is not read) and adds it
  to the balance. After an accepted resolution the status is no longer DoctorCancelled,
  so the next attempt is rejected by the status check, which comes before the check of
  the resolution.
\<close>

lemma resolveCancellation_effects:
  assumes "findOne (\<lambda>a. a_id a = i) (appointments st) = Some ap"
    and "resolveCancellation ev caller i rq st = (st', code, res)"
  shows "(isl res \<longrightarrow> st' = st \<and> code = 400)
       \<and> (\<not> isl res \<longrightarrow>
            a_status ap = DoctorCancelled \<and> a_cancellationResolution ap = Pending
            \<and> a_user ap = u_id caller
            \<and> resolveCancellation ev2 caller i rq2 st' = (st', 400, Inl NotCancelledByDoctor))
       \<and> (\<not> isl res \<and> r_action rq = ActRefund \<longrightarrow>
            findOne (\<lambda>a. a_id a = i) (appointments st')
              = Some (ap \<lparr> a_status := Cancelled, a_isRefunded := True,
                           a_cancellationResolution := Refunded \<rparr>)
            \<and> (if jsLess (Finite 0) (a_cost ap)
                then \<exists>t. transactions st' = transactions st @ [t]
                         \<and> isRefundCredit t ap (a_cost ap)
                         \<and> balanceOf (a_user ap) st'
                             = map_option (\<lambda>b. jsAdd b (a_cost ap)) (balanceOf (a_user ap) st)
                else transactions st' = transactions st \<and> wallets st' = wallets st))
       \<and> (a_status ap = DoctorCancelled \<and> a_cancellationResolution ap \<noteq> Pending
            \<and> a_user ap = u_id caller
            \<and> findOne (\<lambda>u. u_id u = u_id caller) (users st) \<noteq> None \<longrightarrow>
            res = Inl ResolutionAlreadyProcessed)"
proof (intro conjI impI)
  assume "isl res"
  with assms(2) show "st' = st" and "code = 400"
    unfolding resolveCancellation_def withTransaction_def
    by (auto split: sum.splits prod.splits)
next
  assume "\<not> isl res"
  with assms(2) obtain u where body: "resolveBody ev caller i rq st = Inr (st', u)"
    unfolding resolveCancellation_def withTransaction_def
    by (auto split: sum.splits prod.splits)
  from resolveBody_Inr[OF assms(1) body] obtain d where
    g: "a_status ap = DoctorCancelled" "a_cancellationResolution ap = Pending"
       "a_user ap = u_id caller" "users st' = users st"
       "findOne (\<lambda>u. u_id u = a_user ap) (users st) \<noteq> None"
    and d: "findOne (\<lambda>a. a_id a = i) (appointments st') = Some d"
           "a_status d \<noteq> DoctorCancelled" "a_user d = a_user ap"
    by blast
  from g show "a_status ap = DoctorCancelled" "a_cancellationResolution ap = Pending"
    "a_user ap = u_id caller" by simp_all
  from g d have "a_user d = u_id caller"
    and "findOne (\<lambda>u. u_id u = u_id caller) (users st') \<noteq> None" by simp_all
  from resolve_not_cancelled[OF d(1) d(2) this]
  show "resolveCancellation ev2 caller i rq2 st' = (st', 400, Inl NotCancelledByDoctor)" .
next
  assume a: "\<not> isl res \<and> r_action rq = ActRefund"
  with assms(2) obtain u where body: "resolveBody ev caller i rq st = Inr (st', u)"
    unfolding resolveCancellation_def withTransaction_def
    by (auto split: sum.splits prod.splits)
  from a have act: "r_action rq = ActRefund" by simp
  note r = resolveBody_refund_Inr[OF assms(1) act body]
  from r show "findOne (\<lambda>a. a_id a = i) (appointments st')
              = Some (ap \<lparr> a_status := Cancelled, a_isRefunded := True,
                           a_cancellationResolution := Refunded \<rparr>)" by simp
  from r show "if jsLess (Finite 0) (a_cost ap)
                then \<exists>t. transactions st' = transactions st @ [t]
                         \<and> isRefundCredit t ap (a_cost ap)
                         \<and> balanceOf (a_user ap) st'
                             = map_option (\<lambda>b. jsAdd b (a_cost ap)) (balanceOf (a_user ap) st)
                else transactions st' = transactions st \<and> wallets st' = wallets st" by simp
next
  assume a: "a_status ap = DoctorCancelled \<and> a_cancellationResolution ap \<noteq> Pending
            \<and> a_user ap = u_id caller
            \<and> findOne (\<lambda>u. u_id u = u_id caller) (users st) \<noteq> None"
  then have "resolveCancellation ev caller i rq st = (st, 400, Inl ResolutionAlreadyProcessed)"
    using resolve_already_processed[OF assms(1)] by blast
  with assms(2) show "res = Inl ResolutionAlreadyProcessed" by simp
qed


text \<open>
  C5. Once a Refund of appointment 100 has been accepted, the same request is answered
  400 with "This appointment is not cancelled by doctor" and not with "Resolution already
  processed": the test of the status stands before the test
  \<open>cancellationResolution !== 'Pending'\<close>, and every accepted resolution leaves a status
  other than DoctorCancelled. When the doctor's cancellation is applied once more to the
  resolved appointment, which that route does not refuse, the resolution is Pending again
  and a second Refund is accepted: the fee of 50 is credited twice, and the balance that
  was 100 before the booking is 150.
\<close>

theorem second_resolution_not_already_processed:
  "map a_status (appointments dbResolved) = [Cancelled]
   \<and> map a_cancellationResolution (appointments dbResolved) = [Refunded]
   \<and> balanceOf 1 dbResolved = Some (Finite 100)
   \<and> resolveCancellation envA patientA 100 refundReq dbResolved
       = (dbResolved, 400, Inl NotCancelledByDoctor)
   \<and> snd (snd (resolveCancellation envA patientA 100 refundReq dbResolved))
       \<noteq> Inl ResolutionAlreadyProcessed
   \<and> map a_status (appointments dbCancelledAgain) = [DoctorCancelled]
   \<and> map a_cancellationResolution (appointments dbCancelledAgain) = [Pending]
   \<and> snd (resolveCancellation envA patientA 100 refundReq dbCancelledAgain) = (200, Inr ())
   \<and> balanceOf 1 (fst (resolveCancellation envA patientA 100 refundReq dbCancelledAgain))
       = Some (Finite 150)
   \<and> map t_transactionType
        (transactions (fst (resolveCancellation envA patientA 100 refundReq dbCancelledAgain)))
       = [AppointmentFee, Refund, Refund]"
  by code_simp

subsection \<open>The next free slot\<close>

text \<open>
  C6. The allocator takes the last of the day's Upcoming appointments in the order of
  their stored time strings, which is not the order of the clock: \<open>''10:00 AM''\<close> sorts
  before \<open>''9:45 AM''\<close>. With the window 09:00 to 15:00 and appointments of 15 minutes
  at 9:45 AM and 10:00 AM, the appointment taken as last is the one at 9:45 AM and the
  answer is 10:00 AM, a slot that is already booked, where the latest booked start plus
  its duration is 10:15 AM.
\<close>

theorem next_slot_uses_string_order:
  "map a_time (existingAppointmentsFor 2 5 ''2026-01-12'' dbS) = [''10:00 AM'', ''9:45 AM'']
   \<and> timeToMinutes ''9:45 AM'' = Inr (Some 585)
   \<and> timeToMinutes ''10:00 AM'' = Inr (Some 600)
   \<and> nextAvailableSlot envA 2 ''2026-01-12'' (Some 7) (Some 5) dbS
        = (200, SlotAvailable ''10:00 AM'' 3)
   \<and> minutesToTime (Some (600 + 15)) = ''10:15 AM''
   \<and> map a_time (upcomingAt 2 ''2026-01-12'' ''10:00 AM'' dbS) = [''10:00 AM'']"
  by code_simp

subsection \<open>One active queue entry for each patient\<close>

text \<open>
  C7. \<open>joinQueue\<close> refuses a patient who has an active entry with any doctor, but
  \<open>checkInAppointment\<close> looks only for an active entry with the appointment's own doctor.
  A patient waiting in the queue of doctor 6 who is checked in for an appointment with
  doctor 2 is accepted and then has two active entries.
\<close>

theorem check_in_ignores_other_queues:
  "map q_doctor (activeEntries 1 dbQueued) = [6]
   \<and> snd (joinQueue envA 1 2 5 dbQueued) = Inl AlreadyInAQueue
   \<and> snd (checkInAppointment envA 100 dbQueued) = Inr ()
   \<and> map q_doctor (activeEntries 1 (fst (checkInAppointment envA 100 dbQueued))) = [6, 2]
   \<and> map q_status (activeEntries 1 (fst (checkInAppointment envA 100 dbQueued)))
        = [Waiting, Waiting]"
  by code_simp

theorem check_in_ignores_other_queues_witness:
  "length (activeEntries 1 (fst (checkInAppointment envA 100 dbQueued))) = 2"
proof -
  have "length (map q_doctor (activeEntries 1 (fst (checkInAppointment envA 100 dbQueued))))
          = length [6 :: nat, 2]"
    using check_in_ignores_other_queues by (simp only:)
  then show ?thesis by simp
qed

subsection \<open>Reminder passes\<close>

lemma sendDoctorReminder_cases:
  "sendDoctorReminder ev a k st = (markReminderSent ev k (a_id a) st, True)
   \<or> sendDoctorReminder ev a k st = (st, False)"
  unfolding sendDoctorReminder_def by (simp split: option.splits)

lemma setReminderFlag_id [simp]: "a_id (setReminderFlag ev k a) = a_id a"
  unfolding setReminderFlag_def by (simp split: reminderType.splits)

lemma setReminderFlag_idem [simp]:
  "setReminderFlag ev k (setReminderFlag ev k a) = setReminderFlag ev k a"
  unfolding setReminderFlag_def by (simp split: reminderType.splits)

lemma setReminderFlag_sent [simp]: "reminderSent k (setReminderFlag ev k a)"
  unfolding setReminderFlag_def reminderSent_def by (simp split: reminderType.splits)

lemma setReminderFlag_sentAt [simp]:
  "reminderSentAt k (setReminderFlag ev k a) = Some (e_now ev)"
  unfolding setReminderFlag_def reminderSentAt_def by (simp split: reminderType.splits)

lemma reminderLoop_step:
  "reminderLoop ev k (x # xs) (st, res)
     = reminderLoop ev k xs (st, res \<lparr> pr_skipped := pr_skipped res + 1 \<rparr>)
   \<or> reminderLoop ev k (x # xs) (st, res)
     = reminderLoop ev k xs (st, res \<lparr> pr_processed := pr_processed res + 1,
                                       pr_failed := pr_failed res + 1 \<rparr>)
   \<or> reminderLoop ev k (x # xs) (st, res)
     = reminderLoop ev k xs (markReminderSent ev k (a_id x) st,
          res \<lparr> pr_processed := pr_processed res + 1, pr_sent := pr_sent res + 1,
                pr_sentIds := pr_sentIds res @ [a_id x] \<rparr>)"
  using sendDoctorReminder_cases[of ev x k st]
  by (auto split: option.splits)

lemma reminderLoop_char:
  "\<exists>ys. pr_sentIds (snd (reminderLoop ev k xs (st, res))) = pr_sentIds res @ ys
        \<and> set ys \<subseteq> a_id ` set xs
        \<and> (distinct (map a_id xs) \<longrightarrow> distinct ys)
        \<and> pr_sent (snd (reminderLoop ev k xs (st, res))) = pr_sent res + length ys
        \<and> appointments (fst (reminderLoop ev k xs (st, res)))
            = map (\<lambda>a. if a_id a \<in> set ys then setReminderFlag ev k a else a) (appointments st)"
proof (induction xs arbitrary: st res)
  case Nil
  show ?case by simp
next
  case (Cons x xs)
  from reminderLoop_step[of ev k x xs st res]
  consider
    (same) res1 where "reminderLoop ev k (x # xs) (st, res) = reminderLoop ev k xs (st, res1)"
      "pr_sentIds res1 = pr_sentIds res" "pr_sent res1 = pr_sent res"
  | (sent) res1 where "reminderLoop ev k (x # xs) (st, res)
        = reminderLoop ev k xs (markReminderSent ev k (a_id x) st, res1)"
      "pr_sentIds res1 = pr_sentIds res @ [a_id x]" "pr_sent res1 = pr_sent res + 1"
    by (elim disjE) simp_all
  then show ?case
  proof cases
    case same
    from Cons.IH[of st res1] obtain ys where
      ys: "pr_sentIds (snd (reminderLoop ev k xs (st, res1))) = pr_sentIds res1 @ ys"
        "set ys \<subseteq> a_id ` set xs" "distinct (map a_id xs) \<longrightarrow> distinct ys"
        "pr_sent (snd (reminderLoop ev k xs (st, res1))) = pr_sent res1 + length ys"
        "appointments (fst (reminderLoop ev k xs (st, res1)))
            = map (\<lambda>a. if a_id a \<in> set ys then setReminderFlag ev k a else a) (appointments st)"
      by blast
    show ?thesis
      apply (rule exI[of _ ys])
      unfolding same(1) using ys same(2,3) by auto
  next
    case sent
    let ?st1 = "markReminderSent ev k (a_id x) st"
    from Cons.IH[of ?st1 res1] obtain ys where
      ys: "pr_sentIds (snd (reminderLoop ev k xs (?st1, res1))) = pr_sentIds res1 @ ys"
        "set ys \<subseteq> a_id ` set xs" "distinct (map a_id xs) \<longrightarrow> distinct ys"
        "pr_sent (snd (reminderLoop ev k xs (?st1, res1))) = pr_sent res1 + length ys"
        "appointments (fst (reminderLoop ev k xs (?st1, res1)))
            = map (\<lambda>a. if a_id a \<in> set ys then setReminderFlag ev k a else a) (appointments ?st1)"
      by blast
    have ap: "map (\<lambda>a. if a_id a \<in> set ys then setReminderFlag ev k a else a) (appointments ?st1)
        = map (\<lambda>a. if a_id a \<in> set (a_id x # ys) then setReminderFlag ev k a else a)
            (appointments st)"
      unfolding markReminderSent_def updateWhere_def by simp
    show ?thesis
      apply (rule exI[of _ "a_id x # ys"])
      unfolding sent(1) using ys(1-4) sent(2,3) ap ys(5) by auto
  qed
qed

lemma distinct_ids_eq:
  assumes "distinct (map f xs)" and "x \<in> set xs" and "y \<in> set xs" and "f x = f y"
  shows "x = y"
proof -
  from assms(1) have "inj_on f (set xs)" by (simp add: distinct_map)
  from inj_onD[OF this assms(4) assms(2) assms(3)] show ?thesis .
qed

lemma mem_map: "x \<in> set xs \<Longrightarrow> f x \<in> set (map f xs)"
  by simp

lemma processReminders_char:
  assumes "distinct (map a_id (appointments st))"
    and "processReminders ev k st = (st', r)"
  shows "distinct (pr_sentIds r)
       \<and> set (pr_sentIds r) \<subseteq> a_id ` set (reminderCandidates k st)
       \<and> pr_sent r = length (pr_sentIds r)
       \<and> appointments st'
            = map (\<lambda>a. if a_id a \<in> set (pr_sentIds r) then setReminderFlag ev k a else a)
                (appointments st)"
proof -
  let ?c = "reminderCandidates k st"
  let ?init = "\<lparr> pr_total = length ?c, pr_processed = 0, pr_sent = 0,
                  pr_failed = 0, pr_skipped = 0, pr_sentIds = [] \<rparr>"
  from assms(2) have run: "reminderLoop ev k ?c (st, ?init) = (st', r)"
    unfolding processReminders_def by (simp add: Let_def)
  have dc: "distinct (map a_id ?c)"
    unfolding reminderCandidates_def using assms(1) by (rule distinct_map_filter)
  from reminderLoop_char[of ev k ?c st ?init] obtain ys where
    ys: "pr_sentIds (snd (reminderLoop ev k ?c (st, ?init))) = pr_sentIds ?init @ ys"
      "set ys \<subseteq> a_id ` set ?c" "distinct (map a_id ?c) \<longrightarrow> distinct ys"
      "pr_sent (snd (reminderLoop ev k ?c (st, ?init))) = pr_sent ?init + length ys"
      "appointments (fst (reminderLoop ev k ?c (st, ?init)))
          = map (\<lambda>a. if a_id a \<in> set ys then setReminderFlag ev k a else a) (appointments st)"
    by blast
  from ys(1) run have e: "pr_sentIds r = ys" by simp
  from ys(4) run have n: "pr_sent r = length ys" by simp
  from ys(5) run have a: "appointments st'
      = map (\<lambda>a. if a_id a \<in> set ys then setReminderFlag ev k a else a) (appointments st)"
    by simp
  from e n a ys(2) ys(3) dc show ?thesis by simp
qed

lemma flagged_ids:
  "map a_id (map (\<lambda>a. if a_id a \<in> S then setReminderFlag ev k a else a) xs) = map a_id xs"
  by (induction xs) simp_all

lemma candidates_unsent:
  "a \<in> set (reminderCandidates k st) \<Longrightarrow> a \<in> set (appointments st) \<and> \<not> reminderSent k a"
  unfolding reminderCandidates_def by simp

lemma processReminders_sent_flagged:
  assumes "distinct (map a_id (appointments st))"
    and "processReminders ev k st = (st', r)"
    and "i \<in> set (pr_sentIds r)"
  shows "\<exists>a \<in> set (appointments st'). a_id a = i \<and> reminderSent k a
           \<and> reminderSentAt k a = Some (e_now ev)"
proof -
  note c = processReminders_char[OF assms(1,2)]
  from c assms(3) obtain a0 where a0: "a0 \<in> set (reminderCandidates k st)" "a_id a0 = i"
    by auto
  from candidates_unsent[OF a0(1)] have m: "a0 \<in> set (appointments st)" by simp
  let ?g = "\<lambda>a. if a_id a \<in> set (pr_sentIds r) then setReminderFlag ev k a else a"
  from c have ap: "appointments st' = map ?g (appointments st)" by simp
  from mem_map[OF m, of ?g] have "?g a0 \<in> set (map ?g (appointments st))" .
  with ap have "?g a0 \<in> set (appointments st')" by simp
  moreover from a0(2) assms(3) have "?g a0 = setReminderFlag ev k a0" by simp
  ultimately have "setReminderFlag ev k a0 \<in> set (appointments st')" by simp
  moreover have "a_id (setReminderFlag ev k a0) = i" using a0(2) by simp
  ultimately show ?thesis
    using setReminderFlag_sent setReminderFlag_sentAt by blast
qed

lemma processReminders_flagged_untouched:
  assumes "distinct (map a_id (appointments st))"
    and "processReminders ev k st = (st', r)"
    and "a \<in> set (appointments st)" and "reminderSent k a"
  shows "a \<notin> set (reminderCandidates k st) \<and> a_id a \<notin> set (pr_sentIds r)
         \<and> a \<in> set (appointments st')"
proof -
  note c = processReminders_char[OF assms(1,2)]
  from assms(4) candidates_unsent have 1: "a \<notin> set (reminderCandidates k st)" by blast
  have 2: "a_id a \<notin> set (pr_sentIds r)"
  proof
    assume "a_id a \<in> set (pr_sentIds r)"
    with c obtain b where b: "b \<in> set (reminderCandidates k st)" "a_id b = a_id a" by auto
    from candidates_unsent[OF b(1)] have bm: "b \<in> set (appointments st)" by simp
    from distinct_ids_eq[OF assms(1) bm assms(3) b(2)] have "b = a" .
    with b(1) 1 show False by simp
  qed
  let ?g = "\<lambda>a. if a_id a \<in> set (pr_sentIds r) then setReminderFlag ev k a else a"
  from c have ap: "appointments st' = map ?g (appointments st)" by simp
  from mem_map[OF assms(3), of ?g] have "?g a \<in> set (map ?g (appointments st))" .
  with ap 2 have 3: "a \<in> set (appointments st')" by simp
  from 1 2 3 show ?thesis by simp
qed

text \<open>
  C9. Two passes of one reminder class, one right after the other, on a store whose
  appointment ids are distinct. Every identifier occurs at most once among the reminders
  sent by the two passes together, and the passes count exactly those sends. An
  appointment whose reminder was sent carries the flag of the class and the time of its
  pass as timestamp in the store the pass leaves. An appointment whose flag is set is not
  among the candidates of the next pass, gets no reminder from it and is left as it is.
  \<open>process24HourReminders\<close> and \<open>process1HourReminders\<close> are \<open>processReminders\<close> at
  \<open>R24h\<close> and \<open>R1h\<close>.
\<close>

theorem reminder_passes_idempotent:
  assumes "distinct (map a_id (appointments st))"
    and "processReminders ev1 k st = (st1, r1)"
    and "processReminders ev2 k st1 = (st2, r2)"
  shows "distinct (pr_sentIds r1 @ pr_sentIds r2)
       \<and> pr_sent r1 = length (pr_sentIds r1) \<and> pr_sent r2 = length (pr_sentIds r2)
       \<and> set (pr_sentIds r1) \<subseteq> a_id ` set (reminderCandidates k st)
       \<and> set (pr_sentIds r2) \<subseteq> a_id ` set (reminderCandidates k st1)
       \<and> (\<forall>i \<in> set (pr_sentIds r1). \<exists>a \<in> set (appointments st1).
             a_id a = i \<and> reminderSent k a \<and> reminderSentAt k a = Some (e_now ev1))
       \<and> (\<forall>i \<in> set (pr_sentIds r2). \<exists>a \<in> set (appointments st2).
             a_id a = i \<and> reminderSent k a \<and> reminderSentAt k a = Some (e_now ev2))
       \<and> (\<forall>a \<in> set (appointments st1). reminderSent k a \<longrightarrow>
             a \<notin> set (reminderCandidates k st1) \<and> a_id a \<notin> set (pr_sentIds r2)
             \<and> a \<in> set (appointments st2))"
proof -
  note c1 = processReminders_char[OF assms(1,2)]
  from c1 have "map a_id (appointments st1) = map a_id (appointments st)"
    by (simp only: flagged_ids)
  with assms(1) have d1: "distinct (map a_id (appointments st1))" by simp
  note c2 = processReminders_char[OF d1 assms(3)]
  note f1 = processReminders_sent_flagged[OF assms(1,2)]
  note f2 = processReminders_sent_flagged[OF d1 assms(3)]
  note u = processReminders_flagged_untouched[OF d1 assms(3)]
  have disj: "set (pr_sentIds r1) \<inter> set (pr_sentIds r2) = {}"
  proof (rule ccontr)
    assume "set (pr_sentIds r1) \<inter> set (pr_sentIds r2) \<noteq> {}"
    then obtain i where i: "i \<in> set (pr_sentIds r1)" "i \<in> set (pr_sentIds r2)" by blast
    from f1[OF i(1)] obtain a where a: "a \<in> set (appointments st1)" "a_id a = i"
      "reminderSent k a" by blast
    from u[OF a(1) a(3)] a(2) i(2) show False by simp
  qed
  from c1 c2 disj have A: "distinct (pr_sentIds r1 @ pr_sentIds r2)" by simp
  from c1 have B: "pr_sent r1 = length (pr_sentIds r1)"
    "set (pr_sentIds r1) \<subseteq> a_id ` set (reminderCandidates k st)" by simp_all
  from c2 have C: "pr_sent r2 = length (pr_sentIds r2)"
    "set (pr_sentIds r2) \<subseteq> a_id ` set (reminderCandidates k st1)" by simp_all
  from f1 have D: "\<forall>i \<in> set (pr_sentIds r1). \<exists>a \<in> set (appointments st1).
             a_id a = i \<and> reminderSent k a \<and> reminderSentAt k a = Some (e_now ev1)" by blast
  from f2 have E: "\<forall>i \<in> set (pr_sentIds r2). \<exists>a \<in> set (appointments st2).
             a_id a = i \<and> reminderSent k a \<and> reminderSentAt k a = Some (e_now ev2)" by blast
  from u have F: "\<forall>a \<in> set (appointments st1). reminderSent k a \<longrightarrow>
             a \<notin> set (reminderCandidates k st1) \<and> a_id a \<notin> set (pr_sentIds r2)
             \<and> a \<in> set (appointments st2)" by blast
  from A B C D E F show ?thesis by (intro conjI)
qed

theorem reminder_passes_idempotent_witness:
  "distinct (map a_id (appointments dbBooked))
   \<and> pr_sentIds (snd (process24HourReminders envR dbBooked)) = [100]
   \<and> pr_sentIds (snd (process24HourReminders envR2
        (fst (process24HourReminders envR dbBooked)))) = []
   \<and> distinct (pr_sentIds (snd (process24HourReminders envR dbBooked))
        @ pr_sentIds (snd (process24HourReminders envR2
            (fst (process24HourReminders envR dbBooked)))))
   \<and> map (reminderSentAt R24h) (appointments (fst (process24HourReminders envR dbBooked)))
        = [Some 1000]
   \<and> appointments (fst (process24HourReminders envR2
        (fst (process24HourReminders envR dbBooked))))
        = appointments (fst (process24HourReminders envR dbBooked))"
proof -
  let ?p1 = "processReminders envR R24h dbBooked"
  let ?p2 = "processReminders envR2 R24h (fst ?p1)"
  have d: "distinct (map a_id (appointments dbBooked))" by code_simp
  have s1: "pr_sentIds (snd ?p1) = [100]" by code_simp
  have s2: "pr_sentIds (snd ?p2) = []" by code_simp
  have t: "map (reminderSentAt R24h) (appointments (fst ?p1)) = [Some 1000]" by code_simp
  have e: "appointments (fst ?p2) = appointments (fst ?p1)" by code_simp
  have "distinct (pr_sentIds (snd ?p1) @ pr_sentIds (snd ?p2))"
    using reminder_passes_idempotent[OF d, of envR R24h "fst ?p1" "snd ?p1" envR2
            "fst ?p2" "snd ?p2"]
    by simp
  with d s1 s2 t e show ?thesis unfolding process24HourReminders_def by simp
qed

subsection \<open>Calling the next patient\<close>

lemma find_id_distinct:
  "distinct (map f xs) \<Longrightarrow> x \<in> set xs \<Longrightarrow> List.find (\<lambda>y. f y = f x) xs = Some x"
proof (induction xs)
  case Nil
  then show ?case by simp
next
  case (Cons a xs)
  show ?case
  proof (cases "a = x")
    case True
    then show ?thesis by simp
  next
    case False
    with Cons.prems have m: "x \<in> set xs" by simp
    from Cons.prems have "f a \<notin> f ` set xs" by simp
    with m have "f a \<noteq> f x" by (metis imageI)
    with Cons.IH[OF _ m] Cons.prems show ?thesis by simp
  qed
qed

lemma find_updateWhere_hit:
  "List.find (\<lambda>y. f y = i) xs = Some x \<Longrightarrow> (\<And>y. f (g y) = f y) \<Longrightarrow>
   List.find (\<lambda>y. f y = i) (updateWhere (\<lambda>y. f y = i) g xs) = Some (g x)"
  unfolding updateWhere_def by (induction xs) (auto split: if_splits)

lemma find_updateWhere_miss:
  "i \<noteq> j \<Longrightarrow> (\<And>y. f (g y) = f y) \<Longrightarrow>
   List.find (\<lambda>y. f y = i) (updateWhere (\<lambda>y. f y = j) g xs) = List.find (\<lambda>y. f y = i) xs"
  unfolding updateWhere_def by (induction xs) auto

lemma filter_updateWhere_out:
  "(\<forall>y \<in> set xs. f y = i \<longrightarrow> \<not> P (g y)) \<Longrightarrow>
   filter P (updateWhere (\<lambda>y. f y = i) g xs) = filter (\<lambda>y. P y \<and> f y \<noteq> i) xs"
  unfolding updateWhere_def by (induction xs) auto

lemma find_Some_mem: "List.find P xs = Some x \<Longrightarrow> x \<in> set xs \<and> P x"
  by (auto simp: find_Some_iff)

lemma map_id_updateWhere:
  "(\<And>y. f (g y) = f y) \<Longrightarrow> map f (updateWhere p g xs) = map f xs"
  unfolding updateWhere_def by (induction xs) auto

lemma finishCurrent_queueItems:
  "queueItems (finishCurrent ev d st)
     = (case findOne (\<lambda>q. q_doctor q = d \<and> q_status q = Serving) (queueItems st) of
          None \<Rightarrow> queueItems st
        | Some c \<Rightarrow> updateWhere (\<lambda>q. q_id q = q_id c) (\<lambda>q. q \<lparr> q_status := Done \<rparr>)
                      (queueItems st))"
  unfolding finishCurrent_def by (simp add: Let_def split: option.splits)

lemma finishCurrent_appointments:
  "appointments (finishCurrent ev d st)
     = (case findOne (\<lambda>q. q_doctor q = d \<and> q_status q = Serving) (queueItems st) of
          None \<Rightarrow> appointments st
        | Some c \<Rightarrow>
            (case q_user c of
               None \<Rightarrow> appointments st
             | Some p \<Rightarrow>
                 updateFirst (\<lambda>a. a_user a = p \<and> a_doctor a = d \<and> a_status a = Upcoming
                                  \<and> a_date a = e_todayUTC ev)
                   (\<lambda>a. a \<lparr> a_status := Completed \<rparr>) (appointments st)))"
  unfolding finishCurrent_def by (simp add: Let_def split: option.splits)

lemma finishCurrent_notifications:
  "notifications (finishCurrent ev d st) = notifications st"
  unfolding finishCurrent_def by (simp add: Let_def split: option.splits)

lemma finishCurrent_ids:
  "map q_id (queueItems (finishCurrent ev d st)) = map q_id (queueItems st)"
  unfolding finishCurrent_queueItems by (simp add: map_id_updateWhere split: option.splits)

lemma finishCurrent_waiting:
  assumes "distinct (map q_id (queueItems st))"
  shows "filter (\<lambda>q. q_doctor q = d \<and> q_status q = Waiting) (queueItems (finishCurrent ev d st))
       = filter (\<lambda>q. q_doctor q = d \<and> q_status q = Waiting) (queueItems st)"
proof (cases "findOne (\<lambda>q. q_doctor q = d \<and> q_status q = Serving) (queueItems st)")
  case None
  then show ?thesis by (simp add: finishCurrent_queueItems)
next
  case (Some c)
  let ?P = "\<lambda>q. q_doctor q = d \<and> q_status q = Waiting"
  from Some have c: "c \<in> set (queueItems st)" "q_status c = Serving"
    unfolding findOne_def using find_Some_mem by fastforce+
  have same: "y = c" if "y \<in> set (queueItems st)" "q_id y = q_id c" for y
  proof -
    from assms have "inj_on q_id (set (queueItems st))" by (simp add: distinct_map)
    from inj_onD[OF this that(2) that(1) c(1)] show ?thesis .
  qed
  have "filter ?P (updateWhere (\<lambda>q. q_id q = q_id c) (\<lambda>q. q \<lparr> q_status := Done \<rparr>) (queueItems st))
      = filter (\<lambda>y. ?P y \<and> q_id y \<noteq> q_id c) (queueItems st)"
    by (rule filter_updateWhere_out) simp
  also have "\<dots> = filter ?P (queueItems st)"
  proof (rule filter_cong[OF refl])
    fix y assume "y \<in> set (queueItems st)"
    with same[of y] c(2) show "(?P y \<and> q_id y \<noteq> q_id c) = ?P y" by auto
  qed
  finally show ?thesis using Some by (simp add: finishCurrent_queueItems)
qed

lemma finishCurrent_waitingLine:
  "distinct (map q_id (queueItems st)) \<Longrightarrow>
   waitingLine d (finishCurrent ev d st) = waitingLine d st"
  unfolding waitingLine_def by (simp only: finishCurrent_waiting)

lemma waitingLine_head:
  assumes "distinct (map q_id (queueItems st))" and "waitingLine d st = n # rest"
  shows "n \<in> set (queueItems st) \<and> q_doctor n = d \<and> q_status n = Waiting
       \<and> (\<forall>q \<in> set (queueItems st). q_doctor q = d \<and> q_status q = Waiting \<longrightarrow>
             q_checkInTime n \<le> q_checkInTime q)
       \<and> (\<forall>q \<in> set rest. q_id q \<noteq> q_id n)"
proof -
  let ?P = "\<lambda>q. q_doctor q = d \<and> q_status q = Waiting"
  let ?w = "filter ?P (queueItems st)"
  from assms(2) have w: "sort_key q_checkInTime ?w = n # rest" by (simp add: waitingLine_def)
  have "set (sort_key q_checkInTime ?w) = set ?w" by simp
  with w have s: "insert n (set rest) = set ?w" by simp
  then have n: "n \<in> set (queueItems st)" "q_doctor n = d" "q_status n = Waiting" by auto
  have "sorted (map q_checkInTime (sort_key q_checkInTime ?w))" by (rule sorted_sort_key)
  with w have "\<forall>q \<in> set rest. q_checkInTime n \<le> q_checkInTime q" by simp
  with s have le: "\<forall>q \<in> set ?w. q_checkInTime n \<le> q_checkInTime q" by auto
  from assms(1) have di: "distinct (queueItems st)" by (simp add: distinct_map)
  then have "distinct (sort_key q_checkInTime ?w)" by simp
  with w have nr: "n \<notin> set rest" by simp
  have ids: "\<forall>q \<in> set rest. q_id q \<noteq> q_id n"
  proof
    fix q assume q: "q \<in> set rest"
    with s have qm: "q \<in> set (queueItems st)" by auto
    show "q_id q \<noteq> q_id n"
    proof
      assume "q_id q = q_id n"
      from distinct_ids_eq[OF assms(1) qm n(1) this] q nr show False by simp
    qed
  qed
  from n le ids show ?thesis by simp
qed

lemma promoteNext_Nil:
  "waitingLine d st = [] \<Longrightarrow> promoteNext d st = (st, None)"
  unfolding promoteNext_def firstOf_def by simp

lemma promoteNext_Cons:
  "waitingLine d st = n # rest \<Longrightarrow>
   promoteNext d st
     = (st \<lparr> queueItems := updateWhere (\<lambda>q. q_id q = q_id n) (\<lambda>q. q \<lparr> q_status := Serving \<rparr>)
                              (queueItems st) \<rparr>,
        Some (n \<lparr> q_status := Serving \<rparr>))"
  unfolding promoteNext_def firstOf_def by simp

lemma promoteNext_waitingLine:
  assumes "distinct (map q_id (queueItems st))" and "waitingLine d st = n # rest"
  shows "waitingLine d (fst (promoteNext d st)) = rest"
proof -
  let ?P = "\<lambda>q. q_doctor q = d \<and> q_status q = Waiting"
  let ?Q = "\<lambda>q. q_id q \<noteq> q_id n"
  note h = waitingLine_head[OF assms]
  have "filter ?P (updateWhere (\<lambda>q. q_id q = q_id n) (\<lambda>q. q \<lparr> q_status := Serving \<rparr>)
                    (queueItems st))
      = filter (\<lambda>y. ?P y \<and> ?Q y) (queueItems st)"
    by (rule filter_updateWhere_out) simp
  also have "\<dots> = filter ?Q (filter ?P (queueItems st))"
    by (simp add: conj_commute)
  finally have "waitingLine d (fst (promoteNext d st))
      = sort_key q_checkInTime (filter ?Q (filter ?P (queueItems st)))"
    unfolding promoteNext_Cons[OF assms(2)] waitingLine_def by simp
  also have "\<dots> = filter ?Q (sort_key q_checkInTime (filter ?P (queueItems st)))"
    by (simp only: filter_sort)
  also have "\<dots> = filter ?Q (n # rest)"
    using assms(2) by (simp add: waitingLine_def)
  also have "\<dots> = rest" using h by simp
  finally show ?thesis .
qed

lemma callNextPatient_parts:
  "callNextPatient ev d st
     = (notifyUpNext ev d (fst (promoteNext d (finishCurrent ev d st))),
        snd (promoteNext d (finishCurrent ev d st)))"
  by (simp add: callNextPatient_def Let_def split: prod.splits)

lemma notifyUpNext_fields:
  "queueItems (notifyUpNext ev d st) = queueItems st"
  "appointments (notifyUpNext ev d st) = appointments st"
  unfolding notifyUpNext_def by (simp_all split: option.splits)

lemma notifyUpNext_waitingLine: "waitingLine d' (notifyUpNext ev d st) = waitingLine d' st"
  unfolding waitingLine_def by (simp add: notifyUpNext_fields)

lemma notifyUpNext_notifications:
  "notifications (notifyUpNext ev d st)
     = notifications st @
         (case firstOf (waitingLine d st) of
            None \<Rightarrow> []
          | Some upNext \<Rightarrow>
              (case q_user upNext of
                 None \<Rightarrow> []
               | Some p \<Rightarrow> if e_notificationSaved ev
                           then [\<lparr> n_user = p, n_type = ''system'' \<rparr>] else []))"
  unfolding notifyUpNext_def createNotification_def validNotificationType_def
  by (simp split: option.splits)

lemma promoteNext_fields:
  "appointments (fst (promoteNext d st)) = appointments st"
  "notifications (fst (promoteNext d st)) = notifications st"
  unfolding promoteNext_def by (simp_all split: option.splits)

lemma finishCurrent_env:
  "finishCurrent (ev \<lparr> e_notificationSaved := b \<rparr>) d st = finishCurrent ev d st"
  unfolding finishCurrent_def by (auto simp: Let_def split: option.splits)

lemma updateFirst_mem: "List.find p xs = Some a \<Longrightarrow> f a \<in> set (updateFirst p f xs)"
  unfolding updateFirst_def by (induction xs) (auto split: if_splits)

lemma callNext_serving_done:
  assumes d: "distinct (map q_id (queueItems st))"
    and c: "findOne (\<lambda>q. q_doctor q = dr \<and> q_status q = Serving) (queueItems st) = Some c"
  shows "findOne (\<lambda>q. q_id q = q_id c)
           (queueItems (fst (promoteNext dr (finishCurrent ev dr st))))
         = Some (c \<lparr> q_status := Done \<rparr>)"
proof -
  let ?st1 = "finishCurrent ev dr st"
  from c have cm: "c \<in> set (queueItems st)" "q_status c = Serving"
    unfolding findOne_def using find_Some_mem by fastforce+
  from find_id_distinct[OF d cm(1)]
  have "List.find (\<lambda>y. q_id y = q_id c) (queueItems st) = Some c" .
  from find_updateWhere_hit[OF this, where g = "\<lambda>q. q \<lparr> q_status := Done \<rparr>"]
  have f1: "List.find (\<lambda>y. q_id y = q_id c) (queueItems ?st1) = Some (c \<lparr> q_status := Done \<rparr>)"
    using c by (simp add: finishCurrent_queueItems)
  show ?thesis
  proof (cases "waitingLine dr ?st1")
    case Nil
    from promoteNext_Nil[OF Nil] f1 show ?thesis by (simp add: findOne_def)
  next
    case (Cons n rest)
    from Cons finishCurrent_waitingLine[OF d, of dr ev]
    have w: "waitingLine dr st = n # rest" by simp
    from waitingLine_head[OF d w] have n: "n \<in> set (queueItems st)" "q_status n = Waiting"
      by simp_all
    have ne: "q_id c \<noteq> q_id n"
    proof
      assume "q_id c = q_id n"
      from distinct_ids_eq[OF d cm(1) n(1) this] cm(2) n(2) show False by simp
    qed
    from find_updateWhere_miss[where f = q_id and g = "\<lambda>q. q \<lparr> q_status := Serving \<rparr>"
      and xs = "queueItems ?st1", OF ne] f1
    show ?thesis unfolding promoteNext_Cons[OF Cons] by (simp add: findOne_def)
  qed
qed

lemma callNext_promoted:
  assumes d: "distinct (map q_id (queueItems st))"
    and w: "waitingLine dr st = n # rest"
  shows "findOne (\<lambda>q. q_id q = q_id n)
           (queueItems (fst (promoteNext dr (finishCurrent ev dr st))))
         = Some (n \<lparr> q_status := Serving \<rparr>)"
proof -
  let ?st1 = "finishCurrent ev dr st"
  from d have d1: "distinct (map q_id (queueItems ?st1))" by (simp add: finishCurrent_ids)
  from w finishCurrent_waitingLine[OF d, of dr ev]
  have w1: "waitingLine dr ?st1 = n # rest" by simp
  from waitingLine_head[OF d1 w1] have "n \<in> set (queueItems ?st1)" by simp
  from find_id_distinct[OF d1 this]
  have "List.find (\<lambda>y. q_id y = q_id n) (queueItems ?st1) = Some n" .
  from find_updateWhere_hit[OF this, where g = "\<lambda>q. q \<lparr> q_status := Serving \<rparr>"]
  show ?thesis unfolding promoteNext_Cons[OF w1] by (simp add: findOne_def)
qed

lemma callNext_waitingLine:
  assumes d: "distinct (map q_id (queueItems st))"
  shows "waitingLine dr (fst (promoteNext dr (finishCurrent ev dr st))) = tl (waitingLine dr st)"
proof -
  let ?st1 = "finishCurrent ev dr st"
  from d have d1: "distinct (map q_id (queueItems ?st1))" by (simp add: finishCurrent_ids)
  note w = finishCurrent_waitingLine[OF d, of dr ev]
  show ?thesis
  proof (cases "waitingLine dr ?st1")
    case Nil
    from promoteNext_Nil[OF Nil] Nil w show ?thesis by simp
  next
    case (Cons n rest)
    from promoteNext_waitingLine[OF d1 Cons] Cons w show ?thesis by simp
  qed
qed

lemma callNext_result:
  assumes d: "distinct (map q_id (queueItems st))"
  shows "snd (promoteNext dr (finishCurrent ev dr st))
       = map_option (\<lambda>q. q \<lparr> q_status := Serving \<rparr>) (firstOf (waitingLine dr st))"
  unfolding promoteNext_def finishCurrent_waitingLine[OF d]
  by (simp split: option.splits)

text \<open>
  C8. On a store whose queue entries have distinct ids, \<open>callNextPatient\<close> always returns,
  and in the store it leaves: the doctor's Serving entry, if there was one, is Done, and
  when it names a registered patient the first of that patient's Upcoming appointments with
  the doctor dated today (the UTC date the code computes) is Completed, the appointments
  being untouched otherwise; the entry returned is the doctor's Waiting entry with the
  least \<open>checkInTime\<close>, now Serving, or nothing when no entry waits; the waiting line is
  the former one without its head; one notification of type system is written for the new
  head of the line when it names a registered patient and the write succeeds; and whether
  the write succeeds changes neither the queue, nor the appointments, nor the result.
\<close>

theorem call_next_patient:
  assumes "distinct (map q_id (queueItems st))"
    and "callNextPatient ev dr st = (st', nextPatient)"
  shows "(\<forall>c. findOne (\<lambda>q. q_doctor q = dr \<and> q_status q = Serving) (queueItems st) = Some c \<longrightarrow>
            findOne (\<lambda>q. q_id q = q_id c) (queueItems st') = Some (c \<lparr> q_status := Done \<rparr>)
            \<and> appointments st'
                = (case q_user c of
                     None \<Rightarrow> appointments st
                   | Some p \<Rightarrow>
                       updateFirst (\<lambda>a. a_user a = p \<and> a_doctor a = dr \<and> a_status a = Upcoming
                                        \<and> a_date a = e_todayUTC ev)
                         (\<lambda>a. a \<lparr> a_status := Completed \<rparr>) (appointments st))
            \<and> (\<forall>p a. q_user c = Some p
                  \<and> findOne (\<lambda>a. a_user a = p \<and> a_doctor a = dr \<and> a_status a = Upcoming
                                  \<and> a_date a = e_todayUTC ev) (appointments st) = Some a \<longrightarrow>
                  a \<lparr> a_status := Completed \<rparr> \<in> set (appointments st')))
       \<and> (findOne (\<lambda>q. q_doctor q = dr \<and> q_status q = Serving) (queueItems st) = None \<longrightarrow>
            appointments st' = appointments st)
       \<and> nextPatient = map_option (\<lambda>q. q \<lparr> q_status := Serving \<rparr>) (firstOf (waitingLine dr st))
       \<and> (\<forall>n. firstOf (waitingLine dr st) = Some n \<longrightarrow>
            n \<in> set (queueItems st) \<and> q_doctor n = dr \<and> q_status n = Waiting
            \<and> (\<forall>q \<in> set (queueItems st). q_doctor q = dr \<and> q_status q = Waiting \<longrightarrow>
                  q_checkInTime n \<le> q_checkInTime q)
            \<and> findOne (\<lambda>q. q_id q = q_id n) (queueItems st') = Some (n \<lparr> q_status := Serving \<rparr>))
       \<and> (firstOf (waitingLine dr st) = None \<longrightarrow>
            (\<forall>q \<in> set (queueItems st). \<not> (q_doctor q = dr \<and> q_status q = Waiting)))
       \<and> waitingLine dr st' = tl (waitingLine dr st)
       \<and> notifications st'
            = notifications st @
                (case firstOf (waitingLine dr st') of
                   None \<Rightarrow> []
                 | Some upNext \<Rightarrow>
                     (case q_user upNext of
                        None \<Rightarrow> []
                      | Some p \<Rightarrow> if e_notificationSaved ev
                                  then [\<lparr> n_user = p, n_type = ''system'' \<rparr>] else []))
       \<and> (\<forall>b. snd (callNextPatient (ev \<lparr> e_notificationSaved := b \<rparr>) dr st) = nextPatient
              \<and> queueItems (fst (callNextPatient (ev \<lparr> e_notificationSaved := b \<rparr>) dr st))
                  = queueItems st'
              \<and> appointments (fst (callNextPatient (ev \<lparr> e_notificationSaved := b \<rparr>) dr st))
                  = appointments st')"
proof -
  let ?st1 = "finishCurrent ev dr st"
  let ?st2 = "fst (promoteNext dr ?st1)"
  note d = assms(1)
  from assms(2) have st': "st' = notifyUpNext ev dr ?st2"
    and np: "nextPatient = snd (promoteNext dr ?st1)"
    by (simp_all add: callNextPatient_parts)
  have q': "queueItems st' = queueItems ?st2" unfolding st' by (simp add: notifyUpNext_fields)
  have a': "appointments st' = appointments ?st1"
    unfolding st' by (simp add: notifyUpNext_fields promoteNext_fields)
  have w': "waitingLine dr st' = tl (waitingLine dr st)"
    unfolding st' by (simp add: notifyUpNext_waitingLine callNext_waitingLine[OF d])
  have A: "\<forall>c. findOne (\<lambda>q. q_doctor q = dr \<and> q_status q = Serving) (queueItems st) = Some c \<longrightarrow>
            findOne (\<lambda>q. q_id q = q_id c) (queueItems st') = Some (c \<lparr> q_status := Done \<rparr>)
            \<and> appointments st'
                = (case q_user c of
                     None \<Rightarrow> appointments st
                   | Some p \<Rightarrow>
                       updateFirst (\<lambda>a. a_user a = p \<and> a_doctor a = dr \<and> a_status a = Upcoming
                                        \<and> a_date a = e_todayUTC ev)
                         (\<lambda>a. a \<lparr> a_status := Completed \<rparr>) (appointments st))
            \<and> (\<forall>p a. q_user c = Some p
                  \<and> findOne (\<lambda>a. a_user a = p \<and> a_doctor a = dr \<and> a_status a = Upcoming
                                  \<and> a_date a = e_todayUTC ev) (appointments st) = Some a \<longrightarrow>
                  a \<lparr> a_status := Completed \<rparr> \<in> set (appointments st'))"
  proof (intro allI impI)
    fix c
    assume c: "findOne (\<lambda>q. q_doctor q = dr \<and> q_status q = Serving) (queueItems st) = Some c"
    from callNext_serving_done[OF d c, of ev]
    have 1: "findOne (\<lambda>q. q_id q = q_id c) (queueItems st') = Some (c \<lparr> q_status := Done \<rparr>)"
      unfolding q' .
    have 2: "appointments st'
                = (case q_user c of
                     None \<Rightarrow> appointments st
                   | Some p \<Rightarrow>
                       updateFirst (\<lambda>a. a_user a = p \<and> a_doctor a = dr \<and> a_status a = Upcoming
                                        \<and> a_date a = e_todayUTC ev)
                         (\<lambda>a. a \<lparr> a_status := Completed \<rparr>) (appointments st))"
      unfolding a' finishCurrent_appointments using c by simp
    have 3: "\<forall>p a. q_user c = Some p
                  \<and> findOne (\<lambda>a. a_user a = p \<and> a_doctor a = dr \<and> a_status a = Upcoming
                                  \<and> a_date a = e_todayUTC ev) (appointments st) = Some a \<longrightarrow>
                  a \<lparr> a_status := Completed \<rparr> \<in> set (appointments st')"
    proof (intro allI impI)
      fix p a
      assume h: "q_user c = Some p
                  \<and> findOne (\<lambda>a. a_user a = p \<and> a_doctor a = dr \<and> a_status a = Upcoming
                                  \<and> a_date a = e_todayUTC ev) (appointments st) = Some a"
      then have "List.find (\<lambda>a. a_user a = p \<and> a_doctor a = dr \<and> a_status a = Upcoming
                                  \<and> a_date a = e_todayUTC ev) (appointments st) = Some a"
        by (simp add: findOne_def)
      from updateFirst_mem[OF this, of "\<lambda>a. a \<lparr> a_status := Completed \<rparr>"] h 2
      show "a \<lparr> a_status := Completed \<rparr> \<in> set (appointments st')" by simp
    qed
    from 1 2 3 show "findOne (\<lambda>q. q_id q = q_id c) (queueItems st') = Some (c \<lparr> q_status := Done \<rparr>)
            \<and> appointments st'
                = (case q_user c of
                     None \<Rightarrow> appointments st
                   | Some p \<Rightarrow>
                       updateFirst (\<lambda>a. a_user a = p \<and> a_doctor a = dr \<and> a_status a = Upcoming
                                        \<and> a_date a = e_todayUTC ev)
                         (\<lambda>a. a \<lparr> a_status := Completed \<rparr>) (appointments st))
            \<and> (\<forall>p a. q_user c = Some p
                  \<and> findOne (\<lambda>a. a_user a = p \<and> a_doctor a = dr \<and> a_status a = Upcoming
                                  \<and> a_date a = e_todayUTC ev) (appointments st) = Some a \<longrightarrow>
                  a \<lparr> a_status := Completed \<rparr> \<in> set (appointments st'))"
      by (intro conjI)
  qed
  have B: "findOne (\<lambda>q. q_doctor q = dr \<and> q_status q = Serving) (queueItems st) = None \<longrightarrow>
            appointments st' = appointments st"
    unfolding a' finishCurrent_appointments by simp
  have C: "nextPatient = map_option (\<lambda>q. q \<lparr> q_status := Serving \<rparr>) (firstOf (waitingLine dr st))"
    unfolding np by (rule callNext_result[OF d])
  have D: "\<forall>n. firstOf (waitingLine dr st) = Some n \<longrightarrow>
            n \<in> set (queueItems st) \<and> q_doctor n = dr \<and> q_status n = Waiting
            \<and> (\<forall>q \<in> set (queueItems st). q_doctor q = dr \<and> q_status q = Waiting \<longrightarrow>
                  q_checkInTime n \<le> q_checkInTime q)
            \<and> findOne (\<lambda>q. q_id q = q_id n) (queueItems st') = Some (n \<lparr> q_status := Serving \<rparr>)"
  proof (intro allI impI)
    fix n assume "firstOf (waitingLine dr st) = Some n"
    then obtain rest where w: "waitingLine dr st = n # rest"
      unfolding firstOf_def by (auto split: list.splits)
    from waitingLine_head[OF d w] callNext_promoted[OF d w, of ev]
    show "n \<in> set (queueItems st) \<and> q_doctor n = dr \<and> q_status n = Waiting
            \<and> (\<forall>q \<in> set (queueItems st). q_doctor q = dr \<and> q_status q = Waiting \<longrightarrow>
                  q_checkInTime n \<le> q_checkInTime q)
            \<and> findOne (\<lambda>q. q_id q = q_id n) (queueItems st') = Some (n \<lparr> q_status := Serving \<rparr>)"
      unfolding q' by simp
  qed
  have E: "firstOf (waitingLine dr st) = None \<longrightarrow>
            (\<forall>q \<in> set (queueItems st). \<not> (q_doctor q = dr \<and> q_status q = Waiting))"
  proof
    assume "firstOf (waitingLine dr st) = None"
    then have "waitingLine dr st = []" unfolding firstOf_def by (simp split: list.splits)
    then have "set (sort_key q_checkInTime
                  (filter (\<lambda>q. q_doctor q = dr \<and> q_status q = Waiting) (queueItems st))) = {}"
      unfolding waitingLine_def by simp
    then have "set (filter (\<lambda>q. q_doctor q = dr \<and> q_status q = Waiting) (queueItems st)) = {}"
      by (simp only: set_sort)
    then show "\<forall>q \<in> set (queueItems st). \<not> (q_doctor q = dr \<and> q_status q = Waiting)"
      by (simp add: filter_empty_conv)
  qed
  have F: "notifications st'
            = notifications st @
                (case firstOf (waitingLine dr st') of
                   None \<Rightarrow> []
                 | Some upNext \<Rightarrow>
                     (case q_user upNext of
                        None \<Rightarrow> []
                      | Some p \<Rightarrow> if e_notificationSaved ev
                                  then [\<lparr> n_user = p, n_type = ''system'' \<rparr>] else []))"
  proof -
    have "waitingLine dr st' = waitingLine dr ?st2"
      unfolding st' by (rule notifyUpNext_waitingLine)
    then show ?thesis
      unfolding st' notifyUpNext_notifications
      by (simp only: promoteNext_fields finishCurrent_notifications notifyUpNext_waitingLine)
  qed
  have G: "\<forall>b. snd (callNextPatient (ev \<lparr> e_notificationSaved := b \<rparr>) dr st) = nextPatient
              \<and> queueItems (fst (callNextPatient (ev \<lparr> e_notificationSaved := b \<rparr>) dr st))
                  = queueItems st'
              \<and> appointments (fst (callNextPatient (ev \<lparr> e_notificationSaved := b \<rparr>) dr st))
                  = appointments st'"
    unfolding callNextPatient_parts finishCurrent_env np q' a'
    by (simp add: notifyUpNext_fields promoteNext_fields)
  from A B C D E w' F G show ?thesis by (intro conjI)
qed

theorem call_next_patient_witness:
  "distinct (map q_id (queueItems dbCall))
   \<and> snd (callNextPatient envA 2 dbCall) = Some (mkEntry 62 None 3 Serving 20)
   \<and> map q_status (queueItems (fst (callNextPatient envA 2 dbCall))) = [Done, Waiting, Serving]
   \<and> map a_status (appointments (fst (callNextPatient envA 2 dbCall))) = [Completed]
   \<and> waitingLine 2 (fst (callNextPatient envA 2 dbCall)) = [mkEntry 61 (Some 4) 2 Waiting 30]
   \<and> notifications (fst (callNextPatient envA 2 dbCall))
        = [\<lparr> n_user = 4, n_type = ''system'' \<rparr>]
   \<and> snd (callNextPatient (envA \<lparr> e_notificationSaved := False \<rparr>) 2 dbCall)
        = Some (mkEntry 62 None 3 Serving 20)"
proof -
  let ?r = "callNextPatient envA 2 dbCall"
  have d: "distinct (map q_id (queueItems dbCall))" by code_simp
  have r: "?r = (fst ?r, snd ?r)" by simp
  note th = call_next_patient[OF d r]
  have w: "waitingLine 2 dbCall = [mkEntry 62 None 3 Waiting 20, mkEntry 61 (Some 4) 2 Waiting 30]"
    by code_simp
  have n0: "notifications dbCall = []" by code_simp
  have u: "q_user (mkEntry 61 (Some 4) 2 Waiting 30) = Some 4" by code_simp
  have sv: "e_notificationSaved envA" by code_simp
  have m: "mkEntry 62 None 3 Waiting 20 \<lparr> q_status := Serving \<rparr> = mkEntry 62 None 3 Serving 20"
    by code_simp
  from th w m have 1: "snd ?r = Some (mkEntry 62 None 3 Serving 20)"
    by (simp add: firstOf_def)
  from th w have 2: "waitingLine 2 (fst ?r) = [mkEntry 61 (Some 4) 2 Waiting 30]" by simp
  from th 2 n0 u sv have 3: "notifications (fst ?r) = [\<lparr> n_user = 4, n_type = ''system'' \<rparr>]"
    by (simp add: firstOf_def)
  from th 1 have 4: "snd (callNextPatient (envA \<lparr> e_notificationSaved := False \<rparr>) 2 dbCall)
        = Some (mkEntry 62 None 3 Serving 20)" by simp
  have 5: "map q_status (queueItems (fst ?r)) = [Done, Waiting, Serving]" by code_simp
  have 6: "map a_status (appointments (fst ?r)) = [Completed]" by code_simp
  from d 1 2 3 4 5 6 show ?thesis by (intro conjI)
qed

end
